(* ===== verification/Prelude.thy ===== *)
theory Prelude
  imports Complex_Main
begin

section \<open>Prelude: programs, the environment and tables\<close>

text \<open>
  What every component theory shares.
  \<^item> \<open>prog\<close>: the Rust functions that return a \<open>Result\<close> and change state are functions from
    a state to a result and the next state. The state an early return leaves behind is kept, as
    the database keeps what was written before the error.
  \<^item> \<open>env\<close>: the environment a service reads: the wall clock, the generator of random
    identifiers, and what happens to each statement sent to the database. A statement is
    carried out, lost before it is carried out, or carried out with its answer lost.
  \<^item> Tables: lists of rows with a key, as the SQL of the repositories reads and writes them.
  \<^item> \<open>keeps\<close> and \<open>frames\<close>: the invariant calculus, with one rule per program former in the
    collections \<open>keeps_rules\<close> and \<open>frames_rules\<close>.
\<close>

named_theorems run_simps \<open>what a program former does in a given state\<close>
named_theorems keeps_rules \<open>which programs keep an invariant\<close>
named_theorems frames_rules \<open>which programs leave a view of the state unchanged\<close>

subsection \<open>Programs with a state and an error\<close>

type_synonym ('s, 'e, 'a) prog = "'s \<Rightarrow> ('e + 'a) \<times> 's"

definition ok :: "'a \<Rightarrow> ('s, 'e, 'a) prog" where
  "ok x s = (Inr x, s)"

definition fail :: "'e \<Rightarrow> ('s, 'e, 'a) prog" where
  "fail e s = (Inl e, s)"

definition andthen :: "('s, 'e, 'a) prog \<Rightarrow> ('a \<Rightarrow> ('s, 'e, 'b) prog) \<Rightarrow> ('s, 'e, 'b) prog" where
  "andthen m f s = (case m s of (Inl e, t) \<Rightarrow> (Inl e, t) | (Inr x, t) \<Rightarrow> f x t)"

definition attempt :: "('s, 'e, 'a) prog \<Rightarrow> ('s, 'f, 'e + 'a) prog" where
  "attempt m s = (case m s of (r, t) \<Rightarrow> (Inr r, t))"

definition map_err :: "('e \<Rightarrow> 'f) \<Rightarrow> ('s, 'e, 'a) prog \<Rightarrow> ('s, 'f, 'a) prog" where
  "map_err g m s = (case m s of (Inl e, t) \<Rightarrow> (Inl (g e), t) | (Inr x, t) \<Rightarrow> (Inr x, t))"

definition of_result :: "'e + 'a \<Rightarrow> ('s, 'e, 'a) prog" where
  "of_result r s = (r, s)"

definition ok_or :: "'e \<Rightarrow> 'a option \<Rightarrow> ('s, 'e, 'a) prog" where
  "ok_or e x s = (case x of None \<Rightarrow> (Inl e, s) | Some y \<Rightarrow> (Inr y, s))"

definition gets :: "('s \<Rightarrow> 'a) \<Rightarrow> ('s, 'e, 'a) prog" where
  "gets f s = (Inr (f s), s)"

definition modify :: "('s \<Rightarrow> 's) \<Rightarrow> ('s, 'e, unit) prog" where
  "modify f s = (Inr (), f s)"

fun for_each :: "('a \<Rightarrow> ('s, 'e, unit) prog) \<Rightarrow> 'a list \<Rightarrow> ('s, 'e, unit) prog" where
  "for_each f [] = ok ()"
| "for_each f (x # xs) = andthen (f x) (\<lambda>_. for_each f xs)"

lemma ok_run [run_simps, simp]: "ok x s = (Inr x, s)"
  by (simp add: ok_def)

lemma fail_run [run_simps, simp]: "fail e s = (Inl e, s)"
  by (simp add: fail_def)

lemma of_result_run [run_simps, simp]: "of_result r s = (r, s)"
  by (simp add: of_result_def)

lemma gets_run [run_simps, simp]: "gets f s = (Inr (f s), s)"
  by (simp add: gets_def)

lemma modify_run [run_simps, simp]: "modify f s = (Inr (), f s)"
  by (simp add: modify_def)

lemma ok_or_run [run_simps, simp]:
  "ok_or e None s = (Inl e, s)" "ok_or e (Some x) s = (Inr x, s)"
  by (simp_all add: ok_or_def)

lemma andthen_Inr [run_simps]: "m s = (Inr x, t) \<Longrightarrow> andthen m f s = f x t"
  by (simp add: andthen_def)

lemma andthen_Inl [run_simps]: "m s = (Inl e, t) \<Longrightarrow> andthen m f s = (Inl e, t)"
  by (simp add: andthen_def)

lemma andthen_ok [simp]: "andthen (ok x) f s = f x s"
  by (simp add: andthen_def)

lemma andthen_gets [simp]: "andthen (gets g) f s = f (g s) s"
  by (simp add: andthen_def)

lemma andthen_fail [simp]: "andthen (fail e) f s = (Inl e, s)"
  by (simp add: andthen_def)

lemma andthen_of_result [simp]:
  "andthen (of_result (Inl e)) f s = (Inl e, s)" "andthen (of_result (Inr x)) f s = f x s"
  by (simp_all add: andthen_def)

lemma andthen_ok_right: "andthen m ok = m"
  by (auto simp: fun_eq_iff andthen_def split: prod.splits sum.splits)

lemma andthen_modify [simp]: "andthen (modify g) f s = f () (g s)"
  by (simp add: andthen_def)

lemma attempt_run [run_simps]: "m s = (r, t) \<Longrightarrow> attempt m s = (Inr r, t)"
  by (simp add: attempt_def)

lemma map_err_run [run_simps]:
  "m s = (Inl e, t) \<Longrightarrow> map_err g m s = (Inl (g e), t)"
  "m s = (Inr x, t) \<Longrightarrow> map_err g m s = (Inr x, t)"
  by (simp_all add: map_err_def)

lemma andthen_InrE:
  assumes "andthen m f s = (Inr y, u)"
  obtains x t where "m s = (Inr x, t)" and "f x t = (Inr y, u)"
  using assms by (auto simp: andthen_def split: prod.splits sum.splits)

lemma andthen_split:
  "P (andthen m f s) \<longleftrightarrow>
     (\<forall>e t. m s = (Inl e, t) \<longrightarrow> P (Inl e, t)) \<and> (\<forall>x t. m s = (Inr x, t) \<longrightarrow> P (f x t))"
  by (auto simp: andthen_def split: prod.splits sum.splits)

subsection \<open>Invariants and frames of programs\<close>

definition keeps :: "('s \<Rightarrow> bool) \<Rightarrow> ('s, 'e, 'a) prog \<Rightarrow> bool" where
  "keeps I m \<longleftrightarrow> (\<forall>s. I s \<longrightarrow> I (snd (m s)))"

definition frames :: "('s \<Rightarrow> 'v) \<Rightarrow> ('s, 'e, 'a) prog \<Rightarrow> bool" where
  "frames v m \<longleftrightarrow> (\<forall>s. v (snd (m s)) = v s)"

lemma keepsI: "(\<And>s r t. I s \<Longrightarrow> m s = (r, t) \<Longrightarrow> I t) \<Longrightarrow> keeps I m"
  by (simp add: keeps_def) (meson prod.exhaust_sel)

lemma keepsD: "keeps I m \<Longrightarrow> I s \<Longrightarrow> m s = (r, t) \<Longrightarrow> I t"
  by (auto simp: keeps_def dest: spec [where x = s])

lemma framesD: "frames v m \<Longrightarrow> m s = (r, t) \<Longrightarrow> v t = v s"
  by (auto simp: frames_def dest: spec [where x = s])

lemma framesI: "(\<And>s r t. m s = (r, t) \<Longrightarrow> v t = v s) \<Longrightarrow> frames v m"
  by (simp add: frames_def) (meson prod.exhaust_sel)

lemma keeps_of_frames: "frames v m \<Longrightarrow> keeps (\<lambda>s. P (v s)) m"
  by (simp add: keeps_def frames_def)

text \<open>A program that keeps the invariant and returns only values that satisfy \<open>Q\<close>.\<close>

definition safe :: "('s \<Rightarrow> bool) \<Rightarrow> ('s, 'e, 'a) prog \<Rightarrow> ('a \<Rightarrow> bool) \<Rightarrow> bool" where
  "safe I m Q \<longleftrightarrow> keeps I m \<and> (\<forall>s x t. I s \<longrightarrow> m s = (Inr x, t) \<longrightarrow> Q x)"

lemma safeI: "keeps I m \<Longrightarrow> (\<And>s x t. I s \<Longrightarrow> m s = (Inr x, t) \<Longrightarrow> Q x) \<Longrightarrow> safe I m Q"
  by (simp add: safe_def)

lemma safe_keeps: "safe I m Q \<Longrightarrow> keeps I m"
  by (simp add: safe_def)

lemma safeD: "safe I m Q \<Longrightarrow> I s \<Longrightarrow> m s = (Inr x, t) \<Longrightarrow> I t \<and> Q x"
  by (auto simp: safe_def dest: keepsD)

lemma keeps_bind:
  assumes "safe I m Q" and "\<And>x. Q x \<Longrightarrow> keeps I (f x)"
  shows "keeps I (andthen m f)"
proof (rule keepsI)
  fix s r t
  assume inv: "I s" and run: "andthen m f s = (r, t)"
  show "I t"
  proof (cases "m s")
    case (Pair r' s1)
    show ?thesis
    proof (cases r')
      case (Inl e)
      with Pair run have "m s = (r', t)" by (simp add: andthen_def)
      with safe_keeps [OF assms(1)] inv show ?thesis by (rule keepsD)
    next
      case (Inr x)
      with Pair have "I s1 \<and> Q x" using safeD [OF assms(1) inv] by simp
      moreover have "f x s1 = (r, t)" using Pair Inr run by (simp add: andthen_def)
      ultimately show ?thesis by (blast intro: keepsD [OF assms(2)])
    qed
  qed
qed

lemma safe_andthen:
  assumes "safe I m Q" and "\<And>x. Q x \<Longrightarrow> safe I (f x) P"
  shows "safe I (andthen m f) P"
proof (rule safeI)
  show "keeps I (andthen m f)"
    using assms(1) by (rule keeps_bind) (rule safe_keeps [OF assms(2)])
next
  fix s x t
  assume inv: "I s"
  assume "andthen m f s = (Inr x, t)"
  then obtain y s1 where "m s = (Inr y, s1)" and run: "f y s1 = (Inr x, t)"
    by (rule andthen_InrE)
  then have "I s1 \<and> Q y" using safeD [OF assms(1) inv] by simp
  with run show "P x" using safeD [OF assms(2) _ run] by simp
qed

lemma safe_weaken: "keeps I m \<Longrightarrow> safe I m (\<lambda>_. True)"
  by (simp add: safe_def)

lemma keeps_ok [keeps_rules]: "keeps I (ok x)"
  by (simp add: keeps_def)

lemma keeps_fail [keeps_rules]: "keeps I (fail e)"
  by (simp add: keeps_def)

lemma keeps_gets [keeps_rules]: "keeps I (gets f)"
  by (simp add: keeps_def)

lemma keeps_of_result [keeps_rules]: "keeps I (of_result r)"
  by (simp add: keeps_def)

lemma keeps_ok_or [keeps_rules]: "keeps I (ok_or e x)"
  by (cases x) (simp_all add: keeps_def)

lemma keeps_andthen [keeps_rules]:
  assumes "keeps I m" and "\<And>x. keeps I (f x)"
  shows "keeps I (andthen m f)"
proof (rule keepsI)
  fix s r t
  assume "I s" and run: "andthen m f s = (r, t)"
  then have "I (snd (m s))"
    using assms(1) by (simp add: keeps_def)
  with run show "I t"
    using assms(2) by (cases "m s") (auto simp: andthen_def split: sum.splits dest: keepsD)
qed

lemma keeps_attempt [keeps_rules]: "keeps I m \<Longrightarrow> keeps I (attempt m)"
  by (auto simp: keeps_def attempt_def split: prod.splits)

lemma keeps_map_err [keeps_rules]: "keeps I m \<Longrightarrow> keeps I (map_err g m)"
  by (rule keepsI) (auto simp: map_err_def split: prod.splits sum.splits dest: keepsD)

lemma keeps_if [keeps_rules]:
  "(b \<Longrightarrow> keeps I m) \<Longrightarrow> (\<not> b \<Longrightarrow> keeps I m') \<Longrightarrow> keeps I (if b then m else m')"
  by simp

lemma keeps_case_option [keeps_rules]:
  "(x = None \<Longrightarrow> keeps I m) \<Longrightarrow> (\<And>y. x = Some y \<Longrightarrow> keeps I (f y)) \<Longrightarrow>
     keeps I (case x of None \<Rightarrow> m | Some y \<Rightarrow> f y)"
  by (cases x) simp_all

lemma keeps_case_sum [keeps_rules]:
  "(\<And>y. x = Inl y \<Longrightarrow> keeps I (f y)) \<Longrightarrow> (\<And>y. x = Inr y \<Longrightarrow> keeps I (g y)) \<Longrightarrow>
     keeps I (case x of Inl y \<Rightarrow> f y | Inr y \<Rightarrow> g y)"
  by (cases x) simp_all

lemma keeps_case_prod [keeps_rules]:
  "(\<And>a b. keeps I (f a b)) \<Longrightarrow> keeps I (case x of (a, b) \<Rightarrow> f a b)"
  by (cases x) simp

lemma keeps_Let [keeps_rules]: "(\<And>x. keeps I (f x)) \<Longrightarrow> keeps I (let x = v in f x)"
  by simp

lemma safe_ok: "Q x \<Longrightarrow> safe I (ok x) Q"
  by (simp add: safe_def keeps_def)

lemma safe_fail: "safe I (fail e) Q"
  by (simp add: safe_def keeps_def)

lemma safe_ok_or: "pred_option Q x \<Longrightarrow> safe I (ok_or e x) Q"
  by (cases x) (simp_all add: safe_def keeps_def)

lemma safe_case_option:
  "(x = None \<Longrightarrow> safe I m Q) \<Longrightarrow> (\<And>y. x = Some y \<Longrightarrow> safe I (f y) Q) \<Longrightarrow>
     safe I (case x of None \<Rightarrow> m | Some y \<Rightarrow> f y) Q"
  by (cases x) simp_all

lemma safe_attempt:
  "safe I m Q \<Longrightarrow> safe I (attempt m) (\<lambda>r. case r of Inl _ \<Rightarrow> True | Inr x \<Rightarrow> Q x)"
  by (auto simp: safe_def keeps_def attempt_def split: prod.splits sum.splits)

lemma keeps_for_each_in:
  "(\<And>x. x \<in> set xs \<Longrightarrow> keeps I (f x)) \<Longrightarrow> keeps I (for_each f xs)"
  by (induction xs) (auto intro: keeps_ok keeps_andthen)

lemma keeps_for_each [keeps_rules]: "(\<And>x. keeps I (f x)) \<Longrightarrow> keeps I (for_each f xs)"
  by (induction xs) (auto intro: keeps_ok keeps_andthen)

lemma frames_keeps: "frames v m \<longleftrightarrow> (\<forall>c. keeps (\<lambda>s. v s = c) m)"
  by (auto simp: frames_def keeps_def)

lemma frames_ok [frames_rules]: "frames v (ok x)"
  by (simp add: frames_def)

lemma frames_fail [frames_rules]: "frames v (fail e)"
  by (simp add: frames_def)

lemma frames_gets [frames_rules]: "frames v (gets f)"
  by (simp add: frames_def)

lemma frames_of_result [frames_rules]: "frames v (of_result r)"
  by (simp add: frames_def)

lemma frames_ok_or [frames_rules]: "frames v (ok_or e x)"
  by (cases x) (simp_all add: frames_def)

lemma frames_andthen [frames_rules]:
  "frames v m \<Longrightarrow> (\<And>x. frames v (f x)) \<Longrightarrow> frames v (andthen m f)"
  by (simp add: frames_keeps keeps_andthen)

lemma frames_attempt [frames_rules]: "frames v m \<Longrightarrow> frames v (attempt m)"
  by (simp add: frames_keeps keeps_attempt)

lemma frames_map_err [frames_rules]: "frames v m \<Longrightarrow> frames v (map_err g m)"
  by (simp add: frames_keeps keeps_map_err)

lemma frames_if [frames_rules]:
  "(b \<Longrightarrow> frames v m) \<Longrightarrow> (\<not> b \<Longrightarrow> frames v m') \<Longrightarrow> frames v (if b then m else m')"
  by simp

lemma frames_case_option [frames_rules]:
  "(x = None \<Longrightarrow> frames v m) \<Longrightarrow> (\<And>y. x = Some y \<Longrightarrow> frames v (f y)) \<Longrightarrow>
     frames v (case x of None \<Rightarrow> m | Some y \<Rightarrow> f y)"
  by (cases x) simp_all

lemma frames_case_sum [frames_rules]:
  "(\<And>y. x = Inl y \<Longrightarrow> frames v (f y)) \<Longrightarrow> (\<And>y. x = Inr y \<Longrightarrow> frames v (g y)) \<Longrightarrow>
     frames v (case x of Inl y \<Rightarrow> f y | Inr y \<Rightarrow> g y)"
  by (cases x) simp_all

lemma frames_case_prod: "(\<And>a b. frames v (f a b)) \<Longrightarrow> frames v (case x of (a, b) \<Rightarrow> f a b)"
  by (cases x) simp

lemma frames_Let [frames_rules]: "(\<And>x. frames v (f x)) \<Longrightarrow> frames v (let x = a in f x)"
  by simp

lemma frames_for_each [frames_rules]: "(\<And>x. frames v (f x)) \<Longrightarrow> frames v (for_each f xs)"
  by (simp add: frames_keeps keeps_for_each)

subsection \<open>The environment\<close>

text \<open>
  A moment is a number of nanoseconds, an identifier a number (0 is the nil identifier). The
  counter \<open>tick\<close> numbers the interactions with the environment, so that two readings of the
  clock can differ.
\<close>

type_synonym time = int
type_synonym uuid = nat

datatype outcome = Done | Lost | Unacked

record env =
  tick :: nat
  clock :: "nat \<Rightarrow> time"
  uuid_src :: "nat \<Rightarrow> uuid"
  db_outcome :: "nat \<Rightarrow> outcome"

definition utc_now :: "('z env_scheme, 'e, time) prog" where
  "utc_now s = (Inr (clock s (tick s)), s\<lparr>tick := Suc (tick s)\<rparr>)"

definition uuid_new_v4 :: "('z env_scheme, 'e, uuid) prog" where
  "uuid_new_v4 s = (Inr (uuid_src s (tick s)), s\<lparr>tick := Suc (tick s)\<rparr>)"

definition sql :: "'e \<Rightarrow> ('z env_scheme, 'e, 'a) prog \<Rightarrow> ('z env_scheme, 'e, 'a) prog" where
  "sql e stmt s =
     (case db_outcome s (tick s) of
        Done \<Rightarrow> stmt (s\<lparr>tick := Suc (tick s)\<rparr>)
      | Lost \<Rightarrow> (Inl e, s\<lparr>tick := Suc (tick s)\<rparr>)
      | Unacked \<Rightarrow> (Inl e, snd (stmt (s\<lparr>tick := Suc (tick s)\<rparr>))))"

text \<open>
  A transaction: the statements of the body take effect together at the commit, or not at all.
\<close>

definition transaction ::
  "'e \<Rightarrow> 'e \<Rightarrow> ('z env_scheme, 'e, 'a) prog \<Rightarrow> ('z env_scheme, 'e, 'a) prog" where
  "transaction e_begin e_commit body s =
     (let s0 = s\<lparr>tick := Suc (tick s)\<rparr> in
      if db_outcome s (tick s) \<noteq> Done then (Inl e_begin, s0)
      else case body s0 of
             (Inl e, t) \<Rightarrow> (Inl e, s0\<lparr>tick := tick t\<rparr>)
           | (Inr x, t) \<Rightarrow>
               (case db_outcome t (tick t) of
                  Done \<Rightarrow> (Inr x, t\<lparr>tick := Suc (tick t)\<rparr>)
                | Lost \<Rightarrow> (Inl e_commit, s0\<lparr>tick := Suc (tick t)\<rparr>)
                | Unacked \<Rightarrow> (Inl e_commit, t\<lparr>tick := Suc (tick t)\<rparr>)))"

text \<open>A view of the state that does not look at the interaction counter.\<close>

definition tickless :: "('z env_scheme \<Rightarrow> 'v) \<Rightarrow> bool" where
  "tickless v \<longleftrightarrow> (\<forall>s n. v (s\<lparr>tick := n\<rparr>) = v s)"

lemma ticklessD: "tickless v \<Longrightarrow> v (s\<lparr>tick := n\<rparr>) = v s"
  by (simp add: tickless_def)

lemma utc_now_run [run_simps, simp]:
  "utc_now s = (Inr (clock s (tick s)), s\<lparr>tick := Suc (tick s)\<rparr>)"
  by (simp add: utc_now_def)

lemma uuid_new_v4_run [run_simps, simp]:
  "uuid_new_v4 s = (Inr (uuid_src s (tick s)), s\<lparr>tick := Suc (tick s)\<rparr>)"
  by (simp add: uuid_new_v4_def)

lemma sql_Done [run_simps]:
  "db_outcome s (tick s) = Done \<Longrightarrow> sql e stmt s = stmt (s\<lparr>tick := Suc (tick s)\<rparr>)"
  by (simp add: sql_def)

lemma sql_InrD: "sql e stmt s = (Inr x, t) \<Longrightarrow> stmt (s\<lparr>tick := Suc (tick s)\<rparr>) = (Inr x, t)"
  by (simp add: sql_def split: outcome.splits)

text \<open>A run in which every statement is carried out.\<close>

definition reliable :: "'z env_scheme \<Rightarrow> bool" where
  "reliable s \<longleftrightarrow> db_outcome s = (\<lambda>_. Done)"

lemma reliable_sql: "reliable s \<Longrightarrow> sql e stmt s = stmt (s\<lparr>tick := Suc (tick s)\<rparr>)"
  by (simp add: reliable_def sql_def)

lemma reliable_tick [simp]: "reliable (s\<lparr>tick := n\<rparr>) = reliable s"
  by (simp add: reliable_def)

lemma andthen_utc_now [simp]:
  "andthen utc_now f s = f (clock s (tick s)) (s\<lparr>tick := Suc (tick s)\<rparr>)"
  by (simp add: andthen_def)

lemma andthen_uuid [simp]:
  "andthen uuid_new_v4 f s = f (uuid_src s (tick s)) (s\<lparr>tick := Suc (tick s)\<rparr>)"
  by (simp add: andthen_def)

lemma frames_utc_now [frames_rules]: "tickless v \<Longrightarrow> frames v utc_now"
  by (simp add: frames_def tickless_def)

lemma frames_uuid [frames_rules]: "tickless v \<Longrightarrow> frames v uuid_new_v4"
  by (simp add: frames_def tickless_def)

lemma frames_sql [frames_rules]: "tickless v \<Longrightarrow> frames v stmt \<Longrightarrow> frames v (sql e stmt)"
  by (simp add: frames_def tickless_def sql_def split: outcome.splits)

lemma keeps_utc_now [keeps_rules]: "tickless I \<Longrightarrow> keeps I utc_now"
  by (simp add: keeps_def tickless_def)

lemma keeps_uuid [keeps_rules]: "tickless I \<Longrightarrow> keeps I uuid_new_v4"
  by (simp add: keeps_def tickless_def)

lemma keeps_sql [keeps_rules]: "tickless I \<Longrightarrow> keeps I stmt \<Longrightarrow> keeps I (sql e stmt)"
  by (simp add: keeps_def tickless_def sql_def split: outcome.splits)

lemma keeps_transaction [keeps_rules]:
  "tickless I \<Longrightarrow> keeps I body \<Longrightarrow> keeps I (transaction e e' body)"
  by (rule keepsI)
     (auto simp: tickless_def transaction_def Let_def dest: keepsD
           split: if_splits prod.splits sum.splits outcome.splits)

lemma frames_transaction [frames_rules]:
  "tickless v \<Longrightarrow> frames v body \<Longrightarrow> frames v (transaction e e' body)"
  by (simp add: frames_keeps keeps_transaction tickless_def)

subsection \<open>Tables\<close>

text \<open>A table is a list of rows; \<open>k\<close> reads a row's key.\<close>

definition rows_where :: "('r \<Rightarrow> bool) \<Rightarrow> 'r list \<Rightarrow> 'r list" where
  "rows_where p rs = filter p rs"

definition row_of :: "('r \<Rightarrow> 'k) \<Rightarrow> 'k \<Rightarrow> 'r list \<Rightarrow> 'r option" where
  "row_of k i rs = find (\<lambda>r. k r = i) rs"

definition update_where :: "('r \<Rightarrow> bool) \<Rightarrow> ('r \<Rightarrow> 'r) \<Rightarrow> 'r list \<Rightarrow> 'r list" where
  "update_where p f rs = map (\<lambda>r. if p r then f r else r) rs"

definition delete_where :: "('r \<Rightarrow> bool) \<Rightarrow> 'r list \<Rightarrow> 'r list" where
  "delete_where p rs = filter (\<lambda>r. \<not> p r) rs"

definition affected :: "('r \<Rightarrow> bool) \<Rightarrow> 'r list \<Rightarrow> nat" where
  "affected p rs = length (filter p rs)"

definition unique_key :: "('r \<Rightarrow> 'k) \<Rightarrow> 'r list \<Rightarrow> bool" where
  "unique_key k rs \<longleftrightarrow> distinct (map k rs)"

lemma row_of_Some: "row_of k i rs = Some r \<Longrightarrow> r \<in> set rs \<and> k r = i"
  by (auto simp: row_of_def find_Some_iff)

lemma row_of_None: "row_of k i rs = None \<longleftrightarrow> i \<notin> k ` set rs"
  by (auto simp: row_of_def find_None_iff)

lemma row_of_Nil [simp]: "row_of k i [] = None"
  by (simp add: row_of_def)

lemma row_of_Cons [simp]:
  "row_of k i (r # rs) = (if k r = i then Some r else row_of k i rs)"
  by (simp add: row_of_def)

lemma row_of_append:
  "row_of k i (rs @ rs') = (case row_of k i rs of None \<Rightarrow> row_of k i rs' | Some r \<Rightarrow> Some r)"
  by (induction rs) auto

lemma row_of_snoc_new [simp]: "row_of k i rs = None \<Longrightarrow> k r = i \<Longrightarrow> row_of k i (rs @ [r]) = Some r"
  by (simp add: row_of_append)

lemma update_where_Nil [simp]: "update_where p f [] = []"
  by (simp add: update_where_def)

lemma update_where_Cons [simp]:
  "update_where p f (r # rs) = (if p r then f r else r) # update_where p f rs"
  by (simp add: update_where_def)

lemma affected_0: "affected p rs = 0 \<longleftrightarrow> (\<forall>r\<in>set rs. \<not> p r)"
  by (simp add: affected_def filter_empty_conv)

lemma affected_key_0: "affected (\<lambda>r. k r = i) rs = 0 \<longleftrightarrow> row_of k i rs = None"
  by (auto simp: affected_0 row_of_None)

lemma row_of_update_same:
  assumes "\<And>r. k r = i \<Longrightarrow> k (f r) = i"
  shows "row_of k i (update_where (\<lambda>r. k r = i) f rs) = map_option f (row_of k i rs)"
  using assms by (induction rs) auto

lemma row_of_update_other:
  assumes "\<And>r. k (f r) = k r" and "\<And>r. k r = j \<Longrightarrow> \<not> p r"
  shows "row_of k j (update_where p f rs) = row_of k j rs"
  using assms by (induction rs) auto

lemma map_key_update_where [simp]:
  "(\<And>r. k (f r) = k r) \<Longrightarrow> map k (update_where p f rs) = map k rs"
  by (induction rs) auto

lemma unique_key_update [simp]:
  "(\<And>r. k (f r) = k r) \<Longrightarrow> unique_key k (update_where p f rs) = unique_key k rs"
  by (simp add: unique_key_def)

lemma map_key_update_at [simp]:
  "(\<And>r. k r = i \<Longrightarrow> k (f r) = i) \<Longrightarrow> map k (update_where (\<lambda>r. k r = i) f rs) = map k rs"
  by (induction rs) auto

lemma unique_key_update_at [simp]:
  "(\<And>r. k r = i \<Longrightarrow> k (f r) = i) \<Longrightarrow> unique_key k (update_where (\<lambda>r. k r = i) f rs) = unique_key k rs"
  by (simp add: unique_key_def)

lemma unique_key_snoc:
  "unique_key k (rs @ [r]) \<longleftrightarrow> unique_key k rs \<and> row_of k (k r) rs = None"
  by (auto simp: unique_key_def row_of_None)

lemma set_update_where: "set (update_where p f rs) = (\<lambda>r. if p r then f r else r) ` set rs"
  by (simp add: update_where_def)

lemma unique_key_row_of: "unique_key k rs \<Longrightarrow> r \<in> set rs \<Longrightarrow> row_of k (k r) rs = Some r"
  by (induction rs) (auto simp: unique_key_def image_iff)

lemma update_where_id:
  "(\<And>r. r \<in> set rs \<Longrightarrow> p r \<Longrightarrow> f r = r) \<Longrightarrow> update_where p f rs = rs"
  by (induction rs) auto

lemma update_where_unique:
  assumes "unique_key k rs" and "row_of k i rs = Some r" and "f r = g r"
  shows "update_where (\<lambda>x. k x = i) f rs = update_where (\<lambda>x. k x = i) g rs"
  unfolding update_where_def
proof (rule map_cong [OF refl])
  fix x assume "x \<in> set rs"
  then show "(if k x = i then f x else x) = (if k x = i then g x else x)"
    using unique_key_row_of [OF assms(1), of x] assms(2,3) by auto
qed

subsection \<open>Weighted sums over tables\<close>

definition total_where :: "('r \<Rightarrow> bool) \<Rightarrow> ('r \<Rightarrow> 'n::comm_monoid_add) \<Rightarrow> 'r list \<Rightarrow> 'n" where
  "total_where p w rs = sum_list (map w (filter p rs))"

lemma total_where_Nil [simp]: "total_where p w [] = 0"
  by (simp add: total_where_def)

lemma total_where_Cons [simp]:
  "total_where p w (r # rs) = (if p r then w r + total_where p w rs else total_where p w rs)"
  by (simp add: total_where_def)

lemma total_where_snoc [simp]:
  "total_where p w (rs @ [r]) = total_where p w rs + (if p r then w r else 0)"
  by (induction rs) (auto simp: ac_simps)

lemma total_where_nonneg:
  fixes w :: "'r \<Rightarrow> 'n::ordered_comm_monoid_add"
  shows "(\<And>r. r \<in> set rs \<Longrightarrow> p r \<Longrightarrow> 0 \<le> w r) \<Longrightarrow> 0 \<le> total_where p w rs"
  by (induction rs) (auto intro: add_nonneg_nonneg)

text \<open>Clearing the selection of one row takes its weight out of the sum.\<close>

lemma total_where_deselect:
  fixes w :: "'r \<Rightarrow> 'n::ab_group_add"
  assumes "unique_key k rs" and "row_of k i rs = Some r" and "p r"
    and "\<And>x. w (f x) = w x" and "\<not> p (f r)" and "\<And>x. k (f x) = k x"
  shows "total_where p w (update_where (\<lambda>x. k x = i) f rs) = total_where p w rs - w r"
  using assms
proof (induction rs)
  case Nil
  then show ?case by simp
next
  case (Cons x xs)
  show ?case
  proof (cases "k x = i")
    case True
    with Cons.prems(1) have "\<forall>y\<in>set xs. k y \<noteq> i"
      by (simp add: unique_key_def) (metis imageI)
    then have "update_where (\<lambda>x. k x = i) f xs = xs"
      by (auto intro: update_where_id)
    with True Cons.prems show ?thesis by auto
  next
    case False
    with Cons show ?thesis by (auto simp: unique_key_def)
  qed
qed

lemma total_where_update_other:
  assumes "\<And>r. r \<in> set rs \<Longrightarrow> q r \<Longrightarrow> p (f r) = p r \<and> w (f r) = w r"
  shows "total_where p w (update_where q f rs) = total_where p w rs"
  using assms by (induction rs) auto

end
