(* ===== verification/Decimal.thy ===== *)
theory Decimal
  imports Prelude
begin

section \<open>Decimal numbers: the interface to the crate \<open>rust_decimal\<close>\<close>

text \<open>
  Credits are \<open>rust_decimal::Decimal\<close> values, a crate the repository only calls. Its values are
  rational numbers here, and its operations are the fields of \<open>decimal_ops\<close>, an argument of
  every definition that computes with decimals. The locale \<open>rust_decimal\<close> states what the
  crate documents of them: a sum or difference of numbers with six places is exact while it
  fits the 96-bit mantissa, \<open>round_dp\<close> goes to the nearest number with six places, products
  are correctly rounded. Outside the range the crate panics; the laws say nothing there.
  \<open>bankers\<close> is a concrete instance (round half to even, 28 places) that shows the laws hold
  together; the witnesses compute with it.
\<close>

record decimal_ops =
  dec_add :: "rat \<Rightarrow> rat \<Rightarrow> rat"
  dec_sub :: "rat \<Rightarrow> rat \<Rightarrow> rat"
  dec_mul :: "rat \<Rightarrow> rat \<Rightarrow> rat"
  dec_div :: "rat \<Rightarrow> rat \<Rightarrow> rat"
  dec_round :: "rat \<Rightarrow> nat \<Rightarrow> rat"

text \<open>A number with at most six decimal places, and the largest one a \<open>Decimal\<close> holds.\<close>

definition dec6 :: "rat \<Rightarrow> bool" where
  "dec6 x \<longleftrightarrow> of_int \<lfloor>x * 1000000\<rfloor> = x * 1000000"

definition dec6_max :: rat where
  "dec6_max = (2 ^ 96 - 1) / 1000000"

lemma dec6_floor: "dec6 x \<Longrightarrow> x * 1000000 = of_int \<lfloor>x * 1000000\<rfloor>"
  unfolding dec6_def by (rule sym)

lemma dec6_iff: "dec6 x \<longleftrightarrow> (\<exists>k. x = of_int k / 1000000)"
proof
  assume "dec6 x"
  then have "x = of_int \<lfloor>x * 1000000\<rfloor> / 1000000"
    by (metis dec6_floor nonzero_mult_div_cancel_right zero_neq_numeral)
  then show "\<exists>k. x = of_int k / 1000000" by blast
next
  assume "\<exists>k. x = of_int k / 1000000"
  then show "dec6 x" by (auto simp: dec6_def)
qed

lemma dec6_of_int [simp, intro]: "dec6 (of_int k / 1000000)"
  by (auto simp: dec6_iff)

lemma dec6_0 [simp, intro]: "dec6 0"
  by (simp add: dec6_def)

lemma dec6_1 [simp, intro]: "dec6 1"
  by (simp add: dec6_def)

lemma dec6_add [intro]: "dec6 a \<Longrightarrow> dec6 b \<Longrightarrow> dec6 (a + b)"
  unfolding dec6_iff by (metis add_divide_distrib of_int_add)

lemma dec6_diff [intro]: "dec6 a \<Longrightarrow> dec6 b \<Longrightarrow> dec6 (a - b)"
  unfolding dec6_iff by (metis diff_divide_distrib of_int_diff)

locale rust_decimal =
  fixes D :: "'z decimal_ops_scheme"
  assumes dec_add_exact:
      "dec6 a \<Longrightarrow> dec6 b \<Longrightarrow> \<bar>a\<bar> \<le> dec6_max \<Longrightarrow> \<bar>b\<bar> \<le> dec6_max \<Longrightarrow> \<bar>a + b\<bar> \<le> dec6_max \<Longrightarrow>
         dec_add D a b = a + b"
    and dec_sub_exact:
      "dec6 a \<Longrightarrow> dec6 b \<Longrightarrow> \<bar>a\<bar> \<le> dec6_max \<Longrightarrow> \<bar>b\<bar> \<le> dec6_max \<Longrightarrow> \<bar>a - b\<bar> \<le> dec6_max \<Longrightarrow>
         dec_sub D a b = a - b"
    and dec_mul_near:
      "\<bar>a * b\<bar> \<le> 10 ^ 12 \<Longrightarrow> \<bar>dec_mul D a b - a * b\<bar> \<le> 1 / 10 ^ 15"
    and dec_mul_mono:
      "0 \<le> a \<Longrightarrow> b \<le> c \<Longrightarrow> \<bar>a * b\<bar> \<le> 10 ^ 12 \<Longrightarrow> \<bar>a * c\<bar> \<le> 10 ^ 12 \<Longrightarrow> dec_mul D a b \<le> dec_mul D a c"
    and dec_mul_0: "dec_mul D a 0 = 0"
    and dec_mul_1: "dec6 a \<Longrightarrow> \<bar>a\<bar> \<le> dec6_max \<Longrightarrow> dec_mul D a 1 = a"
    and dec_round_dec6: "dec6 (dec_round D x 6)"
    and dec_round_id: "dec6 x \<Longrightarrow> \<bar>x\<bar> \<le> dec6_max \<Longrightarrow> dec_round D x 6 = x"
    and dec_round_mono: "x \<le> y \<Longrightarrow> dec_round D x 6 \<le> dec_round D y 6"
    and dec_round_near: "\<bar>dec_round D x 6 - x\<bar> \<le> 1 / 2000000"

subsection \<open>A concrete instance: round half to even\<close>

definition half_even :: "rat \<Rightarrow> int" where
  "half_even x =
     (let f = \<lfloor>x\<rfloor>; r = x - of_int f in
      if r < 1 / 2 then f else if 1 / 2 < r then f + 1 else if even f then f else f + 1)"

definition round_places :: "nat \<Rightarrow> rat \<Rightarrow> rat" where
  "round_places n x = of_int (half_even (x * 10 ^ n)) / 10 ^ n"

definition bankers :: decimal_ops where
  "bankers = \<lparr>dec_add = (+), dec_sub = (-), dec_mul = (\<lambda>a b. round_places 28 (a * b)),
     dec_div = (\<lambda>a b. round_places 28 (a / b)), dec_round = (\<lambda>x n. round_places n x)\<rparr>"

lemma half_even_near: "\<bar>of_int (half_even x) - x\<bar> \<le> 1 / 2"
proof -
  have "of_int \<lfloor>x\<rfloor> \<le> x" "x < of_int \<lfloor>x\<rfloor> + 1" by linarith+
  then show ?thesis by (auto simp: half_even_def Let_def abs_le_iff)
qed

lemma half_even_of_int [simp]: "half_even (of_int k) = k"
  by (simp add: half_even_def)

lemma half_even_mono:
  assumes "x \<le> y"
  shows "half_even x \<le> half_even y"
proof (cases "\<lfloor>x\<rfloor> = \<lfloor>y\<rfloor>")
  case True
  with assms show ?thesis by (auto simp: half_even_def Let_def)
next
  case False
  with assms have "\<lfloor>x\<rfloor> + 1 \<le> \<lfloor>y\<rfloor>" by (meson floor_mono le_less not_le zless_imp_add1_zle)
  moreover have "half_even x \<le> \<lfloor>x\<rfloor> + 1" and "\<lfloor>y\<rfloor> \<le> half_even y"
    by (auto simp: half_even_def Let_def)
  ultimately show ?thesis by linarith
qed

lemma round_places_near: "\<bar>round_places n x - x\<bar> \<le> 1 / (2 * 10 ^ n)"
proof -
  have "\<bar>round_places n x - x\<bar> = \<bar>of_int (half_even (x * 10 ^ n)) - x * 10 ^ n\<bar> / 10 ^ n"
    by (simp add: round_places_def field_simps)
  also have "\<dots> \<le> (1 / 2) / 10 ^ n"
    by (intro divide_right_mono half_even_near) simp
  finally show ?thesis by simp
qed

lemma round_places_mono: "x \<le> y \<Longrightarrow> round_places n x \<le> round_places n y"
  unfolding round_places_def
  by (intro divide_right_mono of_int_le_iff [THEN iffD2] half_even_mono mult_right_mono) auto

lemma round_places_id: "x * 10 ^ n = of_int k \<Longrightarrow> round_places n x = x"
  by (simp add: round_places_def nonzero_divide_eq_eq)

lemma round_places_6_dec6: "dec6 (round_places 6 x)"
  by (auto simp: dec6_iff round_places_def)

lemma round_places_6_id: "dec6 x \<Longrightarrow> round_places 6 x = x"
  by (rule round_places_id [where k = "\<lfloor>x * 1000000\<rfloor>"])
     (simp add: dec6_floor [symmetric])

lemma round_places_28_id: "dec6 x \<Longrightarrow> round_places 28 x = x"
  by (rule round_places_id [where k = "\<lfloor>x * 1000000\<rfloor> * 10 ^ 22"])
     (simp add: dec6_floor [symmetric])

lemmas bankers_simps = bankers_def round_places_def half_even_def Let_def

lemma round_places_28_near: "\<bar>round_places 28 x - x\<bar> \<le> 1 / 10 ^ 15"
  using round_places_near [of 28 x] by simp

interpretation bankers: rust_decimal bankers
proof (unfold_locales, goal_cases)
  case (3 a b)
  then show ?case using round_places_28_near [of "a * b"] by (simp add: bankers_def)
next
  case (4 a b c)
  then show ?case by (simp add: bankers_def round_places_mono mult_left_mono)
next
  case (5 a)
  then show ?case by (simp add: bankers_simps)
next
  case (6 a)
  then show ?case by (simp add: bankers_def round_places_28_id)
next
  case (7 x)
  then show ?case by (simp add: bankers_def round_places_6_dec6)
next
  case (8 x)
  then show ?case by (simp add: bankers_def round_places_6_id)
next
  case (9 x y)
  then show ?case by (simp add: bankers_def round_places_mono)
next
  case (10 x)
  then show ?case using round_places_near [of 6 x] by (simp add: bankers_def)
qed (simp_all add: bankers_def)

end
