(* ===== verification/Billing_Types.thy ===== *)
theory Billing_Types
  imports Decimal
begin

section \<open>Billing: value types\<close>

text \<open>
  \<open>crates/basilica-billing/src/domain/types.rs\<close> and \<open>src/error.rs\<close>: credit amounts, the rental
  life cycle, usage metrics, cost breakdowns and the service's errors. Strings are ASCII.
  An amount is \<open>credit_ok\<close> when it has six decimal places and is far inside the range of a
  \<open>Decimal\<close>; credit arithmetic is exact on such amounts (\<open>credit_arith\<close>).
\<close>

type_synonym user_id = string
type_synonym package_id = string
type_synonym rental_id = uuid
type_synonym reservation_id = uuid
type_synonym credit_balance = rat

subsection \<open>Errors\<close>

datatype billing_error =
    InsufficientBalance rat rat
  | ReservationNotFound uuid
  | ReservationAlreadyReleased uuid
  | UserNotFound string
  | RentalNotFound uuid
  | InvalidStateTransition string string
  | PackageNotFound string
  | InvalidState string
  | DatabaseError string
  | RdsConnectionFailed
  | EventStoreError string
  | TelemetryError
  | RuleEvaluationError string
  | ConfigurationError string
  | ValidationError string string
  | ConcurrentModification string string
  | TransactionError string
  | AccountNotFound string
  | InsufficientCredits rat rat
  | SerializationError

subsection \<open>Strings\<close>

definition to_lowercase_char :: "char \<Rightarrow> char" where
  "to_lowercase_char c =
     (if 65 \<le> (of_char c :: nat) \<and> (of_char c :: nat) \<le> 90 then char_of (of_char c + 32 :: nat) else c)"

definition to_lowercase :: "string \<Rightarrow> string" where
  "to_lowercase s = map to_lowercase_char s"

fun contains :: "string \<Rightarrow> string \<Rightarrow> bool" where
  "contains [] p = (p = [])"
| "contains (c # s) p = (take (length p) (c # s) = p \<or> contains s p)"

subsection \<open>Package identifiers\<close>

definition package_h100 :: package_id where "package_h100 = ''h100''"
definition package_h200 :: package_id where "package_h200 = ''h200''"
definition package_custom :: package_id where "package_custom = ''custom''"

definition package_from_gpu_model :: "string \<Rightarrow> package_id" where
  "package_from_gpu_model gpu_model =
     (let model_lower = to_lowercase gpu_model in
      if contains model_lower ''h100'' then package_h100
      else if contains model_lower ''h200'' then package_h200
      else package_custom)"

subsection \<open>Credit amounts\<close>

definition cb_zero :: credit_balance where
  "cb_zero = 0"

definition from_decimal :: "'z decimal_ops_scheme \<Rightarrow> rat \<Rightarrow> credit_balance" where
  "from_decimal D amount = dec_round D amount 6"

definition cb_add :: "'z decimal_ops_scheme \<Rightarrow> credit_balance \<Rightarrow> credit_balance \<Rightarrow> credit_balance" where
  "cb_add D a b = from_decimal D (dec_add D a b)"

definition cb_subtract ::
  "'z decimal_ops_scheme \<Rightarrow> credit_balance \<Rightarrow> credit_balance \<Rightarrow> credit_balance option" where
  "cb_subtract D a b = (if b \<le> a then Some (from_decimal D (dec_sub D a b)) else None)"

definition cb_multiply :: "'z decimal_ops_scheme \<Rightarrow> credit_balance \<Rightarrow> rat \<Rightarrow> credit_balance" where
  "cb_multiply D a factor = from_decimal D (dec_mul D a factor)"

definition cb_is_sufficient :: "credit_balance \<Rightarrow> credit_balance \<Rightarrow> bool" where
  "cb_is_sufficient a required \<longleftrightarrow> required \<le> a"

definition unwrap_or :: "'a option \<Rightarrow> 'a \<Rightarrow> 'a" where
  "unwrap_or x d = (case x of None \<Rightarrow> d | Some y \<Rightarrow> y)"

lemma unwrap_or_simps [simp]: "unwrap_or None d = d" "unwrap_or (Some y) d = y"
  by (simp_all add: unwrap_or_def)

definition credit_ok :: "credit_balance \<Rightarrow> bool" where
  "credit_ok a \<longleftrightarrow> dec6 a \<and> \<bar>a\<bar> \<le> 10 ^ 22"

lemma credit_ok_0 [simp, intro]: "credit_ok 0"
  by (simp add: credit_ok_def)

lemma near_trans: "\<bar>x - y\<bar> \<le> d \<Longrightarrow> \<bar>y - z\<bar> \<le> e \<Longrightarrow> d + e \<le> f \<Longrightarrow> \<bar>x - z\<bar> \<le> (f::rat)"
  by linarith

lemma credit_okD: "credit_ok a \<Longrightarrow> dec6 a" "credit_ok a \<Longrightarrow> \<bar>a\<bar> \<le> dec6_max"
  by (auto simp: credit_ok_def dec6_max_def)

lemma credit_ok_diff:
  "credit_ok a \<Longrightarrow> credit_ok b \<Longrightarrow> 0 \<le> b \<Longrightarrow> b \<le> a \<Longrightarrow> credit_ok (a - b)"
  by (auto simp: credit_ok_def dec6_diff)

context rust_decimal
begin

lemma cb_add_exact:
  assumes "credit_ok a" and "credit_ok b"
  shows "cb_add D a b = a + b"
proof -
  have "\<bar>a + b\<bar> \<le> dec6_max"
    using assms abs_triangle_ineq [of a b] by (simp add: credit_ok_def dec6_max_def)
  with assms show ?thesis
    by (simp add: cb_add_def from_decimal_def dec_add_exact dec_round_id dec6_add credit_okD)
qed

lemma cb_subtract_exact:
  assumes "credit_ok a" and "credit_ok b"
  shows "cb_subtract D a b = (if b \<le> a then Some (a - b) else None)"
proof -
  have "\<bar>a - b\<bar> \<le> dec6_max"
    using assms abs_triangle_ineq4 [of a b] by (simp add: credit_ok_def dec6_max_def)
  with assms show ?thesis
    by (simp add: cb_subtract_def from_decimal_def dec_sub_exact dec_round_id dec6_diff credit_okD)
qed

lemma from_decimal_id: "credit_ok a \<Longrightarrow> from_decimal D a = a"
  by (simp add: credit_ok_def from_decimal_def dec_round_id dec6_max_def)

lemma from_decimal_dec6: "dec6 (from_decimal D a)"
  by (simp add: from_decimal_def dec_round_dec6)

lemma from_decimal_mono: "a \<le> b \<Longrightarrow> from_decimal D a \<le> from_decimal D b"
  by (simp add: from_decimal_def dec_round_mono)

lemma from_decimal_nonneg: "0 \<le> a \<Longrightarrow> 0 \<le> from_decimal D a"
  using from_decimal_mono [of 0 a] from_decimal_id [of 0] by simp

lemma cb_multiply_1: "credit_ok a \<Longrightarrow> cb_multiply D a 1 = a"
  by (simp add: cb_multiply_def dec_mul_1 credit_ok_def dec6_max_def from_decimal_id)

lemma cb_multiply_mono:
  "0 \<le> a \<Longrightarrow> b \<le> c \<Longrightarrow> \<bar>a * b\<bar> \<le> 10 ^ 12 \<Longrightarrow> \<bar>a * c\<bar> \<le> 10 ^ 12 \<Longrightarrow> cb_multiply D a b \<le> cb_multiply D a c"
  by (simp add: cb_multiply_def from_decimal_mono dec_mul_mono)

lemma cb_multiply_nonneg: "0 \<le> a \<Longrightarrow> 0 \<le> b \<Longrightarrow> a * b \<le> 10 ^ 12 \<Longrightarrow> 0 \<le> cb_multiply D a b"
  using cb_multiply_mono [of a 0 b] from_decimal_id [of 0] dec_mul_0 [of a]
  by (simp add: cb_multiply_def)

lemma cb_multiply_near:
  "\<bar>a * b\<bar> \<le> 10 ^ 12 \<Longrightarrow> \<bar>cb_multiply D a b - a * b\<bar> \<le> 1 / 10 ^ 6"
  unfolding cb_multiply_def from_decimal_def
  by (rule near_trans [OF dec_round_near dec_mul_near]) simp_all

lemmas credit_arith = cb_add_exact cb_subtract_exact from_decimal_id cb_multiply_1

end

subsection \<open>The rental life cycle\<close>

datatype rental_state = Pending | Active | Suspended | Terminating | Completed | Failed

definition state_is_active :: "rental_state \<Rightarrow> bool" where
  "state_is_active s \<longleftrightarrow> s = Active \<or> s = Suspended"

definition state_is_terminal :: "rental_state \<Rightarrow> bool" where
  "state_is_terminal s \<longleftrightarrow> s = Completed \<or> s = Failed"

fun can_transition_to :: "rental_state \<Rightarrow> rental_state \<Rightarrow> bool" where
  "can_transition_to Pending Active = True"
| "can_transition_to Pending Failed = True"
| "can_transition_to Active Suspended = True"
| "can_transition_to Active Terminating = True"
| "can_transition_to Suspended Active = True"
| "can_transition_to Suspended Terminating = True"
| "can_transition_to Terminating Completed = True"
| "can_transition_to Terminating Failed = True"
| "can_transition_to _ _ = False"

fun state_to_string :: "rental_state \<Rightarrow> string" where
  "state_to_string Pending = ''pending''"
| "state_to_string Active = ''active''"
| "state_to_string Suspended = ''suspended''"
| "state_to_string Terminating = ''terminating''"
| "state_to_string Completed = ''completed''"
| "state_to_string Failed = ''failed''"

lemma terminal_no_successor: "state_is_terminal s \<Longrightarrow> \<not> can_transition_to s t"
  by (cases s; cases t) (simp_all add: state_is_terminal_def)

lemma state_to_string_inj: "state_to_string s = state_to_string t \<longleftrightarrow> s = t"
  by (cases s; cases t) simp_all

subsection \<open>Usage and cost\<close>

record gpu_spec =
  gs_model :: string
  gs_memory_mb :: nat
  gs_count :: nat

record resource_spec =
  rs_gpu_specs :: "gpu_spec list"
  rs_cpu_cores :: nat
  rs_memory_gb :: nat
  rs_storage_gb :: nat
  rs_disk_iops :: nat
  rs_network_bandwidth_mbps :: nat

record usage_metrics =
  gpu_hours :: rat
  cpu_hours :: rat
  memory_gb_hours :: rat
  storage_gb_hours :: rat
  network_gb :: rat
  disk_io_gb :: rat

definition usage_zero :: usage_metrics where
  "usage_zero = \<lparr>gpu_hours = 0, cpu_hours = 0, memory_gb_hours = 0, storage_gb_hours = 0,
     network_gb = 0, disk_io_gb = 0\<rparr>"

definition usage_add :: "'z decimal_ops_scheme \<Rightarrow> usage_metrics \<Rightarrow> usage_metrics \<Rightarrow> usage_metrics" where
  "usage_add D u v =
     \<lparr>gpu_hours = dec_add D (gpu_hours u) (gpu_hours v),
      cpu_hours = dec_add D (cpu_hours u) (cpu_hours v),
      memory_gb_hours = dec_add D (memory_gb_hours u) (memory_gb_hours v),
      storage_gb_hours = dec_add D (storage_gb_hours u) (storage_gb_hours v),
      network_gb = dec_add D (network_gb u) (network_gb v),
      disk_io_gb = dec_add D (disk_io_gb u) (disk_io_gb v)\<rparr>"

record cost_breakdown =
  base_cost :: credit_balance
  usage_cost :: credit_balance
  discounts :: credit_balance
  overage_charges :: credit_balance
  total_cost :: credit_balance

definition calculate_total :: "'z decimal_ops_scheme \<Rightarrow> cost_breakdown \<Rightarrow> credit_balance" where
  "calculate_total D c =
     (let subtotal = cb_add D (cb_add D (base_cost c) (usage_cost c)) (overage_charges c) in
      unwrap_or (cb_subtract D subtotal (discounts c)) cb_zero)"

end
