(* ===== verification/Credit_Account.thy ===== *)
theory Credit_Account
  imports Billing_Types
begin

section \<open>Billing: reservations and credit accounts\<close>

text \<open>
  \<open>crates/basilica-billing/src/domain/credits.rs\<close>, the structs \<open>Reservation\<close> and
  \<open>CreditAccount\<close> with their methods. A method that takes \<open>&mut self\<close> returns the changed
  account; one that can fail returns its result together with the account it leaves behind,
  because an account changed before the error stays changed. Below the methods: exact balances
  after each of them (\<open>acct_runs\<close>) and the bounds \<open>acct_ok\<close> they keep.
\<close>

type_synonym str_map = "(string \<times> string) list"

record reservation =
  res_id :: reservation_id
  res_user_id :: user_id
  res_rental_id :: "rental_id option"
  res_amount :: credit_balance
  res_created_at :: time
  res_expires_at :: time
  res_released :: bool
  res_metadata :: str_map

definition reservation_new ::
  "user_id \<Rightarrow> credit_balance \<Rightarrow> time \<Rightarrow> rental_id option \<Rightarrow> ('z env_scheme, 'e, reservation) prog" where
  "reservation_new user_id amount duration rental_id =
     andthen utc_now (\<lambda>now.
     andthen uuid_new_v4 (\<lambda>i.
       ok \<lparr>res_id = i, res_user_id = user_id, res_rental_id = rental_id, res_amount = amount,
           res_created_at = now, res_expires_at = now + duration, res_released = False,
           res_metadata = []\<rparr>))"

lemma andthen_reservation_new [simp]:
  "andthen (reservation_new u a d rid) f s =
     f \<lparr>res_id = uuid_src s (Suc (tick s)), res_user_id = u, res_rental_id = rid, res_amount = a,
        res_created_at = clock s (tick s), res_expires_at = clock s (tick s) + d, res_released = False,
        res_metadata = []\<rparr> (s\<lparr>tick := Suc (Suc (tick s))\<rparr>)"
  by (simp add: reservation_new_def andthen_def)

definition reservation_is_expired :: "reservation \<Rightarrow> ('z env_scheme, 'e, bool) prog" where
  "reservation_is_expired r = andthen utc_now (\<lambda>now. ok (res_expires_at r < now))"

definition reservation_is_active :: "reservation \<Rightarrow> ('z env_scheme, 'e, bool) prog" where
  "reservation_is_active r =
     (if res_released r then ok False
      else andthen (reservation_is_expired r) (\<lambda>expired. ok (\<not> expired)))"

record credit_account =
  acct_user_id :: user_id
  acct_balance :: credit_balance
  acct_reserved :: credit_balance
  acct_lifetime_spent :: credit_balance
  acct_last_updated :: time

definition account_new :: "user_id \<Rightarrow> ('z env_scheme, 'e, credit_account) prog" where
  "account_new user_id =
     andthen utc_now (\<lambda>now.
       ok \<lparr>acct_user_id = user_id, acct_balance = cb_zero, acct_reserved = cb_zero,
           acct_lifetime_spent = cb_zero, acct_last_updated = now\<rparr>)"

definition available_balance :: "'d decimal_ops_scheme \<Rightarrow> credit_account \<Rightarrow> credit_balance" where
  "available_balance D a = unwrap_or (cb_subtract D (acct_balance a) (acct_reserved a)) cb_zero"

definition can_reserve :: "'d decimal_ops_scheme \<Rightarrow> credit_account \<Rightarrow> credit_balance \<Rightarrow> bool" where
  "can_reserve D a amount \<longleftrightarrow> cb_is_sufficient (available_balance D a) amount"

definition acct_apply_credits ::
  "'d decimal_ops_scheme \<Rightarrow> credit_balance \<Rightarrow> credit_account \<Rightarrow> ('z env_scheme, 'e, credit_account) prog" where
  "acct_apply_credits D amount a =
     andthen utc_now (\<lambda>now.
       ok (a\<lparr>acct_balance := cb_add D (acct_balance a) amount, acct_last_updated := now\<rparr>))"

definition acct_reserve_credits ::
  "'d decimal_ops_scheme \<Rightarrow> credit_balance \<Rightarrow> credit_account \<Rightarrow>
     ('z env_scheme, 'e, (billing_error + unit) \<times> credit_account) prog" where
  "acct_reserve_credits D amount a =
     (if \<not> can_reserve D a amount
      then ok (Inl (InsufficientBalance (available_balance D a) amount), a)
      else andthen utc_now (\<lambda>now.
        ok (Inr (), a\<lparr>acct_reserved := cb_add D (acct_reserved a) amount, acct_last_updated := now\<rparr>)))"

definition acct_release_reservation ::
  "'d decimal_ops_scheme \<Rightarrow> credit_balance \<Rightarrow> credit_account \<Rightarrow> ('z env_scheme, 'e, credit_account) prog" where
  "acct_release_reservation D amount a =
     (let new_reserved = unwrap_or (cb_subtract D (acct_reserved a) amount) cb_zero in
      andthen utc_now (\<lambda>now. ok (a\<lparr>acct_reserved := new_reserved, acct_last_updated := now\<rparr>)))"

definition acct_charge ::
  "'d decimal_ops_scheme \<Rightarrow> credit_balance \<Rightarrow> credit_account \<Rightarrow>
     ('z env_scheme, 'e, (billing_error + unit) \<times> credit_account) prog" where
  "acct_charge D amount a =
     (case cb_subtract D (acct_balance a) amount of
        None \<Rightarrow> ok (Inl (InsufficientBalance (acct_balance a) amount), a)
      | Some new_balance \<Rightarrow> andthen utc_now (\<lambda>now.
          ok (Inr (), a\<lparr>acct_balance := new_balance,
                        acct_lifetime_spent := cb_add D (acct_lifetime_spent a) amount,
                        acct_last_updated := now\<rparr>)))"

definition acct_charge_from_reservation ::
  "'d decimal_ops_scheme \<Rightarrow> credit_balance \<Rightarrow> credit_balance \<Rightarrow> credit_account \<Rightarrow>
     ('z env_scheme, 'e, (billing_error + unit) \<times> credit_account) prog" where
  "acct_charge_from_reservation D reserved actual a =
     andthen (acct_release_reservation D reserved a) (acct_charge D actual)"

subsection \<open>Well-formed accounts\<close>

text \<open>
  What an account promises: its three amounts have six places, are not negative, and are
  below \<open>10 ^ 12\<close>, the range of the columns they are stored in. The reserved amount may exceed
  the balance: \<open>charge\<close> looks at the balance alone.
\<close>

definition amount_ok :: "credit_balance \<Rightarrow> bool" where
  "amount_ok x \<longleftrightarrow> dec6 x \<and> 0 \<le> x \<and> x < 10 ^ 12"

definition acct_ok :: "credit_account \<Rightarrow> bool" where
  "acct_ok a \<longleftrightarrow> amount_ok (acct_balance a) \<and> amount_ok (acct_reserved a) \<and> amount_ok (acct_lifetime_spent a)"

lemma amount_ok_credit_ok: "amount_ok x \<Longrightarrow> credit_ok x"
  by (auto simp: amount_ok_def credit_ok_def)

lemma amount_ok_0 [simp, intro]: "amount_ok 0"
  by (simp add: amount_ok_def)

lemma amount_ok_add: "amount_ok x \<Longrightarrow> amount_ok y \<Longrightarrow> x + y < 10 ^ 12 \<Longrightarrow> amount_ok (x + y)"
  by (auto simp: amount_ok_def dec6_add)

lemma amount_ok_diff: "amount_ok x \<Longrightarrow> amount_ok y \<Longrightarrow> y \<le> x \<Longrightarrow> amount_ok (x - y)"
  by (auto simp: amount_ok_def dec6_diff)

lemma amount_okD: "amount_ok x \<Longrightarrow> 0 \<le> x"
  by (simp add: amount_ok_def)

lemma acct_okD:
  assumes "acct_ok a"
  shows "amount_ok (acct_balance a)" "amount_ok (acct_reserved a)" "amount_ok (acct_lifetime_spent a)"
    "credit_ok (acct_balance a)" "credit_ok (acct_reserved a)" "credit_ok (acct_lifetime_spent a)"
  using assms by (simp_all add: acct_ok_def amount_ok_credit_ok)

context rust_decimal
begin

lemma available_balance_eq:
  "acct_ok a \<Longrightarrow> available_balance D a = max 0 (acct_balance a - acct_reserved a)"
  by (auto simp: available_balance_def cb_subtract_exact acct_okD cb_zero_def max_def)

lemma can_reserve_eq:
  "acct_ok a \<Longrightarrow> can_reserve D a amount \<longleftrightarrow> amount \<le> max 0 (acct_balance a - acct_reserved a)"
  by (simp add: can_reserve_def cb_is_sufficient_def available_balance_eq)

lemma acct_apply_credits_run:
  "acct_ok a \<Longrightarrow> amount_ok amount \<Longrightarrow>
     acct_apply_credits D amount a s =
       (Inr (a\<lparr>acct_balance := acct_balance a + amount, acct_last_updated := clock s (tick s)\<rparr>),
        s\<lparr>tick := Suc (tick s)\<rparr>)"
  by (simp add: acct_apply_credits_def cb_add_exact acct_okD amount_ok_credit_ok)

lemma acct_reserve_credits_run:
  "acct_ok a \<Longrightarrow> amount_ok amount \<Longrightarrow>
     acct_reserve_credits D amount a s =
       (if amount \<le> max 0 (acct_balance a - acct_reserved a)
        then (Inr (Inr (), a\<lparr>acct_reserved := acct_reserved a + amount, acct_last_updated := clock s (tick s)\<rparr>),
              s\<lparr>tick := Suc (tick s)\<rparr>)
        else (Inr (Inl (InsufficientBalance (max 0 (acct_balance a - acct_reserved a)) amount), a), s))"
  by (simp add: acct_reserve_credits_def can_reserve_eq available_balance_eq cb_add_exact acct_okD
        amount_ok_credit_ok)

lemma acct_release_reservation_run:
  "acct_ok a \<Longrightarrow> amount_ok amount \<Longrightarrow>
     acct_release_reservation D amount a s =
       (Inr (a\<lparr>acct_reserved := max 0 (acct_reserved a - amount), acct_last_updated := clock s (tick s)\<rparr>),
        s\<lparr>tick := Suc (tick s)\<rparr>)"
  by (auto simp: acct_release_reservation_def cb_subtract_exact acct_okD amount_ok_credit_ok cb_zero_def
        max_def)

lemma acct_charge_run:
  "acct_ok a \<Longrightarrow> amount_ok amount \<Longrightarrow>
     acct_charge D amount a s =
       (if amount \<le> acct_balance a
        then (Inr (Inr (), a\<lparr>acct_balance := acct_balance a - amount,
                acct_lifetime_spent := acct_lifetime_spent a + amount, acct_last_updated := clock s (tick s)\<rparr>),
              s\<lparr>tick := Suc (tick s)\<rparr>)
        else (Inr (Inl (InsufficientBalance (acct_balance a) amount), a), s))"
  by (simp add: acct_charge_def cb_subtract_exact cb_add_exact acct_okD amount_ok_credit_ok)

lemmas acct_runs = acct_apply_credits_run acct_reserve_credits_run acct_release_reservation_run
  acct_charge_run

end

lemma acct_ok_release:
  "acct_ok a \<Longrightarrow> amount_ok amount \<Longrightarrow>
     acct_ok (a\<lparr>acct_reserved := max 0 (acct_reserved a - amount), acct_last_updated := t\<rparr>)"
  by (auto simp: acct_ok_def max_def amount_ok_diff)

context rust_decimal
begin

lemma acct_charge_from_reservation_run:
  assumes "acct_ok a" and "amount_ok reserved" and "amount_ok actual"
  shows "acct_charge_from_reservation D reserved actual a s =
    (if actual \<le> acct_balance a
     then (Inr (Inr (), a\<lparr>acct_balance := acct_balance a - actual,
             acct_reserved := max 0 (acct_reserved a - reserved),
             acct_lifetime_spent := acct_lifetime_spent a + actual,
             acct_last_updated := clock s (Suc (tick s))\<rparr>), s\<lparr>tick := Suc (Suc (tick s))\<rparr>)
     else (Inr (Inl (InsufficientBalance (acct_balance a) actual),
             a\<lparr>acct_reserved := max 0 (acct_reserved a - reserved), acct_last_updated := clock s (tick s)\<rparr>),
           s\<lparr>tick := Suc (tick s)\<rparr>))"
  using assms acct_ok_release [OF assms(1,2), of "clock s (tick s)"]
  by (simp add: acct_charge_from_reservation_def andthen_def acct_release_reservation_run acct_charge_run)

end

end
