(* ===== verification/Billing_Platform.thy ===== *)
theory Billing_Platform
  imports Credit_Account
begin

section \<open>Billing: the platform under the service\<close>

text \<open>
  What the billing service calls and does not define: \<open>NUMERIC(p, s)\<close> columns of PostgreSQL,
  the texts of \<open>uuid::Uuid\<close> and \<open>rust_decimal::Decimal\<close>, and the JSON form \<open>serde\<close> derives for
  \<open>ResourceSpec\<close> and for string maps. They are the fields of \<open>billing_ops\<close>, an argument of the
  definitions that use them; the locale \<open>billing_platform\<close> holds what is documented of them.
  JSON values themselves are the usual data type; numbers are integers or finite doubles.
  \<open>bankers_pg\<close> is a concrete instance, which the witnesses compute with.
\<close>

datatype json =
    JNull
  | JBool bool
  | JInt int
  | JFloat rat
  | JStr string
  | JArr "json list"
  | JObj "(string \<times> json) list"

fun json_get :: "json \<Rightarrow> string \<Rightarrow> json option" where
  "json_get (JObj kvs) k = map_of kvs k"
| "json_get _ k = None"

fun json_as_str :: "json \<Rightarrow> string option" where
  "json_as_str (JStr s) = Some s"
| "json_as_str _ = None"

fun json_as_nat :: "json \<Rightarrow> nat option" where
  "json_as_nat (JInt i) = (if 0 \<le> i then Some (nat i) else None)"
| "json_as_nat _ = None"

fun json_as_array :: "json \<Rightarrow> json list option" where
  "json_as_array (JArr js) = Some js"
| "json_as_array _ = None"

record billing_ops = decimal_ops +
  pg_numeric :: "nat \<Rightarrow> nat \<Rightarrow> rat \<Rightarrow> rat option"
  parse_uuid :: "string \<Rightarrow> uuid option"
  show_uuid :: "uuid \<Rightarrow> string"
  parse_dec :: "string \<Rightarrow> rat option"
  show_dec :: "rat \<Rightarrow> string"
  resource_to_json :: "resource_spec \<Rightarrow> json"
  resource_of_json :: "json \<Rightarrow> resource_spec option"
  metadata_to_json :: "str_map \<Rightarrow> json"
  metadata_of_json :: "json \<Rightarrow> str_map option"

text \<open>The numbers a column \<open>NUMERIC(p, s)\<close> holds.\<close>

definition has_places :: "nat \<Rightarrow> rat \<Rightarrow> bool" where
  "has_places s x \<longleftrightarrow> of_int \<lfloor>x * 10 ^ s\<rfloor> = x * 10 ^ s"

definition numeric_fits :: "nat \<Rightarrow> nat \<Rightarrow> rat \<Rightarrow> bool" where
  "numeric_fits p s x \<longleftrightarrow> has_places s x \<and> \<bar>x\<bar> < 10 ^ (p - s)"

locale billing_platform = rust_decimal D
  for D :: "'z billing_ops_scheme" +
  assumes numeric_exact:
      "has_places s x \<Longrightarrow> pg_numeric D p s x = (if \<bar>x\<bar> < 10 ^ (p - s) then Some x else None)"
    and numeric_range: "pg_numeric D p s x = Some y \<Longrightarrow> numeric_fits p s y"
    and numeric_nonneg: "pg_numeric D p s x = Some y \<Longrightarrow> 0 \<le> x \<Longrightarrow> 0 \<le> y"
    and parse_show_uuid: "parse_uuid D (show_uuid D u) = Some u"
    and parse_show_dec: "parse_dec D (show_dec D x) = Some x"
    and resource_json: "resource_of_json D (resource_to_json D r) = Some r"
    and metadata_json: "metadata_of_json D (metadata_to_json D m) = Some m"

lemma int_multiple: "of_int \<lfloor>x\<rfloor> = x \<Longrightarrow> of_int \<lfloor>x * of_int k\<rfloor> = x * (of_int k :: rat)"
  by (metis floor_of_int of_int_mult)

lemma dec6_has_places_8:
  assumes "dec6 x"
  shows "has_places 8 x"
proof -
  have "of_int \<lfloor>x * 1000000 * of_int 100\<rfloor> = x * 1000000 * of_int 100"
    using assms by (intro int_multiple) (simp add: dec6_def)
  then show ?thesis by (simp add: has_places_def mult.commute)
qed

context billing_platform
begin

lemma numeric_amount: "amount_ok x \<Longrightarrow> pg_numeric D 20 8 x = Some x"
  by (simp add: numeric_exact dec6_has_places_8 amount_ok_def)

lemma numeric_money:
  "dec6 x \<Longrightarrow> 0 \<le> x \<Longrightarrow> pg_numeric D 20 8 x = (if amount_ok x then Some x else None)"
  by (auto simp: numeric_exact dec6_has_places_8 amount_ok_def)

lemma show_uuid_inj [simp]: "show_uuid D u = show_uuid D v \<longleftrightarrow> u = v"
  by (metis option.inject parse_show_uuid)

end

subsection \<open>A concrete instance\<close>

definition half_away :: "rat \<Rightarrow> int" where
  "half_away x = (if 0 \<le> x then \<lfloor>x + 1 / 2\<rfloor> else - \<lfloor>1 / 2 - x\<rfloor>)"

definition numeric_round :: "nat \<Rightarrow> nat \<Rightarrow> rat \<Rightarrow> rat option" where
  "numeric_round p s x =
     (let y = of_int (half_away (x * 10 ^ s)) / 10 ^ s in
      if \<bar>y\<bar> < 10 ^ (p - s) then Some y else None)"

fun dec_digits :: "nat \<Rightarrow> string" where
  "dec_digits n = (if n < 10 then [char_of (48 + n)] else dec_digits (n div 10) @ [char_of (48 + n mod 10)])"

declare dec_digits.simps [simp del]

definition digit_value :: "char \<Rightarrow> nat" where
  "digit_value c = of_char c - 48"

definition digits_value :: "string \<Rightarrow> nat" where
  "digits_value s = foldl (\<lambda>n c. n * 10 + digit_value c) 0 s"

definition is_digits :: "string \<Rightarrow> bool" where
  "is_digits s \<longleftrightarrow> s \<noteq> [] \<and> list_all (\<lambda>c. 48 \<le> (of_char c :: nat) \<and> (of_char c :: nat) \<le> 57) s"

lemma digits_value_snoc: "digits_value (s @ [c]) = digits_value s * 10 + digit_value c"
  by (simp add: digits_value_def)

lemma digit_char: "n < 10 \<Longrightarrow> (of_char (char_of (48 + n :: nat) :: char) :: nat) = 48 + n"
  by simp

lemma digits_value_digits: "digits_value (dec_digits n) = n \<and> is_digits (dec_digits n)"
proof (induction n rule: dec_digits.induct)
  case (1 n)
  show ?case
  proof (cases "n < 10")
    case True
    then show ?thesis
      by (simp add: dec_digits.simps [of n] digits_value_def digit_value_def is_digits_def digit_char)
  next
    case False
    with 1 show ?thesis
      by (simp add: dec_digits.simps [of n] digits_value_snoc digit_value_def is_digits_def digit_char)
  qed
qed

definition show_id :: "uuid \<Rightarrow> string" where
  "show_id u = ''uuid-'' @ dec_digits u"

definition parse_id :: "string \<Rightarrow> uuid option" where
  "parse_id s = (if take 5 s = ''uuid-'' \<and> is_digits (drop 5 s) then Some (digits_value (drop 5 s)) else None)"

lemma parse_show_id: "parse_id (show_id u) = Some u"
  using digits_value_digits [of u] by (simp add: parse_id_def show_id_def)

definition show_rat :: "rat \<Rightarrow> string" where
  "show_rat x = (let (p, q) = quotient_of x in
     (if p < 0 then ''-'' else ''+'') @ dec_digits (nat \<bar>p\<bar>) @ ''/'' @ dec_digits (nat q))"

definition parse_rat :: "string \<Rightarrow> rat option" where
  "parse_rat s =
     (let ds = takeWhile (\<lambda>c. c \<noteq> CHR ''/'') (tl s); es = tl (dropWhile (\<lambda>c. c \<noteq> CHR ''/'') (tl s)) in
      if s \<noteq> [] \<and> is_digits ds \<and> is_digits es
      then Some (of_int ((if hd s = CHR ''-'' then -1 else 1) * int (digits_value ds)) / of_nat (digits_value es))
      else None)"

lemma is_digits_no_slash: "is_digits s \<Longrightarrow> c \<in> set s \<Longrightarrow> c \<noteq> CHR ''/''"
  by (auto simp: is_digits_def list_all_iff)

lemma split_at_slash:
  assumes "is_digits ds"
  shows "takeWhile (\<lambda>c. c \<noteq> CHR ''/'') (ds @ CHR ''/'' # es) = ds"
    and "dropWhile (\<lambda>c. c \<noteq> CHR ''/'') (ds @ CHR ''/'' # es) = CHR ''/'' # es"
  using is_digits_no_slash [OF assms] by (simp_all add: takeWhile_tail dropWhile_append3)

lemma parse_show_rat: "parse_rat (show_rat x) = Some x"
proof -
  obtain p q where pq: "quotient_of x = (p, q)" by (cases "quotient_of x")
  then have "x = of_int p / of_int q" and "0 < q"
    by (simp_all add: quotient_of_div quotient_of_denom_pos)
  with pq digits_value_digits [of "nat \<bar>p\<bar>"] digits_value_digits [of "nat q"] show ?thesis
    by (auto simp: parse_rat_def show_rat_def Let_def split_at_slash)
qed

definition gpu_to_json :: "gpu_spec \<Rightarrow> json" where
  "gpu_to_json g = JObj [(''model'', JStr (gs_model g)), (''memory_mb'', JInt (int (gs_memory_mb g))),
     (''count'', JInt (int (gs_count g)))]"

definition gpu_of_json :: "json \<Rightarrow> gpu_spec option" where
  "gpu_of_json j =
     Option.bind (Option.bind (json_get j ''model'') json_as_str) (\<lambda>m.
     Option.bind (Option.bind (json_get j ''memory_mb'') json_as_nat) (\<lambda>b.
     Option.bind (Option.bind (json_get j ''count'') json_as_nat) (\<lambda>c.
       Some \<lparr>gs_model = m, gs_memory_mb = b, gs_count = c\<rparr>)))"

definition spec_to_json :: "resource_spec \<Rightarrow> json" where
  "spec_to_json r = JObj [(''gpu_specs'', JArr (map gpu_to_json (rs_gpu_specs r))),
     (''cpu_cores'', JInt (int (rs_cpu_cores r))), (''memory_gb'', JInt (int (rs_memory_gb r))),
     (''storage_gb'', JInt (int (rs_storage_gb r))), (''disk_iops'', JInt (int (rs_disk_iops r))),
     (''network_bandwidth_mbps'', JInt (int (rs_network_bandwidth_mbps r)))]"

definition spec_of_json :: "json \<Rightarrow> resource_spec option" where
  "spec_of_json j =
     Option.bind (Option.bind (json_get j ''gpu_specs'') json_as_array) (\<lambda>gs.
     Option.bind (those (map gpu_of_json gs)) (\<lambda>gpus.
     Option.bind (Option.bind (json_get j ''cpu_cores'') json_as_nat) (\<lambda>c.
     Option.bind (Option.bind (json_get j ''memory_gb'') json_as_nat) (\<lambda>m.
     Option.bind (Option.bind (json_get j ''storage_gb'') json_as_nat) (\<lambda>st.
     Option.bind (Option.bind (json_get j ''disk_iops'') json_as_nat) (\<lambda>d.
     Option.bind (Option.bind (json_get j ''network_bandwidth_mbps'') json_as_nat) (\<lambda>n.
       Some \<lparr>rs_gpu_specs = gpus, rs_cpu_cores = c, rs_memory_gb = m, rs_storage_gb = st,
             rs_disk_iops = d, rs_network_bandwidth_mbps = n\<rparr>)))))))"

definition strings_to_json :: "str_map \<Rightarrow> json" where
  "strings_to_json m = JObj (map (\<lambda>(k, v). (k, JStr v)) m)"

fun strings_of_json :: "json \<Rightarrow> str_map option" where
  "strings_of_json (JObj kvs) = those (map (\<lambda>(k, v). map_option (Pair k) (json_as_str v)) kvs)"
| "strings_of_json _ = None"

definition bankers_pg :: billing_ops where
  "bankers_pg = decimal_ops.extend bankers
     \<lparr>pg_numeric = numeric_round, parse_uuid = parse_id, show_uuid = show_id, parse_dec = parse_rat,
      show_dec = show_rat, resource_to_json = spec_to_json, resource_of_json = spec_of_json,
      metadata_to_json = strings_to_json, metadata_of_json = strings_of_json\<rparr>"

lemma those_map_Some: "(\<And>x. x \<in> set xs \<Longrightarrow> f x = Some (g x)) \<Longrightarrow> those (map f xs) = Some (map g xs)"
  by (induction xs) auto

lemma gpu_json: "gpu_of_json (gpu_to_json g) = Some g"
  by (simp add: gpu_to_json_def gpu_of_json_def)

lemma spec_json: "spec_of_json (spec_to_json r) = Some r"
  by (simp add: spec_to_json_def spec_of_json_def o_def gpu_json those_map_Some [where g = id])

lemma strings_json: "strings_of_json (strings_to_json m) = Some m"
  by (simp add: strings_to_json_def o_def split_def those_map_Some [where g = id])

lemma half_away_of_int [simp]: "half_away (of_int k) = k"
  unfolding half_away_def by (split if_split) linarith

lemma numeric_round_exact:
  assumes "has_places s x"
  shows "numeric_round p s x = (if \<bar>x\<bar> < 10 ^ (p - s) then Some x else None)"
proof -
  have "half_away (x * 10 ^ s) = \<lfloor>x * 10 ^ s\<rfloor>"
    using assms half_away_of_int [of "\<lfloor>x * 10 ^ s\<rfloor>"] unfolding has_places_def by metis
  then have "of_int (half_away (x * 10 ^ s)) = x * 10 ^ s"
    using assms unfolding has_places_def by metis
  then show ?thesis
    unfolding numeric_round_def Let_def by simp
qed

lemma bankers_pg_simps [simp]:
  "dec_add bankers_pg = dec_add bankers" "dec_sub bankers_pg = dec_sub bankers"
  "dec_mul bankers_pg = dec_mul bankers" "dec_div bankers_pg = dec_div bankers"
  "dec_round bankers_pg = dec_round bankers" "pg_numeric bankers_pg = numeric_round"
  "parse_uuid bankers_pg = parse_id" "show_uuid bankers_pg = show_id"
  "parse_dec bankers_pg = parse_rat" "show_dec bankers_pg = show_rat"
  "resource_to_json bankers_pg = spec_to_json" "resource_of_json bankers_pg = spec_of_json"
  "metadata_to_json bankers_pg = strings_to_json" "metadata_of_json bankers_pg = strings_of_json"
  by (simp_all add: bankers_pg_def bankers_def decimal_ops.defs)

interpretation bankers_pg: billing_platform bankers_pg
proof (unfold_locales, goal_cases)
  case (11 p s x)
  then show ?case by (simp add: numeric_round_exact)
next
  case (12 p s x y)
  then show ?case by (auto simp: numeric_round_def numeric_fits_def has_places_def Let_def split: if_splits)
next
  case (13 p s x y)
  then show ?case by (auto simp: numeric_round_def half_away_def Let_def split: if_splits)
next
  case (14 u)
  then show ?case by (simp add: parse_show_id)
next
  case (15 x)
  then show ?case by (simp add: parse_show_rat)
next
  case (16 r)
  then show ?case by (simp add: spec_json)
next
  case (17 m)
  then show ?case by (simp add: strings_json)
qed (simp_all add: bankers.dec_add_exact bankers.dec_sub_exact bankers.dec_mul_mono bankers.dec_mul_0
     bankers.dec_mul_1 bankers.dec_round_dec6 bankers.dec_round_id bankers.dec_round_mono
     bankers.dec_mul_near [simplified] bankers.dec_round_near [simplified])

end
