(* ===== verification/Credit_Repository.thy ===== *)
theory Credit_Repository
  imports Billing_Platform
begin

section \<open>Billing: the credit tables and \<open>SqlCreditRepository\<close>\<close>

text \<open>
  \<open>crates/basilica-billing/src/storage/credits.rs\<close> over the tables of
  \<open>crates/basilica-billing/migrations\<close>: \<open>users\<close>, \<open>credits\<close>, \<open>credit_reservations\<close> and
  \<open>billing_events\<close>, with the columns the code reads or writes. A statement that breaks a
  constraint (\<open>CHECK\<close>, \<open>UNIQUE\<close>, a foreign key, the range of a numeric column) fails and changes
  nothing; a statement can also be lost, or carried out with its answer lost (\<open>sql\<close>). The
  trigger on \<open>credits\<close> sets \<open>updated_at\<close>. The invariant \<open>credit_db_ok\<close> collects what the
  constraints and the arithmetic guarantee; every method keeps it under every fault.
\<close>

subsection \<open>Tables\<close>

record user_row =
  usr_id :: uuid
  usr_external :: string

record credit_row =
  cr_user :: uuid
  cr_balance :: rat
  cr_reserved :: rat
  cr_spent :: rat
  cr_updated :: time

record reservation_row =
  rr_id :: uuid
  rr_user :: uuid
  rr_rental :: "uuid option"
  rr_amount :: rat
  rr_status :: string
  rr_reserved_at :: time
  rr_expires_at :: time
  rr_released_at :: "time option"

record billing_event_row =
  be_id :: uuid
  be_type :: string
  be_entity_type :: string
  be_entity_id :: string
  be_user :: "uuid option"
  be_data :: json
  be_metadata :: "json option"
  be_created_by :: string
  be_created_at :: time

record credit_db = env +
  users :: "user_row list"
  credits :: "credit_row list"
  credit_reservations :: "reservation_row list"
  billing_events :: "billing_event_row list"

type_synonym ('z, 'a) credit_prog = "('z credit_db_scheme, billing_error, 'a) prog"

definition db_now :: "('z env_scheme, 'e, time) prog" where
  "db_now = gets (\<lambda>s. clock s (tick s))"

definition user_exists :: "uuid \<Rightarrow> 'z credit_db_scheme \<Rightarrow> bool" where
  "user_exists u s \<longleftrightarrow> row_of usr_id u (users s) \<noteq> None"

text \<open>A credits row as the columns and the \<open>CHECK\<close> constraints admit it.\<close>

definition admit_credit_row :: "'d billing_ops_scheme \<Rightarrow> credit_row \<Rightarrow> credit_row option" where
  "admit_credit_row D r =
     (case (pg_numeric D 20 8 (cr_balance r), pg_numeric D 20 8 (cr_reserved r), pg_numeric D 20 8 (cr_spent r)) of
        (Some b, Some v, Some l) \<Rightarrow>
          if 0 \<le> b \<and> 0 \<le> v then Some (r\<lparr>cr_balance := b, cr_reserved := v, cr_spent := l\<rparr>) else None
      | _ \<Rightarrow> None)"

definition insert_credit_row ::
  "'d billing_ops_scheme \<Rightarrow> billing_error \<Rightarrow> credit_row \<Rightarrow> ('z, unit) credit_prog" where
  "insert_credit_row D e r =
     (case admit_credit_row D r of
        None \<Rightarrow> fail e
      | Some r' \<Rightarrow>
          andthen (gets id) (\<lambda>s.
            if row_of cr_user (cr_user r) (credits s) \<noteq> None then ok ()
            else if \<not> user_exists (cr_user r) s then fail e
            else modify (credits_update (\<lambda>rs. rs @ [r']))))"

definition update_credit_row ::
  "'d billing_ops_scheme \<Rightarrow> billing_error \<Rightarrow> uuid \<Rightarrow> (credit_row \<Rightarrow> bool) \<Rightarrow> (credit_row \<Rightarrow> credit_row) \<Rightarrow>
     ('z, nat) credit_prog" where
  "update_credit_row D e u p f =
     andthen db_now (\<lambda>now.
     andthen (gets credits) (\<lambda>rs.
       case row_of cr_user u rs of
         None \<Rightarrow> ok 0
       | Some r \<Rightarrow>
           if \<not> p r then ok 0
           else case admit_credit_row D (f r) of
                  None \<Rightarrow> fail e
                | Some r' \<Rightarrow>
                    andthen (modify (credits_update (update_where (\<lambda>x. cr_user x = u) (\<lambda>_. r'\<lparr>cr_user := u, cr_updated := now\<rparr>))))
                      (\<lambda>_. ok 1)))"

definition insert_reservation_row ::
  "'d billing_ops_scheme \<Rightarrow> billing_error \<Rightarrow> reservation_row \<Rightarrow> ('z, unit) credit_prog" where
  "insert_reservation_row D e r =
     andthen (gets id) (\<lambda>s.
       case pg_numeric D 20 8 (rr_amount r) of
         None \<Rightarrow> fail e
       | Some a \<Rightarrow>
           if row_of rr_id (rr_id r) (credit_reservations s) \<noteq> None then fail e
           else if \<not> user_exists (rr_user r) s then fail e
           else modify (credit_reservations_update (\<lambda>rs. rs @ [r\<lparr>rr_amount := a\<rparr>])))"

definition insert_billing_event ::
  "billing_error \<Rightarrow> billing_event_row \<Rightarrow> ('z, unit) credit_prog" where
  "insert_billing_event e r =
     andthen (gets id) (\<lambda>s.
       if row_of be_id (be_id r) (billing_events s) \<noteq> None then fail e
       else if 100 < length (be_type r) \<or> 50 < length (be_entity_type r) \<or> 255 < length (be_entity_id r)
               \<or> 255 < length (be_created_by r) then fail e
       else if (case be_user r of None \<Rightarrow> False | Some u \<Rightarrow> \<not> user_exists u s) then fail e
       else modify (billing_events_update (\<lambda>rs. rs @ [r])))"

subsection \<open>\<open>SqlCreditRepository\<close>\<close>

definition resolve_user_uuid :: "'d billing_ops_scheme \<Rightarrow> user_id \<Rightarrow> ('z, uuid option) credit_prog" where
  "resolve_user_uuid D user_id =
     (case parse_uuid D user_id of
        Some u \<Rightarrow> ok (Some u)
      | None \<Rightarrow> sql (DatabaseError ''resolve_user_uuid'')
          (gets (\<lambda>s. map_option usr_id (row_of usr_external user_id (users s)))))"

definition require_user_uuid :: "'d billing_ops_scheme \<Rightarrow> user_id \<Rightarrow> ('z, uuid) credit_prog" where
  "require_user_uuid D user_id =
     andthen (resolve_user_uuid D user_id) (ok_or (UserNotFound user_id))"

definition upsert_user :: "billing_error \<Rightarrow> string \<Rightarrow> ('z, uuid) credit_prog" where
  "upsert_user e external_id =
     andthen uuid_new_v4 (\<lambda>u.
     andthen (gets users) (\<lambda>us.
       if 255 < length external_id then fail e
       else case row_of usr_external external_id us of
              Some r \<Rightarrow> ok (usr_id r)
            | None \<Rightarrow>
                if row_of usr_id u us \<noteq> None then fail e
                else andthen (modify (users_update (\<lambda>us. us @ [\<lparr>usr_id = u, usr_external = external_id\<rparr>])))
                       (\<lambda>_. ok u)))"

definition ensure_user_uuid :: "'d billing_ops_scheme \<Rightarrow> user_id \<Rightarrow> ('z, uuid) credit_prog" where
  "ensure_user_uuid D user_id =
     (case parse_uuid D user_id of
        Some u \<Rightarrow> ok u
      | None \<Rightarrow> sql (DatabaseError ''ensure_user_uuid'') (upsert_user (DatabaseError ''ensure_user_uuid'') user_id))"

definition account_of_row :: "'d billing_ops_scheme \<Rightarrow> credit_row \<Rightarrow> credit_account" where
  "account_of_row D r =
     \<lparr>acct_user_id = show_uuid D (cr_user r), acct_balance = from_decimal D (cr_balance r),
      acct_reserved = from_decimal D (cr_reserved r), acct_lifetime_spent = from_decimal D (cr_spent r),
      acct_last_updated = cr_updated r\<rparr>"

definition sql_get_account ::
  "'d billing_ops_scheme \<Rightarrow> user_id \<Rightarrow> ('z, credit_account option) credit_prog" where
  "sql_get_account D user_id =
     andthen (resolve_user_uuid D user_id) (\<lambda>resolved.
       case resolved of
         None \<Rightarrow> ok None
       | Some u \<Rightarrow> sql (DatabaseError ''get_account'')
           (gets (\<lambda>s. map_option (account_of_row D) (row_of cr_user u (credits s)))))"

definition sql_create_account :: "'d billing_ops_scheme \<Rightarrow> credit_account \<Rightarrow> ('z, unit) credit_prog" where
  "sql_create_account D a =
     andthen (ensure_user_uuid D (acct_user_id a)) (\<lambda>u.
       sql (DatabaseError ''create_account'')
         (insert_credit_row D (DatabaseError ''create_account'')
            \<lparr>cr_user = u, cr_balance = acct_balance a, cr_reserved = acct_reserved a,
             cr_spent = acct_lifetime_spent a, cr_updated = acct_last_updated a\<rparr>))"

definition sql_update_account :: "'d billing_ops_scheme \<Rightarrow> credit_account \<Rightarrow> ('z, unit) credit_prog" where
  "sql_update_account D a =
     andthen (require_user_uuid D (acct_user_id a)) (\<lambda>u.
     andthen (sql (DatabaseError ''update_account'')
         (update_credit_row D (DatabaseError ''update_account'') u (\<lambda>_. True)
            (\<lambda>r. r\<lparr>cr_balance := acct_balance a, cr_reserved := acct_reserved a, cr_spent := acct_lifetime_spent a\<rparr>)))
       (\<lambda>rows_affected. if rows_affected = 0 then fail (UserNotFound (acct_user_id a)) else ok ()))"

definition reservation_status :: "bool \<Rightarrow> string" where
  "reservation_status released = (if released then ''released'' else ''active'')"

definition sql_create_reservation :: "'d billing_ops_scheme \<Rightarrow> reservation \<Rightarrow> ('z, unit) credit_prog" where
  "sql_create_reservation D r =
     andthen (require_user_uuid D (res_user_id r)) (\<lambda>u.
       sql (DatabaseError ''create_reservation'')
         (insert_reservation_row D (DatabaseError ''create_reservation'')
            \<lparr>rr_id = res_id r, rr_user = u, rr_rental = res_rental_id r, rr_amount = res_amount r,
             rr_status = reservation_status (res_released r), rr_reserved_at = res_created_at r,
             rr_expires_at = res_expires_at r, rr_released_at = None\<rparr>))"

definition reservation_of_row ::
  "'d billing_ops_scheme \<Rightarrow> (reservation_row \<Rightarrow> bool) \<Rightarrow> reservation_row \<Rightarrow> reservation" where
  "reservation_of_row D is_released r =
     \<lparr>res_id = rr_id r, res_user_id = show_uuid D (rr_user r), res_rental_id = rr_rental r,
      res_amount = from_decimal D (rr_amount r), res_created_at = rr_reserved_at r,
      res_expires_at = rr_expires_at r, res_released = is_released r, res_metadata = []\<rparr>"

definition sql_get_reservation ::
  "'d billing_ops_scheme \<Rightarrow> reservation_id \<Rightarrow> ('z, reservation option) credit_prog" where
  "sql_get_reservation D i =
     sql (DatabaseError ''get_reservation'')
       (gets (\<lambda>s. map_option
          (reservation_of_row D (\<lambda>r. rr_status r = ''released'' \<or> rr_released_at r \<noteq> None))
          (row_of rr_id i (credit_reservations s))))"

definition sql_update_reservation :: "'d billing_ops_scheme \<Rightarrow> reservation \<Rightarrow> ('z, unit) credit_prog" where
  "sql_update_reservation D r =
     andthen (if res_released r then andthen utc_now (\<lambda>now. ok (Some now)) else ok None) (\<lambda>released_at.
     andthen (sql (DatabaseError ''update_reservation'')
         (andthen (gets credit_reservations) (\<lambda>rs.
          andthen (modify (credit_reservations_update (update_where (\<lambda>x. rr_id x = res_id r)
              (\<lambda>x. x\<lparr>rr_status := reservation_status (res_released r), rr_released_at := released_at\<rparr>))))
            (\<lambda>_. ok (affected (\<lambda>x. rr_id x = res_id r) rs)))))
       (\<lambda>rows_affected. if rows_affected = 0 then fail (ReservationNotFound (res_id r)) else ok ()))"

definition sql_get_active_reservations ::
  "'d billing_ops_scheme \<Rightarrow> user_id \<Rightarrow> ('z, reservation list) credit_prog" where
  "sql_get_active_reservations D user_id =
     andthen (require_user_uuid D user_id) (\<lambda>u.
       sql (DatabaseError ''get_active_reservations'')
         (andthen db_now (\<lambda>now.
          gets (\<lambda>s. map (reservation_of_row D (\<lambda>r. rr_status r = ''released''))
            (sort_key (\<lambda>r. - rr_reserved_at r)
              (rows_where (\<lambda>r. rr_user r = u \<and> rr_status r = ''active'' \<and> now < rr_expires_at r)
                 (credit_reservations s)))))))"

definition sql_get_expired_reservations ::
  "'d billing_ops_scheme \<Rightarrow> int \<Rightarrow> ('z, reservation list) credit_prog" where
  "sql_get_expired_reservations D limit =
     sql (DatabaseError ''get_expired_reservations'')
       (if limit < 0 then fail (DatabaseError ''get_expired_reservations'')
        else andthen db_now (\<lambda>now.
          gets (\<lambda>s. map (reservation_of_row D (\<lambda>r. rr_status r = ''released''))
            (take (nat limit) (sort_key rr_expires_at
              (rows_where (\<lambda>r. rr_status r = ''active'' \<and> rr_expires_at r \<le> now)
                 (credit_reservations s)))))))"

definition sql_update_balance ::
  "'d billing_ops_scheme \<Rightarrow> user_id \<Rightarrow> credit_balance \<Rightarrow> ('z, unit) credit_prog" where
  "sql_update_balance D user_id balance =
     andthen (require_user_uuid D user_id) (\<lambda>u.
     andthen (sql (DatabaseError ''update_balance'')
         (update_credit_row D (DatabaseError ''update_balance'') u (\<lambda>_. True) (\<lambda>r. r\<lparr>cr_balance := balance\<rparr>)))
       (\<lambda>_. ok ()))"

definition sql_release_reservation :: "reservation_id \<Rightarrow> ('z, unit) credit_prog" where
  "sql_release_reservation i =
     sql (DatabaseError ''release_reservation'')
       (andthen db_now (\<lambda>now.
        modify (credit_reservations_update (update_where (\<lambda>x. rr_id x = i)
          (\<lambda>x. x\<lparr>rr_status := ''released'', rr_released_at := Some now\<rparr>)))))"

definition one_hour :: time where
  "one_hour = 3600000000000"

definition sql_reserve_credits ::
  "'d billing_ops_scheme \<Rightarrow> user_id \<Rightarrow> credit_balance \<Rightarrow> rental_id \<Rightarrow> ('z, reservation) credit_prog" where
  "sql_reserve_credits D user_id amount rental_id =
     andthen (andthen (sql_get_account D user_id) (ok_or (AccountNotFound user_id))) (\<lambda>account.
       if available_balance D account < amount
       then fail (InsufficientCredits (available_balance D account) amount)
       else
         andthen (require_user_uuid D user_id) (\<lambda>u.
         andthen (reservation_new user_id amount one_hour (Some rental_id)) (\<lambda>r.
         andthen (transaction (DatabaseError ''begin_reserve_credits'') (DatabaseError ''commit_reserve_credits'')
           (andthen (sql (DatabaseError ''insert_reservation'')
              (insert_reservation_row D (DatabaseError ''insert_reservation'')
                 \<lparr>rr_id = res_id r, rr_user = u, rr_rental = res_rental_id r, rr_amount = res_amount r,
                  rr_status = ''active'', rr_reserved_at = res_created_at r, rr_expires_at = res_expires_at r,
                  rr_released_at = None\<rparr>)) (\<lambda>_.
            andthen (sql (DatabaseError ''update_balance_for_reservation'')
              (update_credit_row D (DatabaseError ''update_balance_for_reservation'') u (\<lambda>_. True)
                 (\<lambda>x. x\<lparr>cr_reserved := cr_reserved x + amount\<rparr>)))
              (\<lambda>_. ok ()))))
           (\<lambda>_. ok r))))"

definition sql_deduct_credits ::
  "'d billing_ops_scheme \<Rightarrow> user_id \<Rightarrow> credit_balance \<Rightarrow> ('z, unit) credit_prog" where
  "sql_deduct_credits D user_id amount =
     andthen (andthen (sql_get_account D user_id) (ok_or (AccountNotFound user_id))) (\<lambda>account.
       if acct_balance account < amount
       then fail (InsufficientCredits (acct_balance account) amount)
       else
         andthen (require_user_uuid D user_id) (\<lambda>u.
         andthen (sql (DatabaseError ''deduct_credits'')
           (update_credit_row D (DatabaseError ''deduct_credits'') u (\<lambda>x. amount \<le> cr_balance x)
              (\<lambda>x. x\<lparr>cr_balance := cr_balance x - amount, cr_spent := cr_spent x + amount\<rparr>))) (\<lambda>_.
         andthen uuid_new_v4 (\<lambda>event_id.
           sql (DatabaseError ''record_credit_deduction'')
             (andthen db_now (\<lambda>now.
              insert_billing_event (DatabaseError ''record_credit_deduction'')
                \<lparr>be_id = event_id, be_type = ''credit_deduction'', be_entity_type = ''user'',
                 be_entity_id = user_id, be_user = Some u,
                 be_data = JObj [(''amount'', JStr (show_dec D amount))], be_metadata = None,
                 be_created_by = ''credit_repository'', be_created_at = now\<rparr>))))))"

subsection \<open>The invariant of the credit tables\<close>

definition money :: "rat \<Rightarrow> bool" where
  "money x \<longleftrightarrow> dec6 x \<and> 0 \<le> x"

definition credit_row_ok :: "credit_row \<Rightarrow> bool" where
  "credit_row_ok r \<longleftrightarrow> amount_ok (cr_balance r) \<and> amount_ok (cr_reserved r) \<and> amount_ok (cr_spent r)"

definition reservation_row_ok :: "reservation_row \<Rightarrow> bool" where
  "reservation_row_ok r \<longleftrightarrow> amount_ok (rr_amount r) \<and> (rr_status r = ''active'' \<longrightarrow> rr_released_at r = None)"

definition credit_db_ok :: "'z credit_db_scheme \<Rightarrow> bool" where
  "credit_db_ok s \<longleftrightarrow>
     unique_key usr_id (users s) \<and> unique_key usr_external (users s) \<and>
     (\<forall>r\<in>set (users s). length (usr_external r) \<le> 255) \<and>
     unique_key cr_user (credits s) \<and> unique_key rr_id (credit_reservations s) \<and>
     (\<forall>r\<in>set (credits s). credit_row_ok r \<and> user_exists (cr_user r) s) \<and>
     (\<forall>r\<in>set (credit_reservations s). reservation_row_ok r \<and> user_exists (rr_user r) s)"

lemma moneyD: "money x \<Longrightarrow> dec6 x" "money x \<Longrightarrow> 0 \<le> x"
  by (simp_all add: money_def)

lemma amount_ok_money: "amount_ok x \<Longrightarrow> money x"
  by (simp add: amount_ok_def money_def)

lemma money_add: "money x \<Longrightarrow> money y \<Longrightarrow> money (x + y)"
  by (simp add: money_def dec6_add)

lemma money_diff: "money x \<Longrightarrow> money y \<Longrightarrow> y \<le> x \<Longrightarrow> money (x - y)"
  by (simp add: money_def dec6_diff)

lemma money_max_diff: "money x \<Longrightarrow> money y \<Longrightarrow> money (max 0 (x - y))"
  by (auto simp: money_def dec6_diff max_def)

lemma user_exists_tick [simp]: "user_exists u (s\<lparr>tick := n\<rparr>) = user_exists u s"
  by (simp add: user_exists_def)

lemma user_exists_credits [simp]: "user_exists u (credits_update g s) = user_exists u s"
  by (simp add: user_exists_def)

lemma user_exists_reservations [simp]: "user_exists u (credit_reservations_update g s) = user_exists u s"
  by (simp add: user_exists_def)

lemma user_exists_events [simp]: "user_exists u (billing_events_update g s) = user_exists u s"
  by (simp add: user_exists_def)

lemma user_exists_snoc: "user_exists u s \<Longrightarrow> user_exists u (users_update (\<lambda>us. us @ [r]) s)"
  by (auto simp: user_exists_def row_of_append)

lemma tickless_credit_db_ok [keeps_rules]: "tickless credit_db_ok"
  by (simp add: tickless_def credit_db_ok_def)

lemma credit_db_ok_row: "credit_db_ok s \<Longrightarrow> row_of cr_user u (credits s) = Some r \<Longrightarrow> credit_row_ok r"
  by (auto simp: credit_db_ok_def dest: row_of_Some)

lemma credit_db_ok_reservation:
  "credit_db_ok s \<Longrightarrow> row_of rr_id i (credit_reservations s) = Some r \<Longrightarrow> amount_ok (rr_amount r)"
  by (auto simp: credit_db_ok_def reservation_row_ok_def dest: row_of_Some)

lemma keeps_db_now [keeps_rules]: "keeps I db_now"
  by (simp add: db_now_def keeps_gets)

lemma frames_db_now [frames_rules]: "frames v db_now"
  by (simp add: db_now_def frames_gets)

lemma db_now_run [simp, run_simps]: "db_now s = (Inr (clock s (tick s)), s)"
  by (simp add: db_now_def)

lemma andthen_db_now [simp]: "andthen db_now f s = f (clock s (tick s)) s"
  by (simp add: andthen_def)

context billing_platform
begin

lemma admit_credit_row_eq:
  assumes "money (cr_balance r)" "money (cr_reserved r)" "money (cr_spent r)"
  shows "admit_credit_row D r = (if credit_row_ok r then Some r else None)"
  using assms by (auto simp: admit_credit_row_def credit_row_ok_def numeric_money moneyD dest: amount_okD)

lemma keeps_insert_credit_row:
  assumes "money (cr_balance r)" "money (cr_reserved r)" "money (cr_spent r)"
  shows "keeps credit_db_ok (insert_credit_row D e r)"
proof (rule keepsI)
  fix s res t
  assume "credit_db_ok s" and "insert_credit_row D e r s = (res, t)"
  with assms show "credit_db_ok t"
    by (auto simp: insert_credit_row_def admit_credit_row_eq credit_db_ok_def unique_key_snoc
        split: if_splits)
qed

lemma keeps_update_credit_row:
  assumes "\<And>r. credit_row_ok r \<Longrightarrow> p r \<Longrightarrow>
             money (cr_balance (f r)) \<and> money (cr_reserved (f r)) \<and> money (cr_spent (f r))"
  shows "keeps credit_db_ok (update_credit_row D e u p f)"
proof (rule keepsI)
  fix s res t
  assume inv: "credit_db_ok s" and run: "update_credit_row D e u p f s = (res, t)"
  show "credit_db_ok t"
  proof (cases "row_of cr_user u (credits s)")
    case None
    with inv run show ?thesis by (simp add: update_credit_row_def)
  next
    case (Some r)
    then have "credit_row_ok r" using inv by (rule credit_db_ok_row [rotated])
    moreover have "r \<in> set (credits s)" "cr_user r = u" using Some by (auto dest: row_of_Some)
    ultimately show ?thesis
      using inv run Some assms [of r] admit_credit_row_eq [of "f r"]
      by (auto simp: update_credit_row_def credit_db_ok_def set_update_where credit_row_ok_def
          split: if_splits option.splits)
  qed
qed

lemma keeps_insert_reservation_row:
  "money (rr_amount r) \<Longrightarrow> rr_released_at r = None \<Longrightarrow> keeps credit_db_ok (insert_reservation_row D e r)"
  by (rule keepsI)
     (auto simp: insert_reservation_row_def credit_db_ok_def reservation_row_ok_def numeric_money moneyD unique_key_snoc
       split: if_splits)

lemma acct_ok_of_row: "credit_row_ok r \<Longrightarrow> acct_ok (account_of_row D r)"
  by (simp add: credit_row_ok_def acct_ok_def account_of_row_def from_decimal_id amount_ok_credit_ok)

lemma account_of_row_eq:
  "credit_row_ok r \<Longrightarrow>
     account_of_row D r =
       \<lparr>acct_user_id = show_uuid D (cr_user r), acct_balance = cr_balance r, acct_reserved = cr_reserved r,
        acct_lifetime_spent = cr_spent r, acct_last_updated = cr_updated r\<rparr>"
  by (simp add: credit_row_ok_def account_of_row_def from_decimal_id amount_ok_credit_ok)

end

lemma keeps_insert_billing_event [keeps_rules]: "keeps credit_db_ok (insert_billing_event e r)"
  by (rule keepsI) (auto simp: insert_billing_event_def credit_db_ok_def split: if_splits)

lemma keeps_upsert_user [keeps_rules]: "keeps credit_db_ok (upsert_user e x)"
  by (rule keepsI)
     (auto simp: upsert_user_def credit_db_ok_def unique_key_snoc user_exists_snoc split: if_splits option.splits)

lemma keeps_resolve_user_uuid [keeps_rules]: "keeps credit_db_ok (resolve_user_uuid D u)"
  unfolding resolve_user_uuid_def by (intro keeps_rules)

lemma keeps_require_user_uuid [keeps_rules]: "keeps credit_db_ok (require_user_uuid D u)"
  unfolding require_user_uuid_def by (intro keeps_rules)

lemma keeps_ensure_user_uuid [keeps_rules]: "keeps credit_db_ok (ensure_user_uuid D u)"
  unfolding ensure_user_uuid_def by (intro keeps_rules)

lemma keeps_reservation_new [keeps_rules]: "tickless I \<Longrightarrow> keeps I (reservation_new u a d r)"
  unfolding reservation_new_def by (intro keeps_rules)

lemma keeps_sql_reads [keeps_rules]:
  "keeps credit_db_ok (sql_get_account D u)"
  "keeps credit_db_ok (sql_get_reservation D i)"
  "keeps credit_db_ok (sql_get_active_reservations D u)"
  "keeps credit_db_ok (sql_get_expired_reservations D n)"
  unfolding sql_get_account_def sql_get_reservation_def sql_get_active_reservations_def
    sql_get_expired_reservations_def
  by (intro keeps_rules)+

lemma keeps_update_reservations:
  assumes "\<And>r. rr_id (f r) = rr_id r \<and> rr_user (f r) = rr_user r \<and> rr_amount (f r) = rr_amount r"
    and "\<And>r. rr_status (f r) = ''active'' \<longrightarrow> rr_released_at (f r) = None"
  shows "keeps credit_db_ok (modify (credit_reservations_update (update_where p f)))"
  using assms
  by (intro keepsI) (auto simp: credit_db_ok_def set_update_where reservation_row_ok_def)

lemma keeps_sql_update_reservation [keeps_rules]: "keeps credit_db_ok (sql_update_reservation D r)"
  unfolding sql_update_reservation_def
proof (rule keeps_bind [where Q = "\<lambda>t. res_released r \<or> t = None"])
  show "safe credit_db_ok (if res_released r then andthen utc_now (\<lambda>now. ok (Some now)) else ok None)
      (\<lambda>t. res_released r \<or> t = None)"
    using tickless_credit_db_ok by (auto simp: safe_def keeps_def tickless_def)
qed (intro keeps_rules keeps_update_reservations, auto simp: reservation_status_def)

lemma keeps_sql_release_reservation [keeps_rules]: "keeps credit_db_ok (sql_release_reservation i)"
  unfolding sql_release_reservation_def by (intro keeps_rules keeps_update_reservations) simp_all

definition acct_money :: "credit_account \<Rightarrow> bool" where
  "acct_money a \<longleftrightarrow> money (acct_balance a) \<and> money (acct_reserved a) \<and> money (acct_lifetime_spent a)"

context billing_platform
begin

lemma keeps_sql_create_account: "acct_money a \<Longrightarrow> keeps credit_db_ok (sql_create_account D a)"
  unfolding sql_create_account_def
  by (intro keeps_rules keeps_insert_credit_row) (simp_all add: acct_money_def)

lemma keeps_sql_update_account: "acct_money a \<Longrightarrow> keeps credit_db_ok (sql_update_account D a)"
  unfolding sql_update_account_def
  by (intro keeps_rules keeps_update_credit_row) (simp_all add: acct_money_def)

lemma keeps_sql_create_reservation:
  "money (res_amount r) \<Longrightarrow> keeps credit_db_ok (sql_create_reservation D r)"
  unfolding sql_create_reservation_def
  by (intro keeps_rules keeps_insert_reservation_row) simp_all

lemma keeps_sql_update_balance: "money b \<Longrightarrow> keeps credit_db_ok (sql_update_balance D u b)"
  unfolding sql_update_balance_def
  by (intro keeps_rules keeps_update_credit_row) (simp add: credit_row_ok_def amount_ok_money)

lemma keeps_sql_deduct_credits: "money a \<Longrightarrow> keeps credit_db_ok (sql_deduct_credits D u a)"
  unfolding sql_deduct_credits_def
  by (intro keeps_rules keeps_update_credit_row)
     (auto simp: credit_row_ok_def amount_ok_money money_add money_diff)

text \<open>The reservation a transaction inserts carries the amount that was asked for.\<close>

lemma keeps_reserve_transaction:
  assumes "money a"
  shows "keeps credit_db_ok
    (andthen (reservation_new u a d rid) (\<lambda>r.
       andthen (transaction e e' (andthen (sql e1 (insert_reservation_row D e1
           \<lparr>rr_id = res_id r, rr_user = v, rr_rental = res_rental_id r, rr_amount = res_amount r,
            rr_status = st, rr_reserved_at = res_created_at r, rr_expires_at = res_expires_at r,
            rr_released_at = None\<rparr>)) (\<lambda>_. andthen (sql e2 (update_credit_row D e2 v (\<lambda>_. True)
           (\<lambda>x. x\<lparr>cr_reserved := cr_reserved x + a\<rparr>))) (\<lambda>_. ok ())))) (\<lambda>_. ok r)))"
    (is "keeps _ (andthen _ ?body)")
proof (rule keepsI)
  fix s res t
  assume "credit_db_ok s" and run: "andthen (reservation_new u a d rid) ?body s = (res, t)"
  let ?r = "\<lparr>res_id = uuid_src s (Suc (tick s)), res_user_id = u, res_rental_id = rid, res_amount = a,
    res_created_at = clock s (tick s), res_expires_at = clock s (tick s) + d, res_released = False, res_metadata = []\<rparr>"
  let ?s = "s\<lparr>tick := Suc (Suc (tick s))\<rparr>"
  have body: "?body ?r ?s = (res, t)"
    using run by (simp only: andthen_reservation_new)
  have ok: "credit_db_ok ?s"
    using \<open>credit_db_ok s\<close> by (simp add: ticklessD [OF tickless_credit_db_ok])
  have "keeps credit_db_ok (?body ?r)"
    using assms
    by (intro keeps_rules keeps_insert_reservation_row keeps_update_credit_row)
       (auto simp: credit_row_ok_def amount_ok_money money_add)
  from this ok body show "credit_db_ok t" by (rule keepsD)
qed

lemma keeps_sql_reserve_credits: "money a \<Longrightarrow> keeps credit_db_ok (sql_reserve_credits D u a rid)"
  unfolding sql_reserve_credits_def
  by (intro keeps_rules keeps_reserve_transaction)

lemma sql_get_account_ok:
  assumes "credit_db_ok s" and "sql_get_account D u s = (Inr (Some a), t)"
  shows "acct_ok a"
proof -
  obtain x s1 where x: "resolve_user_uuid D u s = (Inr x, s1)"
    and rest: "(case x of None \<Rightarrow> ok None | Some u \<Rightarrow> sql (DatabaseError ''get_account'')
        (gets (\<lambda>s. map_option (account_of_row D) (row_of cr_user u (credits s))))) s1 = (Inr (Some a), t)"
    using assms(2) unfolding sql_get_account_def by (elim andthen_InrE)
  have "credit_db_ok s1"
    using keeps_resolve_user_uuid assms(1) x by (rule keepsD)
  with rest show ?thesis
    by (auto split: option.splits dest!: sql_InrD simp: acct_ok_of_row credit_db_ok_row)
qed

lemma reservation_amount_ok: "amount_ok (rr_amount r) \<Longrightarrow> amount_ok (res_amount (reservation_of_row D p r))"
  by (simp add: reservation_of_row_def from_decimal_id amount_ok_credit_ok)

lemma sql_get_reservation_ok:
  "credit_db_ok s \<Longrightarrow> sql_get_reservation D i s = (Inr (Some r), t) \<Longrightarrow> amount_ok (res_amount r)"
  by (auto simp: sql_get_reservation_def sql_def reservation_amount_ok credit_db_ok_reservation
      split: outcome.splits)

lemma sql_get_expired_ok:
  "credit_db_ok s \<Longrightarrow> sql_get_expired_reservations D n s = (Inr rs, t) \<Longrightarrow> r \<in> set rs \<Longrightarrow> amount_ok (res_amount r)"
  by (auto simp: sql_get_expired_reservations_def sql_def rows_where_def credit_db_ok_def reservation_row_ok_def
      reservation_amount_ok dest!: in_set_takeD split: outcome.splits if_splits)

end

end
