(* ===== verification/Credit_Manager.thy ===== *)
theory Credit_Manager
  imports Credit_Repository
begin

section \<open>Billing: \<open>CreditManager\<close>\<close>

text \<open>
  \<open>crates/basilica-billing/src/domain/credits.rs\<close>, the manager behind the credit API. It works
  on any \<open>dyn CreditRepository\<close>: a record of the trait's methods. The locale
  \<open>credit_repository\<close> states what the manager relies on (the methods keep the repository's
  invariant and what they return is well formed), and every operation of the manager is shown to
  keep the invariant there; the interpretation is on \<open>SqlCreditRepository\<close>.
\<close>

record 's credit_repo =
  repo_get_account :: "user_id \<Rightarrow> ('s, billing_error, credit_account option) prog"
  repo_create_account :: "credit_account \<Rightarrow> ('s, billing_error, unit) prog"
  repo_update_account :: "credit_account \<Rightarrow> ('s, billing_error, unit) prog"
  repo_create_reservation :: "reservation \<Rightarrow> ('s, billing_error, unit) prog"
  repo_get_reservation :: "reservation_id \<Rightarrow> ('s, billing_error, reservation option) prog"
  repo_update_reservation :: "reservation \<Rightarrow> ('s, billing_error, unit) prog"
  repo_get_active_reservations :: "user_id \<Rightarrow> ('s, billing_error, reservation list) prog"
  repo_get_expired_reservations :: "int \<Rightarrow> ('s, billing_error, reservation list) prog"
  repo_update_balance :: "user_id \<Rightarrow> credit_balance \<Rightarrow> ('s, billing_error, unit) prog"
  repo_release_reservation :: "reservation_id \<Rightarrow> ('s, billing_error, unit) prog"
  repo_reserve_credits :: "user_id \<Rightarrow> credit_balance \<Rightarrow> rental_id \<Rightarrow> ('s, billing_error, reservation) prog"
  repo_deduct_credits :: "user_id \<Rightarrow> credit_balance \<Rightarrow> ('s, billing_error, unit) prog"

definition sql_credit_repository :: "'d billing_ops_scheme \<Rightarrow> 'z credit_db_scheme credit_repo" where
  "sql_credit_repository D =
     \<lparr>repo_get_account = sql_get_account D,
      repo_create_account = sql_create_account D,
      repo_update_account = sql_update_account D,
      repo_create_reservation = sql_create_reservation D,
      repo_get_reservation = sql_get_reservation D,
      repo_update_reservation = sql_update_reservation D,
      repo_get_active_reservations = sql_get_active_reservations D,
      repo_get_expired_reservations = sql_get_expired_reservations D,
      repo_update_balance = sql_update_balance D,
      repo_release_reservation = sql_release_reservation,
      repo_reserve_credits = sql_reserve_credits D,
      repo_deduct_credits = sql_deduct_credits D\<rparr>"

lemma sql_credit_repository_simps [simp]:
  "repo_get_account (sql_credit_repository D) = sql_get_account D"
  "repo_create_account (sql_credit_repository D) = sql_create_account D"
  "repo_update_account (sql_credit_repository D) = sql_update_account D"
  "repo_create_reservation (sql_credit_repository D) = sql_create_reservation D"
  "repo_get_reservation (sql_credit_repository D) = sql_get_reservation D"
  "repo_update_reservation (sql_credit_repository D) = sql_update_reservation D"
  "repo_get_active_reservations (sql_credit_repository D) = sql_get_active_reservations D"
  "repo_get_expired_reservations (sql_credit_repository D) = sql_get_expired_reservations D"
  "repo_update_balance (sql_credit_repository D) = sql_update_balance D"
  "repo_release_reservation (sql_credit_repository D) = sql_release_reservation"
  "repo_reserve_credits (sql_credit_repository D) = sql_reserve_credits D"
  "repo_deduct_credits (sql_credit_repository D) = sql_deduct_credits D"
  by (simp_all add: sql_credit_repository_def)

subsection \<open>The operations\<close>

type_synonym ('z, 'a) mgr_prog = "('z env_scheme, billing_error, 'a) prog"

definition get_or_create_account ::
  "'z env_scheme credit_repo \<Rightarrow> user_id \<Rightarrow> ('z, credit_account) mgr_prog" where
  "get_or_create_account R user_id =
     andthen (repo_get_account R user_id) (\<lambda>found.
       case found of
         Some account \<Rightarrow> ok account
       | None \<Rightarrow>
           andthen (account_new user_id) (\<lambda>new_account.
           andthen (repo_create_account R new_account) (\<lambda>_.
           andthen (repo_get_account R user_id) (ok_or (DatabaseError ''get_or_create_account'')))))"

definition mgr_get_balance ::
  "'d decimal_ops_scheme \<Rightarrow> 'z env_scheme credit_repo \<Rightarrow> user_id \<Rightarrow> ('z, credit_balance) mgr_prog" where
  "mgr_get_balance D R user_id =
     andthen (get_or_create_account R user_id) (\<lambda>account. ok (available_balance D account))"

definition mgr_get_account ::
  "'z env_scheme credit_repo \<Rightarrow> user_id \<Rightarrow> ('z, credit_account) mgr_prog" where
  "mgr_get_account R user_id = get_or_create_account R user_id"

definition mgr_apply_credits ::
  "'d decimal_ops_scheme \<Rightarrow> 'z env_scheme credit_repo \<Rightarrow> user_id \<Rightarrow> credit_balance \<Rightarrow>
     ('z, credit_balance) mgr_prog" where
  "mgr_apply_credits D R user_id amount =
     andthen (get_or_create_account R user_id) (\<lambda>account0.
     andthen (acct_apply_credits D amount account0) (\<lambda>account.
     andthen (repo_update_account R account) (\<lambda>_.
       ok (acct_balance account))))"

definition mgr_reserve_credits ::
  "'d decimal_ops_scheme \<Rightarrow> 'z env_scheme credit_repo \<Rightarrow> user_id \<Rightarrow> credit_balance \<Rightarrow> time \<Rightarrow>
     rental_id option \<Rightarrow> ('z, reservation_id) mgr_prog" where
  "mgr_reserve_credits D R user_id amount duration rental_id =
     andthen (get_or_create_account R user_id) (\<lambda>account0.
       if \<not> can_reserve D account0 amount
       then fail (InsufficientBalance (available_balance D account0) amount)
       else
         andthen (reservation_new user_id amount duration rental_id) (\<lambda>reservation.
         andthen (acct_reserve_credits D amount account0) (\<lambda>(r, account).
         andthen (of_result r) (\<lambda>_.
         andthen (repo_create_reservation R reservation) (\<lambda>_.
         andthen (repo_update_account R account) (\<lambda>_.
           ok (res_id reservation)))))))"

definition mgr_release_reservation ::
  "'d decimal_ops_scheme \<Rightarrow> 'z env_scheme credit_repo \<Rightarrow> reservation_id \<Rightarrow> ('z, credit_balance) mgr_prog" where
  "mgr_release_reservation D R reservation_id =
     andthen (andthen (repo_get_reservation R reservation_id) (ok_or (ReservationNotFound reservation_id)))
       (\<lambda>reservation.
       if res_released reservation then fail (ReservationAlreadyReleased reservation_id)
       else
         andthen (repo_update_reservation R (reservation\<lparr>res_released := True\<rparr>)) (\<lambda>_.
         andthen (andthen (repo_get_account R (res_user_id reservation)) (ok_or (UserNotFound (res_user_id reservation))))
           (\<lambda>account0.
         andthen (acct_release_reservation D (res_amount reservation) account0) (\<lambda>account.
         andthen (repo_update_account R account) (\<lambda>_.
           ok (res_amount reservation))))))"

definition mgr_charge_credits ::
  "'d decimal_ops_scheme \<Rightarrow> 'z env_scheme credit_repo \<Rightarrow> user_id \<Rightarrow> credit_balance \<Rightarrow>
     ('z, credit_balance) mgr_prog" where
  "mgr_charge_credits D R user_id amount =
     andthen (andthen (repo_get_account R user_id) (ok_or (UserNotFound user_id))) (\<lambda>account0.
     andthen (acct_charge D amount account0) (\<lambda>(r, account).
     andthen (of_result r) (\<lambda>_.
     andthen (repo_update_account R account) (\<lambda>_.
       ok (acct_balance account)))))"

definition mgr_charge_from_reservation ::
  "'d decimal_ops_scheme \<Rightarrow> 'z env_scheme credit_repo \<Rightarrow> reservation_id \<Rightarrow> credit_balance \<Rightarrow>
     ('z, credit_balance) mgr_prog" where
  "mgr_charge_from_reservation D R reservation_id actual_amount =
     andthen (andthen (repo_get_reservation R reservation_id) (ok_or (ReservationNotFound reservation_id)))
       (\<lambda>reservation.
       if res_released reservation then fail (ReservationAlreadyReleased reservation_id)
       else
         andthen (repo_update_reservation R (reservation\<lparr>res_released := True\<rparr>)) (\<lambda>_.
         andthen (andthen (repo_get_account R (res_user_id reservation)) (ok_or (UserNotFound (res_user_id reservation))))
           (\<lambda>account0.
         andthen (acct_charge_from_reservation D (res_amount reservation) actual_amount account0) (\<lambda>(r, account).
         andthen (of_result r) (\<lambda>_.
         andthen (repo_update_account R account) (\<lambda>_.
           ok (acct_balance account)))))))"

definition mgr_get_reservation ::
  "'z env_scheme credit_repo \<Rightarrow> reservation_id \<Rightarrow> ('z, reservation) mgr_prog" where
  "mgr_get_reservation R reservation_id =
     andthen (repo_get_reservation R reservation_id) (ok_or (ReservationNotFound reservation_id))"

definition mgr_get_active_reservations ::
  "'z env_scheme credit_repo \<Rightarrow> user_id \<Rightarrow> ('z, reservation list) mgr_prog" where
  "mgr_get_active_reservations R user_id = repo_get_active_reservations R user_id"

definition cleanup_one ::
  "'d decimal_ops_scheme \<Rightarrow> 'z env_scheme credit_repo \<Rightarrow> reservation \<Rightarrow> ('z, unit) mgr_prog" where
  "cleanup_one D R reservation =
     (if res_released reservation then ok ()
      else
        andthen (repo_update_reservation R (reservation\<lparr>res_released := True\<rparr>)) (\<lambda>_.
        andthen (attempt (repo_get_account R (res_user_id reservation))) (\<lambda>found.
          case found of
            Inr (Some account0) \<Rightarrow>
              andthen (acct_release_reservation D (res_amount reservation) account0) (\<lambda>account.
              andthen (attempt (repo_update_account R account)) (\<lambda>_. ok ()))
          | _ \<Rightarrow> ok ())))"

definition mgr_cleanup_expired_reservations ::
  "'d decimal_ops_scheme \<Rightarrow> 'z env_scheme credit_repo \<Rightarrow> ('z, nat) mgr_prog" where
  "mgr_cleanup_expired_reservations D R =
     andthen (repo_get_expired_reservations R 100) (\<lambda>expired.
     andthen (for_each (cleanup_one D R) expired) (\<lambda>_.
       ok (length expired)))"

subsection \<open>The contract of a repository, and the invariant the manager keeps\<close>

locale credit_repository = rust_decimal D
  for D :: "'d decimal_ops_scheme" +
  fixes R :: "'z env_scheme credit_repo" and I :: "'z env_scheme \<Rightarrow> bool"
  assumes tickless_I: "tickless I"
    and get_account_safe: "safe I (repo_get_account R u) (pred_option acct_ok)"
    and create_account_keeps: "acct_money a \<Longrightarrow> keeps I (repo_create_account R a)"
    and update_account_keeps: "acct_money a \<Longrightarrow> keeps I (repo_update_account R a)"
    and create_reservation_keeps: "money (res_amount r) \<Longrightarrow> keeps I (repo_create_reservation R r)"
    and get_reservation_safe: "safe I (repo_get_reservation R i) (pred_option (\<lambda>r. amount_ok (res_amount r)))"
    and update_reservation_keeps: "keeps I (repo_update_reservation R r)"
    and get_expired_safe:
      "safe I (repo_get_expired_reservations R n) (list_all (\<lambda>r. amount_ok (res_amount r)))"
begin

lemmas repo_keeps = tickless_I update_reservation_keeps

lemma safe_account_new: "safe I (account_new u) acct_money"
  using tickless_I
  by (auto simp: account_new_def safe_def keeps_def tickless_def acct_money_def money_def cb_zero_def)

lemma safe_found_account: "safe I (andthen (repo_get_account R u) (ok_or e)) acct_ok"
  by (rule safe_andthen [OF get_account_safe]) (rule safe_ok_or)

lemma safe_found_reservation:
  "safe I (andthen (repo_get_reservation R i) (ok_or e)) (\<lambda>r. amount_ok (res_amount r))"
  by (rule safe_andthen [OF get_reservation_safe]) (rule safe_ok_or)

lemma safe_get_or_create: "safe I (get_or_create_account R u) acct_ok"
  unfolding get_or_create_account_def
  by (intro safe_andthen [OF get_account_safe] safe_case_option safe_ok safe_andthen [OF safe_account_new]
        safe_andthen [OF safe_weaken [OF create_account_keeps]] safe_found_account)
     simp_all

lemma safe_apply_credits:
  "acct_ok a \<Longrightarrow> amount_ok x \<Longrightarrow> safe I (acct_apply_credits D x a) acct_money"
  using tickless_I
  by (auto simp: safe_def keeps_def tickless_def acct_apply_credits_run acct_money_def acct_ok_def
        amount_ok_money money_add)

lemma safe_release:
  "acct_ok a \<Longrightarrow> amount_ok x \<Longrightarrow> safe I (acct_release_reservation D x a) acct_money"
  using tickless_I
  by (auto simp: safe_def keeps_def tickless_def acct_release_reservation_run acct_money_def acct_ok_def
        amount_ok_money money_max_diff)

lemma safe_reserve:
  "acct_ok a \<Longrightarrow> amount_ok x \<Longrightarrow> safe I (acct_reserve_credits D x a) (\<lambda>(r, b). acct_money b)"
  using tickless_I
  by (auto simp: safe_def keeps_def tickless_def acct_reserve_credits_run acct_money_def acct_ok_def
        amount_ok_money money_add split: if_splits)

lemma safe_charge:
  "acct_ok a \<Longrightarrow> amount_ok x \<Longrightarrow> safe I (acct_charge D x a) (\<lambda>(r, b). acct_money b)"
  using tickless_I
  by (auto simp: safe_def keeps_def tickless_def acct_charge_run acct_money_def acct_ok_def
        amount_ok_money money_add money_diff split: if_splits)

lemma safe_charge_from_reservation:
  "acct_ok a \<Longrightarrow> amount_ok x \<Longrightarrow> amount_ok y \<Longrightarrow>
     safe I (acct_charge_from_reservation D x y a) (\<lambda>(r, b). acct_money b)"
  using tickless_I
  by (auto simp: safe_def keeps_def tickless_def acct_charge_from_reservation_run acct_money_def acct_ok_def
        amount_ok_money money_add money_diff money_max_diff split: if_splits)

lemma mgr_apply_credits_keeps: "amount_ok x \<Longrightarrow> keeps I (mgr_apply_credits D R u x)"
  unfolding mgr_apply_credits_def
  by (intro keeps_bind [OF safe_get_or_create] keeps_bind [OF safe_apply_credits]
        keeps_rules update_account_keeps)

lemma mgr_get_balance_keeps: "keeps I (mgr_get_balance D R u)"
  unfolding mgr_get_balance_def by (intro keeps_bind [OF safe_get_or_create] keeps_rules)

lemma keeps_reserve_tail:
  assumes "acct_ok a" "amount_ok x"
  shows "keeps I (andthen (reservation_new u x d rid) (\<lambda>res.
           andthen (acct_reserve_credits D x a) (\<lambda>(r, b).
           andthen (of_result r) (\<lambda>_. andthen (repo_create_reservation R res) (\<lambda>_.
           andthen (repo_update_account R b) (\<lambda>_. ok (res_id res)))))))" (is "keeps _ (andthen _ ?f)")
proof (rule keeps_bind [where Q = "\<lambda>res. res_amount res = x"])
  show "safe I (reservation_new u x d rid) (\<lambda>res. res_amount res = x)"
    using tickless_I by (auto simp: reservation_new_def safe_def keeps_def tickless_def)
next
  fix res :: reservation
  assume "res_amount res = x"
  with assms show "keeps I (?f res)"
    by (intro keeps_bind [OF safe_reserve])
       (auto intro!: keeps_rules create_reservation_keeps update_account_keeps simp: amount_ok_money)
qed

lemma mgr_reserve_credits_keeps: "amount_ok x \<Longrightarrow> keeps I (mgr_reserve_credits D R u x d rid)"
  unfolding mgr_reserve_credits_def
  by (intro keeps_bind [OF safe_get_or_create] keeps_rules keeps_reserve_tail)

lemma mgr_release_reservation_keeps: "keeps I (mgr_release_reservation D R i)"
  unfolding mgr_release_reservation_def
  by (intro keeps_bind [OF safe_found_reservation] keeps_if keeps_fail keeps_ok
        keeps_bind [OF safe_weaken [OF update_reservation_keeps]] keeps_bind [OF safe_found_account]
        keeps_bind [OF safe_release] keeps_andthen update_account_keeps)

lemma mgr_charge_credits_keeps: "amount_ok x \<Longrightarrow> keeps I (mgr_charge_credits D R u x)"
  unfolding mgr_charge_credits_def
  by (intro keeps_bind [OF safe_found_account] keeps_bind [OF safe_charge])
     (auto intro!: keeps_rules update_account_keeps)

lemma mgr_charge_from_reservation_keeps:
  "amount_ok x \<Longrightarrow> keeps I (mgr_charge_from_reservation D R i x)"
  unfolding mgr_charge_from_reservation_def
  by (intro keeps_bind [OF safe_found_reservation] keeps_if keeps_fail
        keeps_bind [OF safe_weaken [OF update_reservation_keeps]] keeps_bind [OF safe_found_account]
        keeps_bind [OF safe_charge_from_reservation])
     (auto intro!: keeps_rules update_account_keeps)

lemma cleanup_one_keeps: "amount_ok (res_amount r) \<Longrightarrow> keeps I (cleanup_one D R r)"
  unfolding cleanup_one_def
  by (intro keeps_if keeps_ok keeps_bind [OF safe_weaken [OF update_reservation_keeps]]
        keeps_bind [OF safe_attempt [OF get_account_safe]])
     (auto split: sum.splits option.splits
           intro!: keeps_ok keeps_bind [OF safe_release]
             keeps_bind [OF safe_weaken [OF keeps_attempt [OF update_account_keeps]]])

lemma mgr_cleanup_keeps: "keeps I (mgr_cleanup_expired_reservations D R)"
  unfolding mgr_cleanup_expired_reservations_def
  by (intro keeps_bind [OF get_expired_safe] keeps_andthen keeps_for_each_in keeps_ok cleanup_one_keeps)
     (simp add: list_all_iff)

lemmas mgr_keeps = mgr_get_balance_keeps mgr_apply_credits_keeps mgr_reserve_credits_keeps
  mgr_release_reservation_keeps mgr_charge_credits_keeps mgr_charge_from_reservation_keeps
  mgr_cleanup_keeps

end

sublocale billing_platform \<subseteq> sql_credits: credit_repository D "sql_credit_repository D" credit_db_ok
proof (unfold_locales, goal_cases)
  case 1
  show ?case by (rule tickless_credit_db_ok)
next
  case (2 u)
  show ?case
    by (auto intro!: safeI keeps_sql_reads dest: sql_get_account_ok simp: pred_option_def)
next
  case (6 i)
  show ?case
    by (auto intro!: safeI keeps_sql_reads dest: sql_get_reservation_ok simp: pred_option_def)
next
  case (8 n)
  show ?case
    by (auto intro!: safeI keeps_sql_reads dest: sql_get_expired_ok simp: list_all_iff)
qed (simp_all add: keeps_sql_create_account keeps_sql_update_account keeps_sql_create_reservation
      keeps_sql_update_reservation)

end
