(* ===== verification/Credit_Ledger.thy ===== *)
theory Credit_Ledger
  imports Credit_Manager
begin

section \<open>Billing: what the credit operations do to the ledger\<close>

text \<open>
  The abstract ledger holds, per user, balance, reserved and spent credits, and the holds placed
  by reservations. \<open>ledger_of\<close> reads it off the tables. While every statement is carried out
  (\<open>reliable\<close>), each operation of \<open>CreditManager\<close> over \<open>SqlCreditRepository\<close> returns what the
  operation of the ledger returns and leaves the ledger it leaves, on every branch. Consistency
  (\<open>held_consistent\<close>): the reserved amount of an account is the sum of its open reservations.
\<close>

subsection \<open>The ledger\<close>

record ledger =
  lg_acct :: "uuid \<Rightarrow> (rat \<times> rat \<times> rat) option"
  lg_hold :: "uuid \<Rightarrow> (uuid \<times> rat \<times> bool) option"

definition hold_closed :: "reservation_row \<Rightarrow> bool" where
  "hold_closed r \<longleftrightarrow> rr_status r = ''released'' \<or> rr_released_at r \<noteq> None"

definition ledger_of :: "'z credit_db_scheme \<Rightarrow> ledger" where
  "ledger_of s =
     \<lparr>lg_acct = (\<lambda>u. map_option (\<lambda>r. (cr_balance r, cr_reserved r, cr_spent r)) (row_of cr_user u (credits s))),
      lg_hold = (\<lambda>i. map_option (\<lambda>r. (rr_user r, rr_amount r, hold_closed r)) (row_of rr_id i (credit_reservations s)))\<rparr>"

definition set_acct :: "uuid \<Rightarrow> rat \<times> rat \<times> rat \<Rightarrow> ledger \<Rightarrow> ledger" where
  "set_acct u x L = L\<lparr>lg_acct := (lg_acct L)(u \<mapsto> x)\<rparr>"

definition set_hold :: "uuid \<Rightarrow> uuid \<times> rat \<times> bool \<Rightarrow> ledger \<Rightarrow> ledger" where
  "set_hold i x L = L\<lparr>lg_hold := (lg_hold L)(i \<mapsto> x)\<rparr>"

definition acct_of :: "ledger \<Rightarrow> uuid \<Rightarrow> rat \<times> rat \<times> rat" where
  "acct_of L u = (case lg_acct L u of None \<Rightarrow> (0, 0, 0) | Some t \<Rightarrow> t)"

definition ledger_apply :: "uuid \<Rightarrow> rat \<Rightarrow> ledger \<Rightarrow> (billing_error + rat) \<times> ledger" where
  "ledger_apply u x L =
     (case acct_of L u of
        (b, v, l) \<Rightarrow>
          if b + x < 10 ^ 12 then (Inr (b + x), set_acct u (b + x, v, l) L)
          else (Inl (DatabaseError ''update_account''), set_acct u (b, v, l) L))"

definition ledger_reserve :: "uuid \<Rightarrow> uuid \<Rightarrow> rat \<Rightarrow> ledger \<Rightarrow> (billing_error + uuid) \<times> ledger" where
  "ledger_reserve i u x L =
     (case acct_of L u of
        (b, v, l) \<Rightarrow>
          if max 0 (b - v) < x then (Inl (InsufficientBalance (max 0 (b - v)) x), set_acct u (b, v, l) L)
          else if lg_hold L i \<noteq> None then (Inl (DatabaseError ''create_reservation''), set_acct u (b, v, l) L)
          else (Inr i, set_acct u (b, v + x, l) (set_hold i (u, x, False) L)))"

definition ledger_release :: "(uuid \<Rightarrow> string) \<Rightarrow> uuid \<Rightarrow> ledger \<Rightarrow> (billing_error + rat) \<times> ledger" where
  "ledger_release name i L =
     (case lg_hold L i of
        None \<Rightarrow> (Inl (ReservationNotFound i), L)
      | Some (u, x, was_closed) \<Rightarrow>
          if was_closed then (Inl (ReservationAlreadyReleased i), L)
          else case lg_acct L u of
                 None \<Rightarrow> (Inl (UserNotFound (name u)), set_hold i (u, x, True) L)
               | Some (b, v, l) \<Rightarrow> (Inr x, set_acct u (b, max 0 (v - x), l) (set_hold i (u, x, True) L)))"

definition ledger_charge :: "string \<Rightarrow> uuid \<Rightarrow> rat \<Rightarrow> ledger \<Rightarrow> (billing_error + rat) \<times> ledger" where
  "ledger_charge user_id u y L =
     (case lg_acct L u of
        None \<Rightarrow> (Inl (UserNotFound user_id), L)
      | Some (b, v, l) \<Rightarrow>
          if b < y then (Inl (InsufficientBalance b y), L)
          else if 10 ^ 12 \<le> l + y then (Inl (DatabaseError ''update_account''), L)
          else (Inr (b - y), set_acct u (b - y, v, l + y) L))"

definition ledger_charge_hold :: "(uuid \<Rightarrow> string) \<Rightarrow> uuid \<Rightarrow> rat \<Rightarrow> ledger \<Rightarrow> (billing_error + rat) \<times> ledger" where
  "ledger_charge_hold name i y L =
     (case lg_hold L i of
        None \<Rightarrow> (Inl (ReservationNotFound i), L)
      | Some (u, x, was_closed) \<Rightarrow>
          if was_closed then (Inl (ReservationAlreadyReleased i), L)
          else let L' = set_hold i (u, x, True) L in
               case lg_acct L u of
                 None \<Rightarrow> (Inl (UserNotFound (name u)), L')
               | Some (b, v, l) \<Rightarrow>
                   if b < y then (Inl (InsufficientBalance b y), L')
                   else if 10 ^ 12 \<le> l + y then (Inl (DatabaseError ''update_account''), L')
                   else (Inr (b - y), set_acct u (b - y, max 0 (v - x), l + y) L'))"

text \<open>The open holds of a user, and their sum.\<close>

definition held :: "uuid \<Rightarrow> 'z credit_db_scheme \<Rightarrow> rat" where
  "held u s = total_where (\<lambda>r. rr_user r = u \<and> \<not> hold_closed r) rr_amount (credit_reservations s)"

definition held_consistent :: "'z credit_db_scheme \<Rightarrow> bool" where
  "held_consistent s \<longleftrightarrow>
     (\<forall>r\<in>set (credits s). cr_reserved r = held (cr_user r) s) \<and>
     (\<forall>r\<in>set (credit_reservations s). row_of cr_user (rr_user r) (credits s) \<noteq> None)"

subsection \<open>The two table updates the operations are made of\<close>

definition put_credit :: "uuid \<Rightarrow> rat \<Rightarrow> rat \<Rightarrow> rat \<Rightarrow> time \<Rightarrow> 'z credit_db_scheme \<Rightarrow> 'z credit_db_scheme" where
  "put_credit u b v l now =
     credits_update (update_where (\<lambda>r. cr_user r = u)
       (\<lambda>r. r\<lparr>cr_balance := b, cr_reserved := v, cr_spent := l, cr_updated := now\<rparr>))"

definition close_hold :: "uuid \<Rightarrow> time \<Rightarrow> 'z credit_db_scheme \<Rightarrow> 'z credit_db_scheme" where
  "close_hold i now =
     credit_reservations_update (update_where (\<lambda>r. rr_id r = i)
       (\<lambda>r. r\<lparr>rr_status := ''released'', rr_released_at := Some now\<rparr>))"

definition open_hold :: "reservation_row \<Rightarrow> 'z credit_db_scheme \<Rightarrow> 'z credit_db_scheme" where
  "open_hold r = credit_reservations_update (\<lambda>rs. rs @ [r])"

lemma put_credit_simps [simp]:
  "tick (put_credit u b v l now s) = tick s" "clock (put_credit u b v l now s) = clock s"
  "db_outcome (put_credit u b v l now s) = db_outcome s" "users (put_credit u b v l now s) = users s"
  "credit_reservations (put_credit u b v l now s) = credit_reservations s"
  "reliable (put_credit u b v l now s) = reliable s"
  by (simp_all add: put_credit_def reliable_def)

lemma close_hold_simps [simp]:
  "tick (close_hold i now s) = tick s" "clock (close_hold i now s) = clock s"
  "db_outcome (close_hold i now s) = db_outcome s" "users (close_hold i now s) = users s"
  "credits (close_hold i now s) = credits s" "reliable (close_hold i now s) = reliable s"
  by (simp_all add: close_hold_def reliable_def)

lemma open_hold_simps [simp]:
  "tick (open_hold r s) = tick s" "clock (open_hold r s) = clock s"
  "db_outcome (open_hold r s) = db_outcome s" "users (open_hold r s) = users s"
  "credits (open_hold r s) = credits s" "reliable (open_hold r s) = reliable s"
  by (simp_all add: open_hold_def reliable_def)

lemma view_tick [simp]:
  "(put_credit u b v l now s)\<lparr>tick := n\<rparr> = put_credit u b v l now (s\<lparr>tick := n\<rparr>)"
  "(close_hold i now s)\<lparr>tick := n\<rparr> = close_hold i now (s\<lparr>tick := n\<rparr>)"
  "(open_hold r s)\<lparr>tick := n\<rparr> = open_hold r (s\<lparr>tick := n\<rparr>)"
  by (simp_all add: put_credit_def close_hold_def open_hold_def)

lemma ledger_of_tick [simp]: "ledger_of (s\<lparr>tick := n\<rparr>) = ledger_of s"
  by (simp add: ledger_of_def)

lemma held_tick [simp]: "held u (s\<lparr>tick := n\<rparr>) = held u s"
  by (simp add: held_def)

lemma held_consistent_tick [simp]: "held_consistent (s\<lparr>tick := n\<rparr>) = held_consistent s"
  by (simp add: held_consistent_def)

lemma lg_acct_put [simp]:
  "row_of cr_user u (credits s) = Some r \<Longrightarrow> ledger_of (put_credit u b v l now s) = set_acct u (b, v, l) (ledger_of s)"
  by (auto simp: ledger_of_def set_acct_def put_credit_def row_of_update_same row_of_update_other fun_eq_iff)

lemma lg_hold_close [simp]:
  "row_of rr_id i (credit_reservations s) = Some r \<Longrightarrow>
     ledger_of (close_hold i now s) = set_hold i (rr_user r, rr_amount r, True) (ledger_of s)"
  by (auto simp: ledger_of_def set_hold_def close_hold_def row_of_update_same row_of_update_other fun_eq_iff
      hold_closed_def)

lemma lg_hold_open [simp]:
  "row_of rr_id (rr_id r) (credit_reservations s) = None \<Longrightarrow>
     ledger_of (open_hold r s) = set_hold (rr_id r) (rr_user r, rr_amount r, hold_closed r) (ledger_of s)"
  by (auto simp: ledger_of_def set_hold_def open_hold_def row_of_append fun_eq_iff split: option.splits)

lemma held_put [simp]: "held w (put_credit u b v l now s) = held w s"
  by (simp add: held_def put_credit_def)

lemma held_open:
  "held u (open_hold r s) = held u s + (if rr_user r = u \<and> \<not> hold_closed r then rr_amount r else 0)"
  by (simp add: held_def open_hold_def)

lemma held_close:
  assumes "unique_key rr_id (credit_reservations s)" "row_of rr_id i (credit_reservations s) = Some r"
    "\<not> hold_closed r"
  shows "held u (close_hold i now s) = held u s - (if rr_user r = u then rr_amount r else 0)"
proof (cases "rr_user r = u")
  case True
  with assms show ?thesis
    by (simp add: held_def close_hold_def hold_closed_def total_where_deselect)
next
  case False
  then have "x = r" if "x \<in> set (credit_reservations s)" "rr_id x = i" for x
    using unique_key_row_of [OF assms(1) that(1)] that(2) assms(2) by simp
  with False show ?thesis
    by (auto simp: held_def close_hold_def intro!: total_where_update_other)
qed

subsection \<open>The repository's methods when every statement is carried out\<close>

definition resolves :: "'d billing_ops_scheme \<Rightarrow> user_id \<Rightarrow> 'z credit_db_scheme \<Rightarrow> uuid option" where
  "resolves D user_id s =
     (case parse_uuid D user_id of
        Some u \<Rightarrow> Some u
      | None \<Rightarrow> map_option usr_id (row_of usr_external user_id (users s)))"

lemma resolves_simps [simp]:
  "resolves D x (s\<lparr>tick := n\<rparr>) = resolves D x s" "resolves D x (put_credit u b v l now s) = resolves D x s"
  "resolves D x (close_hold i now s) = resolves D x s" "resolves D x (open_hold r s) = resolves D x s"
  by (simp_all add: resolves_def split: option.splits)

lemma resolve_run:
  "reliable s \<Longrightarrow> \<exists>n. resolve_user_uuid D x s = (Inr (resolves D x s), s\<lparr>tick := n\<rparr>)"
  by (auto simp: resolve_user_uuid_def resolves_def reliable_sql split: option.splits
      intro: exI [of _ "tick s"])

lemma require_run:
  "reliable s \<Longrightarrow> resolves D x s = Some u \<Longrightarrow> \<exists>n. require_user_uuid D x s = (Inr u, s\<lparr>tick := n\<rparr>)"
  using resolve_run [of s D x] by (auto simp: require_user_uuid_def andthen_Inr)

lemma get_account_run:
  assumes "reliable s" and "resolves D x s = Some u"
  shows "\<exists>n. sql_get_account D x s =
    (Inr (map_option (account_of_row D) (row_of cr_user u (credits s))), s\<lparr>tick := n\<rparr>)"
proof -
  obtain n where "resolve_user_uuid D x s = (Inr (Some u), s\<lparr>tick := n\<rparr>)"
    using resolve_run [OF assms(1), of D x] assms(2) by auto
  with assms(1) show ?thesis
    by (auto simp: sql_get_account_def andthen_Inr reliable_sql)
qed

lemma get_reservation_run:
  "reliable s \<Longrightarrow> sql_get_reservation D i s =
     (Inr (map_option (reservation_of_row D hold_closed) (row_of rr_id i (credit_reservations s))),
      s\<lparr>tick := Suc (tick s)\<rparr>)"
  by (simp add: sql_get_reservation_def reliable_sql hold_closed_def [abs_def])

lemma update_reservation_run:
  assumes "reliable s" and "row_of rr_id (res_id x) (credit_reservations s) = Some r" and "res_released x"
  shows "\<exists>n now. sql_update_reservation D x s = (Inr (), close_hold (res_id x) now (s\<lparr>tick := n\<rparr>))"
proof -
  have "affected (\<lambda>r. rr_id r = res_id x) (credit_reservations s) \<noteq> 0"
    using assms(2) by (simp add: affected_key_0)
  with assms show ?thesis
    by (auto simp: sql_update_reservation_def andthen_def reliable_sql close_hold_def reservation_status_def)
qed

lemma credits_update_eq: "f (credits s) = g (credits s) \<Longrightarrow> credits_update f s = credits_update g s"
  by (rule credit_db.equality) simp_all

lemma set_acct_twice [simp]: "set_acct u x (set_acct u y L) = set_acct u x L"
  by (simp add: set_acct_def)

text \<open>An account that is missing is created with no credits.\<close>

definition zero_row :: "uuid \<Rightarrow> time \<Rightarrow> credit_row" where
  "zero_row u now = \<lparr>cr_user = u, cr_balance = 0, cr_reserved = 0, cr_spent = 0, cr_updated = now\<rparr>"

definition ensured :: "uuid \<Rightarrow> time \<Rightarrow> 'z credit_db_scheme \<Rightarrow> 'z credit_db_scheme" where
  "ensured u now s =
     (if row_of cr_user u (credits s) = None then credits_update (\<lambda>rs. rs @ [zero_row u now]) s else s)"

lemma ensured_simps [simp]:
  "users (ensured u now s) = users s" "reliable (ensured u now s) = reliable s"
  "credit_reservations (ensured u now s) = credit_reservations s"
  "clock (ensured u now s) = clock s" "uuid_src (ensured u now s) = uuid_src s"
  "tick (ensured u now s) = tick s"
  by (simp_all add: ensured_def reliable_def)

lemma resolves_ensured [simp]: "resolves D x (ensured u now s) = resolves D x s"
  by (simp add: resolves_def split: option.splits)

lemma credits_ensured_tick [simp]: "credits (ensured u now (s\<lparr>tick := n\<rparr>)) = credits (ensured u now s)"
  by (simp add: ensured_def)

lemma ensured_tick [simp]: "(ensured u now s)\<lparr>tick := n\<rparr> = ensured u now (s\<lparr>tick := n\<rparr>)"
  by (simp add: ensured_def)

context billing_platform
begin

lemma resolves_show [simp]: "resolves D (show_uuid D u) s = Some u"
  by (simp add: resolves_def parse_show_uuid)

lemma update_account_run:
  assumes "reliable s" "unique_key cr_user (credits s)" "row_of cr_user u (credits s) = Some r"
    and "resolves D (acct_user_id a) s = Some u" and "acct_money a"
  shows "\<exists>n now. sql_update_account D a s =
    (if acct_ok a
     then (Inr (), put_credit u (acct_balance a) (acct_reserved a) (acct_lifetime_spent a) now (s\<lparr>tick := n\<rparr>))
     else (Inl (DatabaseError ''update_account''), s\<lparr>tick := n\<rparr>))"
proof -
  obtain n where req: "require_user_uuid D (acct_user_id a) s = (Inr u, s\<lparr>tick := n\<rparr>)"
    using require_run [OF assms(1,4)] by auto
  have "cr_user r = u" using row_of_Some [OF assms(3)] by simp
  then have upd: "update_where (\<lambda>x. cr_user x = u)
        (\<lambda>_. r\<lparr>cr_balance := b, cr_reserved := v, cr_spent := l, cr_user := u, cr_updated := now\<rparr>) (credits s) =
      update_where (\<lambda>x. cr_user x = u)
        (\<lambda>x. x\<lparr>cr_balance := b, cr_reserved := v, cr_spent := l, cr_updated := now\<rparr>) (credits s)" for b v l now
    by (intro update_where_unique [OF assms(2,3)]) simp
  have row: "admit_credit_row D
      (r\<lparr>cr_balance := acct_balance a, cr_reserved := acct_reserved a, cr_spent := acct_lifetime_spent a\<rparr>) =
    (if acct_ok a then Some (r\<lparr>cr_balance := acct_balance a, cr_reserved := acct_reserved a, cr_spent := acct_lifetime_spent a\<rparr>) else None)"
    using assms(5) by (subst admit_credit_row_eq) (simp_all add: acct_money_def acct_ok_def credit_row_ok_def)
  have run: "sql_update_account D a s =
      (case update_credit_row D (DatabaseError ''update_account'') u (\<lambda>_. True)
          (\<lambda>r. r\<lparr>cr_balance := acct_balance a, cr_reserved := acct_reserved a, cr_spent := acct_lifetime_spent a\<rparr>)
          (s\<lparr>tick := Suc n\<rparr>) of
         (Inl e, t) \<Rightarrow> (Inl e, t)
       | (Inr k, t) \<Rightarrow> (if k = 0 then fail (UserNotFound (acct_user_id a)) else ok ()) t)"
    using assms(1) by (simp add: sql_update_account_def andthen_Inr req) (simp add: andthen_def reliable_sql)
  show ?thesis
  proof (cases "acct_ok a")
    case True
    then have "sql_update_account D a s =
        (Inr (), put_credit u (acct_balance a) (acct_reserved a) (acct_lifetime_spent a) (clock s (Suc n))
           (s\<lparr>tick := Suc n\<rparr>))"
      using assms(3) by (simp add: run update_credit_row_def row put_credit_def) (intro credits_update_eq, simp add: upd)
    with True show ?thesis by auto
  next
    case False
    then have "sql_update_account D a s = (Inl (DatabaseError ''update_account''), s\<lparr>tick := Suc n\<rparr>)"
      using assms(3) by (simp add: run update_credit_row_def row)
    with False show ?thesis by auto
  qed
qed

lemma ensure_user_run:
  assumes "reliable s" "credit_db_ok s" "resolves D x s = Some u"
  shows "\<exists>n. ensure_user_uuid D x s = (Inr u, s\<lparr>tick := n\<rparr>)"
proof (cases "parse_uuid D x")
  case None
  with assms(3) obtain r where "row_of usr_external x (users s) = Some r" "usr_id r = u"
    by (auto simp: resolves_def)
  moreover from this(1) have "length x \<le> 255"
    using assms(2) by (auto simp: credit_db_ok_def dest: row_of_Some)
  ultimately show ?thesis
    using assms(1) None by (auto simp: ensure_user_uuid_def reliable_sql upsert_user_def)
next
  case (Some v)
  with assms(3) show ?thesis
    by (auto simp: ensure_user_uuid_def resolves_def intro: exI [of _ "tick s"])
qed

lemma create_account_run:
  assumes "reliable s" "credit_db_ok s" "resolves D (acct_user_id a) s = Some u" "user_exists u s"
    and "row_of cr_user u (credits s) = None"
    and "acct_balance a = 0" "acct_reserved a = 0" "acct_lifetime_spent a = 0"
  shows "\<exists>n. sql_create_account D a s = (Inr (), ensured u (acct_last_updated a) (s\<lparr>tick := n\<rparr>))"
proof -
  obtain n where ens: "ensure_user_uuid D (acct_user_id a) s = (Inr u, s\<lparr>tick := n\<rparr>)"
    using ensure_user_run [OF assms(1-3)] by auto
  have "admit_credit_row D (zero_row u t) = Some (zero_row u t)" for t
    by (subst admit_credit_row_eq) (simp_all add: zero_row_def money_def credit_row_ok_def)
  with assms show ?thesis
    by (auto simp: sql_create_account_def andthen_Inr ens reliable_sql insert_credit_row_def zero_row_def
        ensured_def)
qed

lemma get_or_create_run:
  assumes "reliable s" "credit_db_ok s" "resolves D x s = Some u" "user_exists u s"
  obtains n now r where
    "get_or_create_account (sql_credit_repository D) x s = (Inr (account_of_row D r), ensured u now (s\<lparr>tick := n\<rparr>))"
    "row_of cr_user u (credits (ensured u now s)) = Some r"
proof (cases "row_of cr_user u (credits s)")
  case (Some r)
  with get_account_run [OF assms(1,3)] obtain n where
    "sql_get_account D x s = (Inr (Some (account_of_row D r)), s\<lparr>tick := n\<rparr>)" by auto
  with Some show ?thesis
    by (intro that) (simp_all add: get_or_create_account_def andthen_Inr ensured_def)
next
  case None
  obtain n1 where get1: "sql_get_account D x s = (Inr None, s\<lparr>tick := n1\<rparr>)"
    using get_account_run [OF assms(1,3)] None by auto
  let ?now = "clock s n1" and ?s1 = "s\<lparr>tick := Suc n1\<rparr>"
  let ?a = "\<lparr>acct_user_id = x, acct_balance = 0, acct_reserved = 0, acct_lifetime_spent = 0, acct_last_updated = ?now\<rparr>"
  have inv: "credit_db_ok ?s1" using assms(2) by (simp add: ticklessD [OF tickless_credit_db_ok])
  obtain n2 where create: "sql_create_account D ?a ?s1 = (Inr (), ensured u ?now (s\<lparr>tick := n2\<rparr>))"
    using create_account_run [of ?s1 ?a u] assms None inv by auto
  let ?s2 = "ensured u ?now (s\<lparr>tick := n2\<rparr>)"
  have row: "row_of cr_user u (credits ?s2) = Some (zero_row u ?now)"
    using None by (simp add: ensured_def zero_row_def)
  have "reliable ?s2" "resolves D x ?s2 = Some u"
    using assms by simp_all
  then obtain n3 where "sql_get_account D x ?s2 =
      (Inr (Some (account_of_row D (zero_row u ?now))), ?s2\<lparr>tick := n3\<rparr>)"
    using get_account_run row by fastforce
  then have "get_or_create_account (sql_credit_repository D) x s =
      (Inr (account_of_row D (zero_row u ?now)), ensured u ?now (s\<lparr>tick := n3\<rparr>))"
    using None
    by (simp add: get_or_create_account_def andthen_Inr get1 account_new_def cb_zero_def andthen_def [of "account_new x"]
        create ensured_def)
  with row show ?thesis using None by (intro that) (simp_all add: ensured_def)
qed

end

subsection \<open>The manager refines the ledger\<close>

lemma acct_of_row:
  "row_of cr_user u (credits s) = Some r \<Longrightarrow>
     acct_of (ledger_of s) u = (cr_balance r, cr_reserved r, cr_spent r)"
  by (simp add: acct_of_def ledger_of_def)

lemma ledger_of_ensured [simp]:
  "ledger_of (ensured u now s) = set_acct u (acct_of (ledger_of s) u) (ledger_of s)"
  by (auto simp: ensured_def ledger_of_def set_acct_def acct_of_def row_of_append zero_row_def fun_eq_iff
      split: option.splits)

lemma acct_of_set [simp]: "acct_of (set_acct u x L) u = x"
  by (simp add: acct_of_def set_acct_def)

lemma ensured_row:
  assumes "credit_db_ok s" and "row_of cr_user u (credits (ensured u now s)) = Some r"
  shows "credit_row_ok r" "cr_user r = u" "unique_key cr_user (credits (ensured u now s))"
    "acct_of (ledger_of s) u = (cr_balance r, cr_reserved r, cr_spent r)"
proof -
  show "acct_of (ledger_of s) u = (cr_balance r, cr_reserved r, cr_spent r)"
    using acct_of_row [OF assms(2)] by simp
  show "cr_user r = u" using row_of_Some [OF assms(2)] by simp
  show "credit_row_ok r"
    using assms credit_db_ok_row [of s u]
    by (auto simp: ensured_def zero_row_def row_of_append credit_row_ok_def split: if_splits)
  show "unique_key cr_user (credits (ensured u now s))"
    using assms(1) by (simp add: ensured_def credit_db_ok_def unique_key_snoc zero_row_def)
qed

lemma acct_ok_amounts:
  "acct_ok \<lparr>acct_user_id = x, acct_balance = b, acct_reserved = v, acct_lifetime_spent = l, acct_last_updated = t\<rparr>
     = (amount_ok b \<and> amount_ok v \<and> amount_ok l)"
  by (simp add: acct_ok_def)

lemma amount_ok_add_iff: "amount_ok x \<Longrightarrow> amount_ok y \<Longrightarrow> amount_ok (x + y) \<longleftrightarrow> x + y < 10 ^ 12"
  by (auto simp: amount_ok_def dec6_add)

lemma amount_ok_max_diff: "amount_ok x \<Longrightarrow> amount_ok y \<Longrightarrow> amount_ok (max 0 (x - y))"
  by (auto simp: max_def amount_ok_diff)

context billing_platform
begin

lemma account_ready:
  assumes "reliable s" "credit_db_ok s" "resolves D x s = Some u" "user_exists u s"
  obtains n now b v l t r where
    "get_or_create_account (sql_credit_repository D) x s =
       (Inr \<lparr>acct_user_id = show_uuid D u, acct_balance = b, acct_reserved = v, acct_lifetime_spent = l,
             acct_last_updated = t\<rparr>, ensured u now (s\<lparr>tick := n\<rparr>))"
    "acct_of (ledger_of s) u = (b, v, l)" "amount_ok b" "amount_ok v" "amount_ok l"
    "row_of cr_user u (credits (ensured u now s)) = Some r" "unique_key cr_user (credits (ensured u now s))"
proof -
  obtain n now r where run: "get_or_create_account (sql_credit_repository D) x s =
      (Inr (account_of_row D r), ensured u now (s\<lparr>tick := n\<rparr>))"
    and row: "row_of cr_user u (credits (ensured u now s)) = Some r"
    using get_or_create_run [OF assms] by metis
  note facts = ensured_row [OF assms(2) row]
  show ?thesis
    using run row facts
    by (intro that [of "cr_balance r" "cr_reserved r" "cr_spent r" "cr_updated r" now n r])
       (auto simp: account_of_row_eq credit_row_ok_def)
qed

lemma store_run:
  assumes "reliable s" "unique_key cr_user (credits s)" "row_of cr_user u (credits s) = Some r"
    and "money b" "money v" "money l"
  shows "\<exists>n now. sql_update_account D \<lparr>acct_user_id = show_uuid D u, acct_balance = b, acct_reserved = v,
      acct_lifetime_spent = l, acct_last_updated = t\<rparr> s =
    (if amount_ok b \<and> amount_ok v \<and> amount_ok l then (Inr (), put_credit u b v l now (s\<lparr>tick := n\<rparr>))
     else (Inl (DatabaseError ''update_account''), s\<lparr>tick := n\<rparr>))"
  using update_account_run [OF assms(1-3), of "\<lparr>acct_user_id = show_uuid D u, acct_balance = b, acct_reserved = v,
      acct_lifetime_spent = l, acct_last_updated = t\<rparr>"] assms(4-6)
  by (simp add: acct_ok_amounts acct_money_def cong: if_cong)

lemma mgr_apply_run:
  assumes "reliable s" "credit_db_ok s" "resolves D x s = Some u" "user_exists u s" "amount_ok c"
  obtains n now now' b v l r where "acct_of (ledger_of s) u = (b, v, l)"
    "row_of cr_user u (credits (ensured u now s)) = Some r"
    "mgr_apply_credits D (sql_credit_repository D) x c s =
       (if b + c < 10 ^ 12 then (Inr (b + c), put_credit u (b + c) v l now' (ensured u now (s\<lparr>tick := n\<rparr>)))
        else (Inl (DatabaseError ''update_account''), ensured u now (s\<lparr>tick := n\<rparr>)))"
proof -
  obtain n now b v l t r where get: "get_or_create_account (sql_credit_repository D) x s =
       (Inr \<lparr>acct_user_id = show_uuid D u, acct_balance = b, acct_reserved = v, acct_lifetime_spent = l,
             acct_last_updated = t\<rparr>, ensured u now (s\<lparr>tick := n\<rparr>))"
    and acct: "acct_of (ledger_of s) u = (b, v, l)" and ok: "amount_ok b" "amount_ok v" "amount_ok l"
    and row: "row_of cr_user u (credits (ensured u now s)) = Some r"
    and uniq: "unique_key cr_user (credits (ensured u now s))"
    using account_ready [OF assms(1-4)] by metis
  let ?s1 = "ensured u now (s\<lparr>tick := Suc n\<rparr>)"
  obtain n' now' where "sql_update_account D \<lparr>acct_user_id = show_uuid D u, acct_balance = b + c, acct_reserved = v,
        acct_lifetime_spent = l, acct_last_updated = clock s n\<rparr> ?s1 =
      (if b + c < 10 ^ 12 then (Inr (), put_credit u (b + c) v l now' (?s1\<lparr>tick := n'\<rparr>))
       else (Inl (DatabaseError ''update_account''), ?s1\<lparr>tick := n'\<rparr>))"
    using store_run [of ?s1 u r "b + c" v l "clock s n"] assms(1,5) row uniq ok
    by (auto simp: amount_ok_money money_add amount_ok_add_iff)
  then have "mgr_apply_credits D (sql_credit_repository D) x c s =
      (if b + c < 10 ^ 12 then (Inr (b + c), put_credit u (b + c) v l now' (ensured u now (s\<lparr>tick := n'\<rparr>)))
       else (Inl (DatabaseError ''update_account''), ensured u now (s\<lparr>tick := n'\<rparr>)))"
    by (simp add: mgr_apply_credits_def andthen_Inr get acct_apply_credits_run acct_ok_amounts ok assms(5)
        andthen_def [of "sql_update_account _ _"])
  with acct row show ?thesis by (rule that)
qed

lemma create_reservation_run:
  assumes "reliable s" "resolves D (res_user_id q) s = Some u" "user_exists u s" "amount_ok (res_amount q)"
    "\<not> res_released q"
  shows "\<exists>n. sql_create_reservation D q s =
    (if row_of rr_id (res_id q) (credit_reservations s) = None
     then (Inr (), open_hold \<lparr>rr_id = res_id q, rr_user = u, rr_rental = res_rental_id q, rr_amount = res_amount q,
             rr_status = ''active'', rr_reserved_at = res_created_at q, rr_expires_at = res_expires_at q,
             rr_released_at = None\<rparr> (s\<lparr>tick := n\<rparr>))
     else (Inl (DatabaseError ''create_reservation''), s\<lparr>tick := n\<rparr>))"
proof -
  obtain n where req: "require_user_uuid D (res_user_id q) s = (Inr u, s\<lparr>tick := n\<rparr>)"
    using require_run [OF assms(1,2)] by auto
  show ?thesis
    by (rule exI [of _ "Suc n"])
       (use assms in \<open>simp add: sql_create_reservation_def andthen_Inr req reliable_sql insert_reservation_row_def
          numeric_amount open_hold_def reservation_status_def\<close>)
qed

lemma mgr_reserve_run:
  assumes "reliable s" "credit_db_ok s" "resolves D x s = Some u" "user_exists u s" "amount_ok c"
  obtains n now now' b v l r q where "acct_of (ledger_of s) u = (b, v, l)"
    "row_of cr_user u (credits (ensured u now s)) = Some r"
    "rr_user q = u" "rr_amount q = c" "\<not> hold_closed q"
    "rr_expires_at q = rr_reserved_at q + d" "rr_rental q = rid"
    "mgr_reserve_credits D (sql_credit_repository D) x c d rid s =
       (if max 0 (b - v) < c then (Inl (InsufficientBalance (max 0 (b - v)) c), ensured u now (s\<lparr>tick := n\<rparr>))
        else if row_of rr_id (rr_id q) (credit_reservations s) \<noteq> None
        then (Inl (DatabaseError ''create_reservation''), ensured u now (s\<lparr>tick := n\<rparr>))
        else (Inr (rr_id q), put_credit u b (v + c) l now' (open_hold q (ensured u now (s\<lparr>tick := n\<rparr>)))))"
proof -
  obtain n now b v l t r where get: "get_or_create_account (sql_credit_repository D) x s =
       (Inr \<lparr>acct_user_id = show_uuid D u, acct_balance = b, acct_reserved = v, acct_lifetime_spent = l,
             acct_last_updated = t\<rparr>, ensured u now (s\<lparr>tick := n\<rparr>))" (is "_ = (Inr ?a, _)")
    and acct: "acct_of (ledger_of s) u = (b, v, l)" and ok: "amount_ok b" "amount_ok v" "amount_ok l"
    and row: "row_of cr_user u (credits (ensured u now s)) = Some r"
    and uniq: "unique_key cr_user (credits (ensured u now s))"
    using account_ready [OF assms(1-4)] by metis
  let ?s1 = "ensured u now (s\<lparr>tick := Suc (Suc (Suc n))\<rparr>)"
  let ?id = "uuid_src s (Suc n)" and ?t0 = "clock s n" and ?t1 = "clock s (Suc (Suc n))"
  let ?q = "\<lparr>rr_id = ?id, rr_user = u, rr_rental = rid, rr_amount = c, rr_status = ''active'',
    rr_reserved_at = ?t0, rr_expires_at = ?t0 + d, rr_released_at = None\<rparr>"
  let ?res = "\<lparr>res_id = ?id, res_user_id = x, res_rental_id = rid, res_amount = c, res_created_at = ?t0,
    res_expires_at = ?t0 + d, res_released = False, res_metadata = []\<rparr>"
  have exists1: "user_exists u ?s1" using assms(4) by (simp add: user_exists_def)
  obtain n1 where create: "sql_create_reservation D ?res ?s1 =
      (if row_of rr_id ?id (credit_reservations s) = None
       then (Inr (), open_hold ?q (?s1\<lparr>tick := n1\<rparr>))
       else (Inl (DatabaseError ''create_reservation''), ?s1\<lparr>tick := n1\<rparr>))"
    using create_reservation_run [of ?s1 ?res u] assms(1,3,5) exists1 by (auto cong: if_cong)
  let ?s2 = "open_hold ?q (?s1\<lparr>tick := n1\<rparr>)"
  obtain n2 now' where store: "sql_update_account D \<lparr>acct_user_id = show_uuid D u, acct_balance = b,
        acct_reserved = v + c, acct_lifetime_spent = l, acct_last_updated = ?t1\<rparr> ?s2 =
      (if amount_ok (v + c) then (Inr (), put_credit u b (v + c) l now' (?s2\<lparr>tick := n2\<rparr>))
       else (Inl (DatabaseError ''update_account''), ?s2\<lparr>tick := n2\<rparr>))"
    using store_run [of ?s2 u r b "v + c" l ?t1] assms(1,5) row uniq ok
    by (auto simp: amount_ok_money money_add)
  have fits: "amount_ok (v + c)" if "\<not> max 0 (b - v) < c"
    using that ok assms(5) by (auto simp: amount_ok_def dec6_add max_def split: if_splits)
  have tick2: "?s2\<lparr>tick := n2\<rparr> = open_hold ?q (ensured u now (s\<lparr>tick := n2\<rparr>))"
    by simp
  show ?thesis
  proof (cases "max 0 (b - v) < c")
    case True
    then have "(c \<le> max 0 (b - v)) = False" by (simp only: not_le [symmetric] simp_thms)
    then have "mgr_reserve_credits D (sql_credit_repository D) x c d rid s =
        (Inl (InsufficientBalance (max 0 (b - v)) c), ensured u now (s\<lparr>tick := n\<rparr>))"
      by (simp add: mgr_reserve_credits_def andthen_Inr get can_reserve_eq available_balance_eq acct_ok_amounts ok)
    with True show ?thesis by (intro that [OF acct row, of ?q]) (simp_all add: hold_closed_def)
  next
    case False
    then have le: "(c \<le> max 0 (b - v)) = True" by (simp only: not_le [symmetric] simp_thms)
    note run = le mgr_reserve_credits_def andthen_Inr get can_reserve_eq available_balance_eq acct_ok_amounts ok
      acct_reserve_credits_run assms(5)
    show ?thesis
    proof (cases "row_of rr_id ?id (credit_reservations s)")
      case None
      with False have "mgr_reserve_credits D (sql_credit_repository D) x c d rid s =
          (Inr ?id, put_credit u b (v + c) l now' (open_hold ?q (ensured u now (s\<lparr>tick := n2\<rparr>))))"
        using create store by (simp add: run fits tick2)
      with False None show ?thesis
        by (intro that [OF acct row, of ?q n2 now']) (simp_all add: hold_closed_def)
    next
      case (Some q)
      with False have "mgr_reserve_credits D (sql_credit_repository D) x c d rid s =
          (Inl (DatabaseError ''create_reservation''), ensured u now (s\<lparr>tick := n1\<rparr>))"
        using create by (simp add: run andthen_Inl)
      with False Some show ?thesis
        by (intro that [OF acct row, of ?q n1]) (simp_all add: hold_closed_def)
    qed
  qed
qed

lemma missing_reservation_run:
  assumes "reliable s" "row_of rr_id i (credit_reservations s) = None"
  shows "\<exists>n. mgr_release_reservation D (sql_credit_repository D) i s = (Inl (ReservationNotFound i), s\<lparr>tick := n\<rparr>)"
    and "\<exists>n. mgr_charge_from_reservation D (sql_credit_repository D) i y s = (Inl (ReservationNotFound i), s\<lparr>tick := n\<rparr>)"
  using assms
  by (auto simp: mgr_release_reservation_def mgr_charge_from_reservation_def get_reservation_run andthen_def)

lemma closed_reservation_run:
  assumes "reliable s" "row_of rr_id i (credit_reservations s) = Some q" "hold_closed q"
  shows "\<exists>n. mgr_release_reservation D (sql_credit_repository D) i s =
      (Inl (ReservationAlreadyReleased i), s\<lparr>tick := n\<rparr>)"
    and "\<exists>n. mgr_charge_from_reservation D (sql_credit_repository D) i y s =
      (Inl (ReservationAlreadyReleased i), s\<lparr>tick := n\<rparr>)"
  using assms
  by (auto simp: mgr_release_reservation_def mgr_charge_from_reservation_def get_reservation_run andthen_def
      reservation_of_row_def)

lemma open_reservation_run:
  assumes "reliable s" "credit_db_ok s" "row_of rr_id i (credit_reservations s) = Some q" "\<not> hold_closed q"
  obtains res now n where "sql_get_reservation D i s = (Inr (Some res), s\<lparr>tick := Suc (tick s)\<rparr>)"
    "\<not> res_released res" "res_amount res = rr_amount q" "res_user_id res = show_uuid D (rr_user q)"
    "sql_update_reservation D (res\<lparr>res_released := True\<rparr>) (s\<lparr>tick := Suc (tick s)\<rparr>) = (Inr (), close_hold i now (s\<lparr>tick := n\<rparr>))"
proof -
  let ?res = "reservation_of_row D hold_closed q"
  have q: "rr_id q = i" "amount_ok (rr_amount q)"
    using row_of_Some [OF assms(3)] credit_db_ok_reservation [OF assms(2,3)] by auto
  obtain n now where "sql_update_reservation D (?res\<lparr>res_released := True\<rparr>) (s\<lparr>tick := Suc (tick s)\<rparr>) =
      (Inr (), close_hold i now (s\<lparr>tick := n\<rparr>))"
    using update_reservation_run [of "s\<lparr>tick := Suc (tick s)\<rparr>" "?res\<lparr>res_released := True\<rparr>" q D] assms q
    by (auto simp: reservation_of_row_def)
  with assms q show ?thesis
    by (intro that [of ?res])
       (auto simp: get_reservation_run reservation_of_row_def from_decimal_id amount_ok_credit_ok)
qed

lemma account_after_close:
  assumes "reliable s" "credit_db_ok s" "row_of cr_user u (credits s) = Some r"
  shows "\<exists>n'. sql_get_account D (show_uuid D u) (close_hold i now (s\<lparr>tick := n\<rparr>)) =
    (Inr (Some \<lparr>acct_user_id = show_uuid D u, acct_balance = cr_balance r, acct_reserved = cr_reserved r,
       acct_lifetime_spent = cr_spent r, acct_last_updated = cr_updated r\<rparr>), close_hold i now (s\<lparr>tick := n'\<rparr>))"
  using get_account_run [of "close_hold i now (s\<lparr>tick := n\<rparr>)" D "show_uuid D u" u] assms
    credit_db_ok_row [OF assms(2,3)] row_of_Some [OF assms(3)]
  by (auto simp: account_of_row_eq)

lemma no_account_after_close:
  assumes "reliable s" "row_of cr_user u (credits s) = None"
  shows "\<exists>n'. sql_get_account D (show_uuid D u) (close_hold i now (s\<lparr>tick := n\<rparr>)) =
    (Inr None, close_hold i now (s\<lparr>tick := n'\<rparr>))"
  using get_account_run [of "close_hold i now (s\<lparr>tick := n\<rparr>)" D "show_uuid D u" u] assms by auto

lemma orphan_reservation_run:
  assumes "reliable s" "credit_db_ok s" "row_of rr_id i (credit_reservations s) = Some q" "\<not> hold_closed q"
    and "row_of cr_user (rr_user q) (credits s) = None"
  shows "\<exists>n now. mgr_release_reservation D (sql_credit_repository D) i s =
      (Inl (UserNotFound (show_uuid D (rr_user q))), close_hold i now (s\<lparr>tick := n\<rparr>))"
    and "\<exists>n now. mgr_charge_from_reservation D (sql_credit_repository D) i y s =
      (Inl (UserNotFound (show_uuid D (rr_user q))), close_hold i now (s\<lparr>tick := n\<rparr>))"
proof -
  obtain res now n where run: "sql_get_reservation D i s = (Inr (Some res), s\<lparr>tick := Suc (tick s)\<rparr>)"
    "\<not> res_released res" "res_amount res = rr_amount q" "res_user_id res = show_uuid D (rr_user q)"
    "sql_update_reservation D (res\<lparr>res_released := True\<rparr>) (s\<lparr>tick := Suc (tick s)\<rparr>) = (Inr (), close_hold i now (s\<lparr>tick := n\<rparr>))"
    using open_reservation_run [OF assms(1-4)] by metis
  obtain n' where "sql_get_account D (show_uuid D (rr_user q)) (close_hold i now (s\<lparr>tick := n\<rparr>)) =
    (Inr None, close_hold i now (s\<lparr>tick := n'\<rparr>))"
    using no_account_after_close [OF assms(1,5)] by metis
  with run show "\<exists>n now. mgr_release_reservation D (sql_credit_repository D) i s =
      (Inl (UserNotFound (show_uuid D (rr_user q))), close_hold i now (s\<lparr>tick := n\<rparr>))"
    and "\<exists>n now. mgr_charge_from_reservation D (sql_credit_repository D) i y s =
      (Inl (UserNotFound (show_uuid D (rr_user q))), close_hold i now (s\<lparr>tick := n\<rparr>))"
    by (auto simp: mgr_release_reservation_def mgr_charge_from_reservation_def andthen_def)
qed

lemma mgr_release_run:
  assumes "reliable s" "credit_db_ok s" "row_of rr_id i (credit_reservations s) = Some q" "\<not> hold_closed q"
    and "row_of cr_user (rr_user q) (credits s) = Some r"
  shows "\<exists>n now now'. mgr_release_reservation D (sql_credit_repository D) i s =
    (Inr (rr_amount q), put_credit (rr_user q) (cr_balance r) (max 0 (cr_reserved r - rr_amount q)) (cr_spent r) now'
       (close_hold i now (s\<lparr>tick := n\<rparr>)))"
proof -
  let ?u = "rr_user q" and ?v = "max 0 (cr_reserved r - rr_amount q)"
  have r: "amount_ok (cr_balance r)" "amount_ok (cr_reserved r)" "amount_ok (cr_spent r)"
    using credit_db_ok_row [OF assms(2,5)] by (simp_all add: credit_row_ok_def)
  have q: "amount_ok (rr_amount q)" using credit_db_ok_reservation [OF assms(2,3)] .
  obtain res now n where run: "sql_get_reservation D i s = (Inr (Some res), s\<lparr>tick := Suc (tick s)\<rparr>)"
    "\<not> res_released res" "res_amount res = rr_amount q" "res_user_id res = show_uuid D ?u"
    "sql_update_reservation D (res\<lparr>res_released := True\<rparr>) (s\<lparr>tick := Suc (tick s)\<rparr>) = (Inr (), close_hold i now (s\<lparr>tick := n\<rparr>))"
    using open_reservation_run [OF assms(1-4)] by metis
  obtain n1 where get: "sql_get_account D (show_uuid D ?u) (close_hold i now (s\<lparr>tick := n\<rparr>)) =
    (Inr (Some \<lparr>acct_user_id = show_uuid D ?u, acct_balance = cr_balance r, acct_reserved = cr_reserved r,
       acct_lifetime_spent = cr_spent r, acct_last_updated = cr_updated r\<rparr>), close_hold i now (s\<lparr>tick := n1\<rparr>))"
    using account_after_close [OF assms(1,2,5)] by metis
  obtain n2 now' where store: "sql_update_account D \<lparr>acct_user_id = show_uuid D ?u, acct_balance = cr_balance r,
       acct_reserved = ?v, acct_lifetime_spent = cr_spent r, acct_last_updated = clock s n1\<rparr>
       (close_hold i now (s\<lparr>tick := Suc n1\<rparr>)) =
     (Inr (), put_credit ?u (cr_balance r) ?v (cr_spent r) now' (close_hold i now (s\<lparr>tick := n2\<rparr>)))"
    using store_run [of "close_hold i now (s\<lparr>tick := Suc n1\<rparr>)" ?u r "cr_balance r" ?v "cr_spent r" "clock s n1"] assms r q
    by (auto simp: amount_ok_money amount_ok_max_diff credit_db_ok_def)
  show ?thesis
    using run get store
    by (auto simp: mgr_release_reservation_def andthen_Inr acct_release_reservation_run acct_ok_amounts r q)
qed

lemma mgr_charge_hold_run:
  assumes "reliable s" "credit_db_ok s" "row_of rr_id i (credit_reservations s) = Some q" "\<not> hold_closed q"
    and "row_of cr_user (rr_user q) (credits s) = Some r" and y: "amount_ok y"
  shows "\<exists>n now now'. mgr_charge_from_reservation D (sql_credit_repository D) i y s =
    (if cr_balance r < y
     then (Inl (InsufficientBalance (cr_balance r) y), close_hold i now (s\<lparr>tick := n\<rparr>))
     else if 10 ^ 12 \<le> cr_spent r + y
     then (Inl (DatabaseError ''update_account''), close_hold i now (s\<lparr>tick := n\<rparr>))
     else (Inr (cr_balance r - y), put_credit (rr_user q) (cr_balance r - y) (max 0 (cr_reserved r - rr_amount q))
             (cr_spent r + y) now' (close_hold i now (s\<lparr>tick := n\<rparr>))))"
proof -
  let ?u = "rr_user q" and ?v = "max 0 (cr_reserved r - rr_amount q)"
  have r: "amount_ok (cr_balance r)" "amount_ok (cr_reserved r)" "amount_ok (cr_spent r)"
    using credit_db_ok_row [OF assms(2,5)] by (simp_all add: credit_row_ok_def)
  have q: "amount_ok (rr_amount q)" using credit_db_ok_reservation [OF assms(2,3)] .
  obtain res now n where run: "sql_get_reservation D i s = (Inr (Some res), s\<lparr>tick := Suc (tick s)\<rparr>)"
    "\<not> res_released res" "res_amount res = rr_amount q" "res_user_id res = show_uuid D ?u"
    "sql_update_reservation D (res\<lparr>res_released := True\<rparr>) (s\<lparr>tick := Suc (tick s)\<rparr>) = (Inr (), close_hold i now (s\<lparr>tick := n\<rparr>))"
    using open_reservation_run [OF assms(1-4)] by metis
  obtain n1 where get: "sql_get_account D (show_uuid D ?u) (close_hold i now (s\<lparr>tick := n\<rparr>)) =
    (Inr (Some \<lparr>acct_user_id = show_uuid D ?u, acct_balance = cr_balance r, acct_reserved = cr_reserved r,
       acct_lifetime_spent = cr_spent r, acct_last_updated = cr_updated r\<rparr>), close_hold i now (s\<lparr>tick := n1\<rparr>))"
    using account_after_close [OF assms(1,2,5)] by metis
  note start = mgr_charge_from_reservation_def andthen_Inr acct_charge_from_reservation_run acct_ok_amounts r q y
  show ?thesis
  proof (cases "y \<le> cr_balance r")
    case False
    with run get show ?thesis by (auto simp: start)
  next
    case True
    obtain n2 now' where store: "sql_update_account D \<lparr>acct_user_id = show_uuid D ?u, acct_balance = cr_balance r - y,
       acct_reserved = ?v, acct_lifetime_spent = cr_spent r + y, acct_last_updated = clock s (Suc n1)\<rparr>
       (close_hold i now (s\<lparr>tick := Suc (Suc n1)\<rparr>)) =
      (if cr_spent r + y < 10 ^ 12
       then (Inr (), put_credit ?u (cr_balance r - y) ?v (cr_spent r + y) now' (close_hold i now (s\<lparr>tick := n2\<rparr>)))
       else (Inl (DatabaseError ''update_account''), close_hold i now (s\<lparr>tick := n2\<rparr>)))"
      using store_run [of "close_hold i now (s\<lparr>tick := Suc (Suc n1)\<rparr>)" ?u r "cr_balance r - y" ?v "cr_spent r + y"
          "clock s (Suc n1)"] assms r q True
      by (auto simp: amount_ok_money amount_ok_max_diff amount_ok_add_iff amount_ok_diff money_add credit_db_ok_def cong: if_cong)
    with True run get show ?thesis
      by (auto simp: start andthen_def [of "sql_update_account _ _"] not_less)
  qed
qed

lemma mgr_charge_run:
  assumes "reliable s" "credit_db_ok s" "resolves D x s = Some u" and y: "amount_ok y"
    and row: "row_of cr_user u (credits s) = Some r"
  shows "\<exists>n now'. mgr_charge_credits D (sql_credit_repository D) x y s =
    (if cr_balance r < y then (Inl (InsufficientBalance (cr_balance r) y), s\<lparr>tick := n\<rparr>)
     else if 10 ^ 12 \<le> cr_spent r + y then (Inl (DatabaseError ''update_account''), s\<lparr>tick := n\<rparr>)
     else (Inr (cr_balance r - y),
           put_credit u (cr_balance r - y) (cr_reserved r) (cr_spent r + y) now' (s\<lparr>tick := n\<rparr>)))"
proof -
  have r: "amount_ok (cr_balance r)" "amount_ok (cr_reserved r)" "amount_ok (cr_spent r)" "cr_user r = u"
    using credit_db_ok_row [OF assms(2) row] row_of_Some [OF row] by (simp_all add: credit_row_ok_def)
  obtain n1 where get: "sql_get_account D x s =
    (Inr (Some \<lparr>acct_user_id = show_uuid D u, acct_balance = cr_balance r, acct_reserved = cr_reserved r,
       acct_lifetime_spent = cr_spent r, acct_last_updated = cr_updated r\<rparr>), s\<lparr>tick := n1\<rparr>)"
    using get_account_run [OF assms(1,3)] row r credit_db_ok_row [OF assms(2) row] by (auto simp: account_of_row_eq)
  note start = mgr_charge_credits_def andthen_Inr acct_charge_run acct_ok_amounts r y
  show ?thesis
  proof (cases "y \<le> cr_balance r")
    case False
    with get show ?thesis by (auto simp: start)
  next
    case True
    obtain n2 now' where "sql_update_account D \<lparr>acct_user_id = show_uuid D u, acct_balance = cr_balance r - y,
       acct_reserved = cr_reserved r, acct_lifetime_spent = cr_spent r + y, acct_last_updated = clock s n1\<rparr>
       (s\<lparr>tick := Suc n1\<rparr>) =
      (if cr_spent r + y < 10 ^ 12
       then (Inr (), put_credit u (cr_balance r - y) (cr_reserved r) (cr_spent r + y) now' (s\<lparr>tick := n2\<rparr>))
       else (Inl (DatabaseError ''update_account''), s\<lparr>tick := n2\<rparr>))"
      using store_run [of "s\<lparr>tick := Suc n1\<rparr>" u r "cr_balance r - y" "cr_reserved r" "cr_spent r + y" "clock s n1"]
        assms r True
      by (auto simp: amount_ok_money amount_ok_add_iff amount_ok_diff money_add credit_db_ok_def cong: if_cong)
    with True get show ?thesis
      by (auto simp: start andthen_def [of "sql_update_account _ _"] not_less)
  qed
qed

end

subsection \<open>Refinement of the ledger\<close>

lemma lg_hold_row: "lg_hold (ledger_of s) i = map_option (\<lambda>r. (rr_user r, rr_amount r, hold_closed r))
    (row_of rr_id i (credit_reservations s))"
  by (simp add: ledger_of_def)

lemma lg_acct_row: "lg_acct (ledger_of s) u = map_option (\<lambda>r. (cr_balance r, cr_reserved r, cr_spent r))
    (row_of cr_user u (credits s))"
  by (simp add: ledger_of_def)

lemma set_acct_hold [simp]: "set_acct u x (set_hold i y (set_acct u z L)) = set_acct u x (set_hold i y L)"
  by (simp add: set_acct_def set_hold_def)

lemma set_hold_acct [simp]: "lg_hold (set_acct u x L) = lg_hold L"
  by (simp add: set_acct_def)

text \<open>A state with one user, a balance of 100 credits and 30 of them held by reservation 7.\<close>

definition demo_account :: credit_row where
  "demo_account = \<lparr>cr_user = 2, cr_balance = 100, cr_reserved = 30, cr_spent = 0, cr_updated = 0\<rparr>"

definition demo_hold :: reservation_row where
  "demo_hold = \<lparr>rr_id = 7, rr_user = 2, rr_rental = None, rr_amount = 30, rr_status = ''active'',
     rr_reserved_at = 0, rr_expires_at = 3600, rr_released_at = None\<rparr>"

definition demo_db :: credit_db where
  "demo_db =
     \<lparr>tick = 0, clock = int, uuid_src = (\<lambda>n. n + 100), db_outcome = (\<lambda>_. Done),
      users = [\<lparr>usr_id = 2, usr_external = ''alice''\<rparr>], credits = [demo_account],
      credit_reservations = [demo_hold], billing_events = []\<rparr>"

lemma demo_rows: "row_of cr_user 2 (credits demo_db) = Some demo_account"
    "row_of rr_id 7 (credit_reservations demo_db) = Some demo_hold" "\<not> hold_closed demo_hold"
    "rr_user demo_hold = 2" "rr_amount demo_hold = 30" "cr_balance demo_account = 100"
    "cr_reserved demo_account = 30" "cr_spent demo_account = 0"
  by (simp_all add: demo_db_def demo_account_def demo_hold_def hold_closed_def)

lemma dec6_numeral [simp, intro]: "dec6 (numeral k)"
  by (simp add: dec6_def)

lemma demo_db_ok: "reliable demo_db" "credit_db_ok demo_db" "user_exists 2 demo_db"
    "resolves bankers_pg ''alice'' demo_db = Some 2"
  by (simp_all add: demo_db_def demo_account_def demo_hold_def reliable_def credit_db_ok_def user_exists_def unique_key_def credit_row_ok_def
      reservation_row_ok_def amount_ok_def resolves_def parse_id_def)

lemma ledger_demo: "lg_acct (ledger_of demo_db) 2 = Some (100, 30, 0)"
    "lg_hold (ledger_of demo_db) 7 = Some (2, 30, False)"
  by (simp_all add: ledger_of_def demo_rows)





text \<open>C5: \<open>release_reservation\<close> closes an open hold and takes its amount off the reserved credits, once:
  an unknown or closed reservation is refused without any change.\<close>

theorem release_reservation_refines:
  assumes "billing_platform D" "reliable s" "credit_db_ok s"
  shows "map_prod id ledger_of (mgr_release_reservation D (sql_credit_repository D) i s) =
    ledger_release (show_uuid D) i (ledger_of s)"
proof (cases "row_of rr_id i (credit_reservations s)")
  case None
  with billing_platform.missing_reservation_run(1) [OF assms(1,2) None] show ?thesis
    by (auto simp: ledger_release_def lg_hold_row)
next
  case (Some q)
  note q = this
  show ?thesis
  proof (cases "hold_closed q")
    case True
    with q billing_platform.closed_reservation_run(1) [OF assms(1,2) q True] show ?thesis
      by (auto simp: ledger_release_def lg_hold_row)
  next
    case False
    show ?thesis
    proof (cases "row_of cr_user (rr_user q) (credits s)")
      case None
      with q False billing_platform.orphan_reservation_run(1) [OF assms q False None] show ?thesis
        by (auto simp: ledger_release_def lg_hold_row lg_acct_row)
    next
      case (Some r)
      with q False billing_platform.mgr_release_run [OF assms q False Some] show ?thesis
        by (auto simp: ledger_release_def lg_hold_row lg_acct_row)
    qed
  qed
qed

theorem release_reservation_refines_witness:
  "map_prod id ledger_of (mgr_release_reservation bankers_pg (sql_credit_repository bankers_pg) 7 demo_db) =
     (Inr 30, set_acct 2 (100, 0, 0) (set_hold 7 (2, 30, True) (ledger_of demo_db)))"
  using release_reservation_refines [OF bankers_pg.billing_platform_axioms demo_db_ok(1,2), of 7]
  by (simp add: ledger_release_def ledger_demo)

text \<open>C3: \<open>charge_from_reservation\<close> closes the hold, takes the actual cost off the balance, gives the
  hold's amount back and adds the cost to the credits spent. When the balance is too low the hold
  is closed all the same, and the reserved amount keeps what it held.\<close>

theorem charge_from_reservation_refines:
  assumes "billing_platform D" "reliable s" "credit_db_ok s" "amount_ok y"
  shows "map_prod id ledger_of (mgr_charge_from_reservation D (sql_credit_repository D) i y s) =
    ledger_charge_hold (show_uuid D) i y (ledger_of s)"
proof (cases "row_of rr_id i (credit_reservations s)")
  case None
  with billing_platform.missing_reservation_run(2) [OF assms(1,2) None, of y] show ?thesis
    by (auto simp: ledger_charge_hold_def lg_hold_row)
next
  case (Some q)
  note q = this
  show ?thesis
  proof (cases "hold_closed q")
    case True
    with q billing_platform.closed_reservation_run(2) [OF assms(1,2) q True, of y] show ?thesis
      by (auto simp: ledger_charge_hold_def lg_hold_row)
  next
    case False
    show ?thesis
    proof (cases "row_of cr_user (rr_user q) (credits s)")
      case None
      with q False billing_platform.orphan_reservation_run(2) [OF assms(1-3) q False None, of y] show ?thesis
        by (auto simp: ledger_charge_hold_def lg_hold_row lg_acct_row Let_def)
    next
      case (Some r)
      with q False billing_platform.mgr_charge_hold_run [OF assms(1-3) q False Some assms(4)] show ?thesis
        by (auto simp: ledger_charge_hold_def lg_hold_row lg_acct_row Let_def)
    qed
  qed
qed

theorem charge_from_reservation_refines_witness:
  "map_prod id ledger_of (mgr_charge_from_reservation bankers_pg (sql_credit_repository bankers_pg) 7 12 demo_db) =
     (Inr 88, set_acct 2 (88, 0, 12) (set_hold 7 (2, 30, True) (ledger_of demo_db)))"
  using charge_from_reservation_refines [OF bankers_pg.billing_platform_axioms demo_db_ok(1,2), of 12 7]
  by (simp add: amount_ok_def ledger_charge_hold_def ledger_demo)

end
