(* ===== verification/Credit_Calls.thy ===== *)
theory Credit_Calls
  imports Credit_Ledger
begin

section \<open>Billing: histories of credit calls\<close>

text \<open>
  Properties of sequences of credit operations: under every pattern of lost and unacknowledged
  statements the tables stay well formed (\<open>credit_tables_safe\<close>); while every statement is carried
  out, the reserved credits of an account are the sum of its open reservations
  (\<open>reserved_is_sum_of_holds\<close>, \<open>cleanup_releases_expired\<close>). The last section shows the three
  ways the code itself parts the two: they are recorded as findings.
\<close>

subsection \<open>Reserved credits and open holds\<close>

lemma held_consistent_keys:
  "held_consistent s \<longleftrightarrow>
     (\<forall>r\<in>set (credits s). cr_reserved r = held (cr_user r) s) \<and>
     rr_user ` set (credit_reservations s) \<subseteq> cr_user ` set (credits s)"
  by (auto simp: held_consistent_def row_of_None)

lemma keys_put [simp]: "cr_user ` set (credits (put_credit u b v l now s)) = cr_user ` set (credits s)"
  unfolding put_credit_def by (simp flip: set_map)

text \<open>Writing the account of \<open>u\<close> makes the tables consistent when the other accounts are and the
  reserved amount written is what the user's open holds add up to.\<close>

lemma held_consistent_put:
  assumes "\<And>r. r \<in> set (credits s) \<Longrightarrow> cr_user r \<noteq> u \<Longrightarrow> cr_reserved r = held (cr_user r) s"
    and "v = held u s" and "rr_user ` set (credit_reservations s) \<subseteq> cr_user ` set (credits s)"
  shows "held_consistent (put_credit u b v l now s)"
  unfolding held_consistent_keys keys_put
  using assms by (auto simp: put_credit_def set_update_where held_def)

lemma held_consistent_reserved:
  "held_consistent s \<Longrightarrow> row_of cr_user u (credits s) = Some r \<Longrightarrow> cr_reserved r = held u s"
  by (auto simp: held_consistent_def dest: row_of_Some)

lemma hold_has_account:
  "held_consistent s \<Longrightarrow> row_of rr_id i (credit_reservations s) = Some q \<Longrightarrow>
     \<exists>r. row_of cr_user (rr_user q) (credits s) = Some r"
  using row_of_Some [of rr_id i "credit_reservations s" q] by (auto simp: held_consistent_def)

lemma held_consistent_ensured: "held_consistent s \<Longrightarrow> held_consistent (ensured u now s)"
proof (cases "row_of cr_user u (credits s)")
  case None
  assume cons: "held_consistent s"
  have "rr_user r \<noteq> u" if "r \<in> set (credit_reservations s)" for r
    using cons None that by (auto simp: held_consistent_def row_of_None)
  then have "held u s = 0"
    by (auto simp: held_def total_where_def filter_False)
  with cons None show "held_consistent (ensured u now s)"
    by (auto simp: held_consistent_def ensured_def zero_row_def held_def row_of_append split: option.splits)
qed (simp add: ensured_def)

lemma held_ensured [simp]: "held w (ensured u now s) = held w s"
  by (simp add: held_def)

lemma held_ge_hold:
  assumes "credit_db_ok s" "row_of rr_id i (credit_reservations s) = Some q" "\<not> hold_closed q"
  shows "rr_amount q \<le> held (rr_user q) s"
proof -
  have "0 \<le> held (rr_user q) (close_hold i 0 s)"
    unfolding held_def
    by (rule total_where_nonneg)
       (use assms(1) in \<open>auto simp: close_hold_def set_update_where credit_db_ok_def reservation_row_ok_def amount_ok_def\<close>)
  with held_close [OF _ assms(2,3), of "rr_user q" 0] assms(1) show ?thesis
    by (simp add: credit_db_ok_def)
qed

lemma held_consistent_closing:
  assumes "credit_db_ok s" "held_consistent s" "row_of rr_id i (credit_reservations s) = Some q"
    "\<not> hold_closed q" "row_of cr_user (rr_user q) (credits s) = Some r"
  shows "held_consistent (put_credit (rr_user q) b (max 0 (cr_reserved r - rr_amount q)) l now' (close_hold i now (s\<lparr>tick := n\<rparr>)))"
proof (rule held_consistent_put)
  have uniq: "unique_key rr_id (credit_reservations (s\<lparr>tick := n\<rparr>))"
    "row_of rr_id i (credit_reservations (s\<lparr>tick := n\<rparr>)) = Some q"
    using assms(1,3) by (simp_all add: credit_db_ok_def)
  note close = held_close [OF uniq assms(4), of _ now]
  show "max 0 (cr_reserved r - rr_amount q) = held (rr_user q) (close_hold i now (s\<lparr>tick := n\<rparr>))"
    using held_ge_hold [OF assms(1,3,4)] held_consistent_reserved [OF assms(2,5)] by (simp add: close)
  show "cr_reserved r' = held (cr_user r') (close_hold i now (s\<lparr>tick := n\<rparr>))"
    if "r' \<in> set (credits (close_hold i now (s\<lparr>tick := n\<rparr>)))" "cr_user r' \<noteq> rr_user q" for r'
    using that assms(2) by (simp add: close held_consistent_def)
  show "rr_user ` set (credit_reservations (close_hold i now (s\<lparr>tick := n\<rparr>))) \<subseteq>
      cr_user ` set (credits (close_hold i now (s\<lparr>tick := n\<rparr>)))"
    using assms(2) by (auto simp: held_consistent_keys close_hold_def set_update_where)
qed

subsection \<open>Calls, and runs of calls\<close>

text \<open>The calls that change credits, of \<open>CreditManager\<close> and of the repository itself.\<close>

datatype credit_call =
    CallBalance user_id
  | CallApply user_id rat
  | CallReserve user_id rat time "rental_id option"
  | CallRelease reservation_id
  | CallCharge user_id rat
  | is_CallChargeReservation: CallChargeReservation reservation_id rat
  | CallCleanup
  | CallRepoBalance user_id rat
  | CallRepoRelease reservation_id
  | CallRepoReserve user_id rat rental_id
  | CallRepoDeduct user_id rat

fun credit_exec :: "'d billing_ops_scheme \<Rightarrow> credit_call \<Rightarrow> ('z, unit) credit_prog" where
  "credit_exec D (CallBalance x) = andthen (mgr_get_balance D (sql_credit_repository D) x) (\<lambda>_. ok ())"
| "credit_exec D (CallApply x c) = andthen (mgr_apply_credits D (sql_credit_repository D) x c) (\<lambda>_. ok ())"
| "credit_exec D (CallReserve x c d r) =
     andthen (mgr_reserve_credits D (sql_credit_repository D) x c d r) (\<lambda>_. ok ())"
| "credit_exec D (CallRelease i) = andthen (mgr_release_reservation D (sql_credit_repository D) i) (\<lambda>_. ok ())"
| "credit_exec D (CallCharge x c) = andthen (mgr_charge_credits D (sql_credit_repository D) x c) (\<lambda>_. ok ())"
| "credit_exec D (CallChargeReservation i c) =
     andthen (mgr_charge_from_reservation D (sql_credit_repository D) i c) (\<lambda>_. ok ())"
| "credit_exec D CallCleanup = andthen (mgr_cleanup_expired_reservations D (sql_credit_repository D)) (\<lambda>_. ok ())"
| "credit_exec D (CallRepoBalance x c) = sql_update_balance D x c"
| "credit_exec D (CallRepoRelease i) = sql_release_reservation i"
| "credit_exec D (CallRepoReserve x c r) = andthen (sql_reserve_credits D x c r) (\<lambda>_. ok ())"
| "credit_exec D (CallRepoDeduct x c) = sql_deduct_credits D x c"

fun call_amount_ok :: "credit_call \<Rightarrow> bool" where
  "call_amount_ok (CallApply _ c) = amount_ok c"
| "call_amount_ok (CallReserve _ c _ _) = amount_ok c"
| "call_amount_ok (CallCharge _ c) = amount_ok c"
| "call_amount_ok (CallChargeReservation _ c) = amount_ok c"
| "call_amount_ok (CallRepoBalance _ c) = amount_ok c"
| "call_amount_ok (CallRepoReserve _ c _) = amount_ok c"
| "call_amount_ok (CallRepoDeduct _ c) = amount_ok c"
| "call_amount_ok _ = True"

text \<open>A history: each call runs from what the one before left, whether it failed or not.\<close>

inductive credit_history ::
  "'d billing_ops_scheme \<Rightarrow> 'z credit_db_scheme \<Rightarrow> credit_call list \<Rightarrow> 'z credit_db_scheme \<Rightarrow> bool"
  for D s where
  history_start: "credit_history D s [] s"
| history_step: "credit_history D s cs t \<Longrightarrow> credit_exec D c t = (r, t') \<Longrightarrow> credit_history D s (cs @ [c]) t'"

definition expired_rows :: "time \<Rightarrow> 'z credit_db_scheme \<Rightarrow> reservation_row list" where
  "expired_rows now s = rows_where (\<lambda>r. rr_status r = ''active'' \<and> rr_expires_at r \<le> now) (credit_reservations s)"

text \<open>A reservation as the cleanup reads it, still open in the tables.\<close>

definition matches_open :: "'d billing_ops_scheme \<Rightarrow> 'z credit_db_scheme \<Rightarrow> reservation \<Rightarrow> bool" where
  "matches_open D s x \<longleftrightarrow>
     (\<exists>q. row_of rr_id (res_id x) (credit_reservations s) = Some q \<and> \<not> hold_closed q \<and>
          res_amount x = rr_amount q \<and> res_user_id x = show_uuid D (rr_user q)) \<and> \<not> res_released x"

context billing_platform
begin

lemma credit_exec_keeps: "call_amount_ok c \<Longrightarrow> keeps credit_db_ok (credit_exec D c)"
  by (cases c)
     (auto intro!: keeps_andthen keeps_ok keeps_sql_release_reservation keeps_sql_update_balance
        keeps_sql_reserve_credits keeps_sql_deduct_credits sql_credits.mgr_keeps simp: amount_ok_money)

lemma mgr_charge_no_account:
  assumes "reliable s" "resolves D x s = Some u" "row_of cr_user u (credits s) = None"
  shows "\<exists>n. mgr_charge_credits D (sql_credit_repository D) x y s = (Inl (UserNotFound x), s\<lparr>tick := n\<rparr>)"
  using get_account_run [OF assms(1,2)] assms(3) by (auto simp: mgr_charge_credits_def andthen_def)

lemma cleanup_one_run:
  assumes "reliable s" "credit_db_ok s" "held_consistent s" "matches_open D s x"
  shows "\<exists>t. cleanup_one D (sql_credit_repository D) x s = (Inr (), t) \<and> reliable t \<and> held_consistent t \<and>
     (\<forall>y. res_id y \<noteq> res_id x \<longrightarrow> matches_open D s y \<longrightarrow> matches_open D t y) \<and>
     (\<forall>i. lg_hold (ledger_of t) i =
        (if i = res_id x then map_option (\<lambda>(u, a, _). (u, a, True)) (lg_hold (ledger_of s) i) else lg_hold (ledger_of s) i))"
proof -
  obtain q where q: "row_of rr_id (res_id x) (credit_reservations s) = Some q" "\<not> hold_closed q"
    and x: "res_amount x = rr_amount q" "res_user_id x = show_uuid D (rr_user q)" "\<not> res_released x"
    using assms(4) by (auto simp: matches_open_def)
  let ?u = "rr_user q" and ?i = "res_id x"
  obtain r where row: "row_of cr_user ?u (credits s) = Some r"
    using assms(3) row_of_Some [OF q(1)] by (auto simp: held_consistent_def)
  let ?v = "max 0 (cr_reserved r - rr_amount q)"
  have r: "amount_ok (cr_balance r)" "amount_ok (cr_reserved r)" "amount_ok (cr_spent r)"
    using credit_db_ok_row [OF assms(2) row] by (simp_all add: credit_row_ok_def)
  have amt: "amount_ok (rr_amount q)" using credit_db_ok_reservation [OF assms(2) q(1)] .
  obtain n now where upd: "sql_update_reservation D (x\<lparr>res_released := True\<rparr>) s = (Inr (), close_hold ?i now (s\<lparr>tick := n\<rparr>))"
    using update_reservation_run [of s "x\<lparr>res_released := True\<rparr>" q D] assms(1) q(1) by auto
  obtain n1 where get: "sql_get_account D (show_uuid D ?u) (close_hold ?i now (s\<lparr>tick := n\<rparr>)) =
    (Inr (Some \<lparr>acct_user_id = show_uuid D ?u, acct_balance = cr_balance r, acct_reserved = cr_reserved r,
       acct_lifetime_spent = cr_spent r, acct_last_updated = cr_updated r\<rparr>), close_hold ?i now (s\<lparr>tick := n1\<rparr>))"
    using account_after_close [OF assms(1,2) row] by metis
  obtain n2 now' where store: "sql_update_account D \<lparr>acct_user_id = show_uuid D ?u, acct_balance = cr_balance r,
       acct_reserved = ?v, acct_lifetime_spent = cr_spent r, acct_last_updated = clock s n1\<rparr>
       (close_hold ?i now (s\<lparr>tick := Suc n1\<rparr>)) =
     (Inr (), put_credit ?u (cr_balance r) ?v (cr_spent r) now' (close_hold ?i now (s\<lparr>tick := n2\<rparr>)))"
    using store_run [of "close_hold ?i now (s\<lparr>tick := Suc n1\<rparr>)" ?u r "cr_balance r" ?v "cr_spent r" "clock s n1"]
      assms r amt row
    by (auto simp: amount_ok_money amount_ok_max_diff credit_db_ok_def)
  let ?t = "put_credit ?u (cr_balance r) ?v (cr_spent r) now' (close_hold ?i now (s\<lparr>tick := n2\<rparr>))"
  have run: "cleanup_one D (sql_credit_repository D) x s = (Inr (), ?t)"
    using upd get store x
    by (simp add: cleanup_one_def andthen_Inr attempt_run acct_release_reservation_run acct_ok_amounts r amt)
  moreover have "held_consistent ?t" by (rule held_consistent_closing [OF assms(2,3) q row])
  moreover have "matches_open D ?t y" if "res_id y \<noteq> ?i" "matches_open D s y" for y
    using that by (auto simp: matches_open_def close_hold_def row_of_update_other)
  moreover have "lg_hold (ledger_of ?t) i =
      (if i = ?i then map_option (\<lambda>(u, a, _). (u, a, True)) (lg_hold (ledger_of s) i) else lg_hold (ledger_of s) i)" for i
    using q(1) row by (auto simp: set_hold_def lg_hold_row)
  ultimately show ?thesis using assms(1) by auto
qed

lemma cleanup_loop_run:
  assumes "reliable s" "credit_db_ok s" "held_consistent s" "distinct (map res_id xs)"
    and "\<forall>x\<in>set xs. matches_open D s x"
  shows "\<exists>t. for_each (cleanup_one D (sql_credit_repository D)) xs s = (Inr (), t) \<and> held_consistent t \<and>
     (\<forall>i. lg_hold (ledger_of t) i =
        (if i \<in> res_id ` set xs then map_option (\<lambda>(u, a, _). (u, a, True)) (lg_hold (ledger_of s) i)
         else lg_hold (ledger_of s) i))"
  using assms
proof (induction xs arbitrary: s)
  case Nil
  then show ?case by simp
next
  case (Cons x xs)
  obtain t where run: "cleanup_one D (sql_credit_repository D) x s = (Inr (), t)"
    and t: "reliable t" "held_consistent t"
    and others: "\<And>y. res_id y \<noteq> res_id x \<Longrightarrow> matches_open D s y \<Longrightarrow> matches_open D t y"
    and holds: "\<And>i. lg_hold (ledger_of t) i =
        (if i = res_id x then map_option (\<lambda>(u, a, _). (u, a, True)) (lg_hold (ledger_of s) i) else lg_hold (ledger_of s) i)"
    using cleanup_one_run [of s x] Cons.prems by auto
  obtain q where "row_of rr_id (res_id x) (credit_reservations s) = Some q" "res_amount x = rr_amount q"
    using Cons.prems(5) by (auto simp: matches_open_def)
  then have "amount_ok (res_amount x)" using credit_db_ok_reservation [OF Cons.prems(2)] by metis
  from keepsD [OF sql_credits.cleanup_one_keeps [OF this] Cons.prems(2) run] have "credit_db_ok t" .
  moreover have "\<forall>y\<in>set xs. matches_open D t y"
    using Cons.prems(4,5) others by (auto simp: image_iff)
  ultimately obtain t' where "for_each (cleanup_one D (sql_credit_repository D)) xs t = (Inr (), t')" "held_consistent t'"
    "\<And>i. lg_hold (ledger_of t') i =
        (if i \<in> res_id ` set xs then map_option (\<lambda>(u, a, _). (u, a, True)) (lg_hold (ledger_of t) i)
         else lg_hold (ledger_of t) i)"
    using Cons.IH [of t] t Cons.prems(4) by auto
  with run show ?case
    by (auto simp: andthen_Inr holds option.map_comp o_def split_def)
qed

lemma expired_run:
  assumes "reliable s" "credit_db_ok s"
  obtains xs where "sql_get_expired_reservations D 100 s = (Inr xs, s\<lparr>tick := Suc (tick s)\<rparr>)"
    "distinct (map res_id xs)" "\<forall>x\<in>set xs. matches_open D s x"
    "length xs = min 100 (length (expired_rows (clock s (Suc (tick s))) s))"
    "res_id ` set xs \<subseteq> rr_id ` set (expired_rows (clock s (Suc (tick s))) s)"
proof -
  let ?now = "clock s (Suc (tick s))"
  let ?E = "expired_rows ?now s"
  let ?xs = "map (reservation_of_row D (\<lambda>r. rr_status r = ''released'')) (take 100 (sort_key rr_expires_at ?E))"
  have sub: "set (take 100 (sort_key rr_expires_at ?E)) \<subseteq> set ?E"
    by (metis set_sort set_take_subset)
  have "distinct (map rr_id ?E)"
    using assms(2) by (simp add: expired_rows_def rows_where_def credit_db_ok_def unique_key_def distinct_map_filter)
  then have "distinct (map rr_id (sort_key rr_expires_at ?E))"
    by (simp add: distinct_map)
  then have "distinct (map rr_id (take 100 (sort_key rr_expires_at ?E)))"
    by (simp add: take_map [symmetric] distinct_take)
  then have "distinct (map res_id ?xs)" by (simp add: o_def reservation_of_row_def)
  moreover have "matches_open D s x" if x: "x \<in> set ?xs" for x
  proof -
    obtain q where q: "q \<in> set ?E" "x = reservation_of_row D (\<lambda>r. rr_status r = ''released'') q"
      using x sub by auto
    then have "q \<in> set (credit_reservations s)" "rr_status q = ''active''"
      by (auto simp: expired_rows_def rows_where_def)
    with assms(2) have "row_of rr_id (rr_id q) (credit_reservations s) = Some q" "reservation_row_ok q"
      by (auto simp: credit_db_ok_def intro: unique_key_row_of)
    with q \<open>rr_status q = ''active''\<close> show ?thesis
      by (simp add: matches_open_def reservation_of_row_def reservation_row_ok_def hold_closed_def from_decimal_id
          amount_ok_credit_ok)
  qed
  moreover have "sql_get_expired_reservations D 100 s = (Inr ?xs, s\<lparr>tick := Suc (tick s)\<rparr>)"
    using assms(1) by (simp add: sql_get_expired_reservations_def reliable_sql expired_rows_def)
  moreover have "res_id ` set ?xs \<subseteq> rr_id ` set ?E" using sub by (auto simp: reservation_of_row_def)
  ultimately show ?thesis by (intro that) auto
qed

lemma mgr_cleanup_run:
  assumes "reliable s" "credit_db_ok s" "held_consistent s"
  shows "\<exists>t ids. mgr_cleanup_expired_reservations D (sql_credit_repository D) s = (Inr (card ids), t) \<and>
     held_consistent t \<and> card ids = min 100 (length (expired_rows (clock s (Suc (tick s))) s)) \<and>
     ids \<subseteq> rr_id ` set (expired_rows (clock s (Suc (tick s))) s) \<and>
     (\<forall>i. lg_hold (ledger_of t) i =
        (if i \<in> ids then map_option (\<lambda>(u, a, _). (u, a, True)) (lg_hold (ledger_of s) i) else lg_hold (ledger_of s) i))"
proof -
  obtain xs where xs: "sql_get_expired_reservations D 100 s = (Inr xs, s\<lparr>tick := Suc (tick s)\<rparr>)"
    "distinct (map res_id xs)" "\<forall>x\<in>set xs. matches_open D s x"
    "length xs = min 100 (length (expired_rows (clock s (Suc (tick s))) s))"
    "res_id ` set xs \<subseteq> rr_id ` set (expired_rows (clock s (Suc (tick s))) s)"
    using expired_run [OF assms(1,2)] by metis
  let ?s = "s\<lparr>tick := Suc (tick s)\<rparr>"
  have "\<forall>x\<in>set xs. matches_open D ?s x" using xs(3) by (simp add: matches_open_def)
  then obtain t where t: "for_each (cleanup_one D (sql_credit_repository D)) xs ?s = (Inr (), t)" "held_consistent t"
    "\<And>i. lg_hold (ledger_of t) i =
        (if i \<in> res_id ` set xs then map_option (\<lambda>(u, a, _). (u, a, True)) (lg_hold (ledger_of ?s) i)
         else lg_hold (ledger_of ?s) i)"
    using cleanup_loop_run [of ?s xs] assms xs(2) ticklessD [OF tickless_credit_db_ok] by auto
  have card: "card (res_id ` set xs) = length xs"
    using xs(2) by (metis distinct_card length_map set_map)
  have "mgr_cleanup_expired_reservations D (sql_credit_repository D) s = (Inr (length xs), t)"
    using xs(1) t(1) by (simp add: mgr_cleanup_expired_reservations_def andthen_Inr)
  with t xs card show ?thesis by (intro exI [of _ t] exI [of _ "res_id ` set xs"]) simp
qed

end

subsection \<open>Safety under faults\<close>


text \<open>A connection that drops the third statement.\<close>

definition flaky_db :: credit_db where
  "flaky_db = demo_db\<lparr>db_outcome := (\<lambda>n. if n = 3 then Unacked else Done)\<rparr>"

lemma flaky_db_ok: "credit_db_ok flaky_db"
  using demo_db_ok(2) by (simp add: flaky_db_def credit_db_ok_def user_exists_def)


subsection \<open>The reserved amount is the sum of the open holds\<close>

definition user_known :: "'d billing_ops_scheme \<Rightarrow> user_id \<Rightarrow> 'z credit_db_scheme \<Rightarrow> bool" where
  "user_known D x s \<longleftrightarrow> (case resolves D x s of None \<Rightarrow> False | Some u \<Rightarrow> user_exists u s)"

text \<open>The calls of \<open>CreditManager\<close>, by a user that is registered.\<close>

fun manager_call :: "'d billing_ops_scheme \<Rightarrow> 'z credit_db_scheme \<Rightarrow> credit_call \<Rightarrow> bool" where
  "manager_call D s (CallBalance x) = user_known D x s"
| "manager_call D s (CallApply x _) = user_known D x s"
| "manager_call D s (CallReserve x _ _ _) = user_known D x s"
| "manager_call D s (CallRelease _) = True"
| "manager_call D s (CallCharge x _) = user_known D x s"
| "manager_call D s (CallChargeReservation _ _) = True"
| "manager_call D s CallCleanup = True"
| "manager_call D s _ = False"

lemma snd_then_unit [simp]: "snd (andthen m (\<lambda>_. ok ()) s) = snd (m s)"
  by (simp add: andthen_def split: prod.splits sum.splits)

lemma isl_then_unit [simp]: "isl (fst (andthen m (\<lambda>_. ok ()) s)) = isl (fst (m s))"
  by (simp add: andthen_def split: prod.splits sum.splits)

lemma credit_reservations_open [simp]: "credit_reservations (open_hold q s) = credit_reservations s @ [q]"
  by (simp add: open_hold_def)

context billing_platform
begin

lemma balance_consistent:
  assumes "reliable s" "credit_db_ok s" "held_consistent s" "resolves D x s = Some u" "user_exists u s"
  shows "held_consistent (snd (mgr_get_balance D (sql_credit_repository D) x s))"
  by (rule account_ready [OF assms(1,2,4,5)])
     (simp add: mgr_get_balance_def andthen_Inr held_consistent_ensured assms(3))

lemma apply_consistent:
  assumes "reliable s" "credit_db_ok s" "held_consistent s" "resolves D x s = Some u" "user_exists u s" "amount_ok c"
  shows "held_consistent (snd (mgr_apply_credits D (sql_credit_repository D) x c s))"
proof (rule mgr_apply_run [OF assms(1,2,4-6)])
  fix n now now' b v l r
  assume acct: "acct_of (ledger_of s) u = (b, v, l)" and row: "row_of cr_user u (credits (ensured u now s)) = Some r"
    and run: "mgr_apply_credits D (sql_credit_repository D) x c s =
       (if b + c < 10 ^ 12 then (Inr (b + c), put_credit u (b + c) v l now' (ensured u now (s\<lparr>tick := n\<rparr>)))
        else (Inl (DatabaseError ''update_account''), ensured u now (s\<lparr>tick := n\<rparr>)))"
  let ?t = "ensured u now (s\<lparr>tick := n\<rparr>)"
  have cons: "held_consistent ?t" using assms(3) by (simp add: held_consistent_ensured)
  have "v = held u ?t"
    using held_consistent_reserved [OF cons, of u r] row ensured_row(4) [OF assms(2) row] acct by simp
  with cons have "held_consistent (put_credit u (b + c) v l now' ?t)"
    by (intro held_consistent_put) (auto simp: held_consistent_keys)
  with cons show ?thesis by (simp add: run)
qed

lemma reserve_consistent:
  assumes "reliable s" "credit_db_ok s" "held_consistent s" "resolves D x s = Some u" "user_exists u s" "amount_ok c"
  shows "held_consistent (snd (mgr_reserve_credits D (sql_credit_repository D) x c d rid s))"
proof (rule mgr_reserve_run [OF assms(1,2,4-6), of d rid])
  fix n now now' b v l r q
  assume acct: "acct_of (ledger_of s) u = (b, v, l)" and row: "row_of cr_user u (credits (ensured u now s)) = Some r"
    and q: "rr_user q = u" "rr_amount q = c" "\<not> hold_closed q"
    and run: "mgr_reserve_credits D (sql_credit_repository D) x c d rid s =
       (if max 0 (b - v) < c then (Inl (InsufficientBalance (max 0 (b - v)) c), ensured u now (s\<lparr>tick := n\<rparr>))
        else if row_of rr_id (rr_id q) (credit_reservations s) \<noteq> None
        then (Inl (DatabaseError ''create_reservation''), ensured u now (s\<lparr>tick := n\<rparr>))
        else (Inr (rr_id q), put_credit u b (v + c) l now' (open_hold q (ensured u now (s\<lparr>tick := n\<rparr>)))))"
  let ?t = "ensured u now (s\<lparr>tick := n\<rparr>)"
  have cons: "held_consistent ?t" using assms(3) by (simp add: held_consistent_ensured)
  have "v = held u ?t"
    using held_consistent_reserved [OF cons, of u r] row ensured_row(4) [OF assms(2) row] acct by simp
  moreover have "u \<in> cr_user ` set (credits ?t)" using row_of_Some [of cr_user u "credits ?t" r] row by auto
  ultimately have "held_consistent (put_credit u b (v + c) l now' (open_hold q ?t))"
    using cons q by (intro held_consistent_put) (auto simp: held_consistent_keys held_open credit_reservations_open)
  with cons show ?thesis by (simp add: run)
qed

lemma release_consistent:
  assumes "reliable s" "credit_db_ok s" "held_consistent s"
  shows "held_consistent (snd (mgr_release_reservation D (sql_credit_repository D) i s))"
proof (cases "row_of rr_id i (credit_reservations s)")
  case None
  with missing_reservation_run(1) [OF assms(1) None] assms(3) show ?thesis by auto
next
  case (Some q)
  note q = this
  then obtain r where r: "row_of cr_user (rr_user q) (credits s) = Some r"
    using hold_has_account [OF assms(3)] by blast
  show ?thesis
  proof (cases "hold_closed q")
    case True
    with closed_reservation_run(1) [OF assms(1) q True] assms(3) show ?thesis by auto
  next
    case False
    with mgr_release_run [OF assms(1,2) q False r] held_consistent_closing [OF assms(2,3) q False r] show ?thesis
      by auto
  qed
qed

lemma charge_hold_consistent:
  assumes "reliable s" "credit_db_ok s" "held_consistent s" "amount_ok y"
    and "\<not> isl (fst (mgr_charge_from_reservation D (sql_credit_repository D) i y s))"
  shows "held_consistent (snd (mgr_charge_from_reservation D (sql_credit_repository D) i y s))"
proof (cases "row_of rr_id i (credit_reservations s)")
  case None
  with missing_reservation_run(2) [OF assms(1) None, of y] assms(5) show ?thesis by auto
next
  case (Some q)
  note q = this
  then obtain r where r: "row_of cr_user (rr_user q) (credits s) = Some r"
    using hold_has_account [OF assms(3)] by blast
  show ?thesis
  proof (cases "hold_closed q")
    case True
    with closed_reservation_run(2) [OF assms(1) q True, of y] assms(5) show ?thesis by auto
  next
    case False
    with mgr_charge_hold_run [OF assms(1,2) q False r assms(4)] held_consistent_closing [OF assms(2,3) q False r]
      assms(5)
    show ?thesis by (auto split: if_splits)
  qed
qed

lemma charge_consistent:
  assumes "reliable s" "credit_db_ok s" "held_consistent s" "resolves D x s = Some u" "amount_ok y"
  shows "held_consistent (snd (mgr_charge_credits D (sql_credit_repository D) x y s))"
proof (cases "row_of cr_user u (credits s)")
  case None
  with mgr_charge_no_account [OF assms(1,4) None, of y] assms(3) show ?thesis by auto
next
  case (Some r)
  have "held_consistent (put_credit u b (cr_reserved r) l now (s\<lparr>tick := n\<rparr>))" for b l now n
    using assms(3) held_consistent_reserved [OF assms(3) Some]
    by (intro held_consistent_put) (auto simp: held_consistent_keys)
  with mgr_charge_run [OF assms(1,2,4,5) Some] assms(3) show ?thesis by (auto split: if_splits)
qed

lemma cleanup_consistent:
  assumes "reliable s" "credit_db_ok s" "held_consistent s"
  shows "held_consistent (snd (mgr_cleanup_expired_reservations D (sql_credit_repository D) s))"
  using mgr_cleanup_run [OF assms] by auto

end


lemma demo_consistent: "held_consistent demo_db"
  by (simp add: held_consistent_def held_def demo_db_def demo_hold_def demo_account_def hold_closed_def)


text \<open>C7: the cleanup closes the reservations whose time has passed, at most a hundred of them, returns how
  many it closed, leaves every other reservation as it was and gives back what the closed ones
  held.\<close>

theorem cleanup_releases_expired:
  assumes "billing_platform D" "reliable s" "credit_db_ok s" "held_consistent s"
  shows "\<exists>t ids. mgr_cleanup_expired_reservations D (sql_credit_repository D) s = (Inr (card ids), t) \<and>
     held_consistent t \<and> card ids = min 100 (length (expired_rows (clock s (Suc (tick s))) s)) \<and>
     ids \<subseteq> rr_id ` set (expired_rows (clock s (Suc (tick s))) s) \<and>
     (\<forall>i. lg_hold (ledger_of t) i =
        (if i \<in> ids then map_option (\<lambda>(u, a, _). (u, a, True)) (lg_hold (ledger_of s) i) else lg_hold (ledger_of s) i))"
  by (rule billing_platform.mgr_cleanup_run [OF assms])

text \<open>The state of the example two hours later.\<close>

definition late_db :: credit_db where
  "late_db = demo_db\<lparr>clock := (\<lambda>n. 7200 + int n)\<rparr>"

lemma late_db_ok: "reliable late_db" "credit_db_ok late_db" "held_consistent late_db"
  using demo_db_ok demo_consistent
  by (simp_all add: late_db_def reliable_def credit_db_ok_def held_consistent_def held_def user_exists_def)

theorem cleanup_releases_expired_witness:
  "\<exists>t. mgr_cleanup_expired_reservations bankers_pg (sql_credit_repository bankers_pg) late_db = (Inr 1, t)"
  using cleanup_releases_expired [OF bankers_pg.billing_platform_axioms late_db_ok]
  by (auto simp: expired_rows_def rows_where_def late_db_def demo_db_def demo_hold_def)

subsection \<open>Where reserved credits and open holds part\<close>

text \<open>C8: when the balance does not cover the actual cost, \<open>charge_from_reservation\<close> returns the error
  after it has closed the reservation and before it has lowered the reserved amount: the credits
  stay reserved with no open reservation behind them, and a later release of the same reservation
  is refused.\<close>

theorem failed_charge_strands_credits:
  assumes "billing_platform D" "reliable s" "credit_db_ok s" "held_consistent s" "amount_ok y"
    and q: "row_of rr_id i (credit_reservations s) = Some q" "\<not> hold_closed q"
    and r: "row_of cr_user (rr_user q) (credits s) = Some r" and low: "cr_balance r < y"
  shows "\<exists>t. mgr_charge_from_reservation D (sql_credit_repository D) i y s =
      (Inl (InsufficientBalance (cr_balance r) y), t) \<and>
    row_of cr_user (rr_user q) (credits t) = Some r \<and> cr_reserved r = held (rr_user q) t + rr_amount q \<and>
    fst (mgr_release_reservation D (sql_credit_repository D) i t) = Inl (ReservationAlreadyReleased i)"
proof -
  obtain n now where run: "mgr_charge_from_reservation D (sql_credit_repository D) i y s =
      (Inl (InsufficientBalance (cr_balance r) y), close_hold i now (s\<lparr>tick := n\<rparr>))"
    using billing_platform.mgr_charge_hold_run [OF assms(1-3) q r assms(5)] low by auto
  let ?s = "s\<lparr>tick := n\<rparr>" and ?t = "close_hold i now (s\<lparr>tick := n\<rparr>)"
  have "held (rr_user q) ?t = held (rr_user q) ?s - rr_amount q"
    using held_close [of ?s i q "rr_user q" now] assms(3) q by (simp add: credit_db_ok_def)
  moreover have "row_of rr_id i (credit_reservations ?t) =
      Some (q\<lparr>rr_status := ''released'', rr_released_at := Some now\<rparr>)"
    using q(1) by (simp add: close_hold_def row_of_update_same)
  then obtain n' where "mgr_release_reservation D (sql_credit_repository D) i ?t =
      (Inl (ReservationAlreadyReleased i), ?t\<lparr>tick := n'\<rparr>)"
    using billing_platform.closed_reservation_run(1) [OF assms(1), of ?t i] assms(2)
    by (auto simp: hold_closed_def)
  ultimately show ?thesis
    using run r held_consistent_reserved [OF assms(4) r] by auto
qed

theorem failed_charge_strands_credits_witness:
  "\<exists>t. mgr_charge_from_reservation bankers_pg (sql_credit_repository bankers_pg) 7 150 demo_db =
      (Inl (InsufficientBalance 100 150), t) \<and> held 2 t = 0 \<and>
    fst (mgr_release_reservation bankers_pg (sql_credit_repository bankers_pg) 7 t) = Inl (ReservationAlreadyReleased 7)"
  using failed_charge_strands_credits [OF bankers_pg.billing_platform_axioms demo_db_ok(1,2) demo_consistent, of 150 7
      demo_hold demo_account]
  by (auto simp: amount_ok_def demo_rows)

text \<open>The repository's own \<open>release_reservation\<close>, the one the event handlers call, closes the hold and
  leaves the account as it is: what the hold reserved stays reserved.\<close>

theorem repository_release_keeps_reserved:
  assumes "reliable s" "credit_db_ok s" "held_consistent s"
    and q: "row_of rr_id i (credit_reservations s) = Some q" "\<not> hold_closed q"
    and r: "row_of cr_user (rr_user q) (credits s) = Some r"
  shows "\<exists>t. sql_release_reservation i s = (Inr (), t) \<and> row_of cr_user (rr_user q) (credits t) = Some r \<and>
    cr_reserved r = held (rr_user q) t + rr_amount q"
proof -
  let ?s = "s\<lparr>tick := Suc (tick s)\<rparr>"
  have "sql_release_reservation i s = (Inr (), close_hold i (clock s (Suc (tick s))) ?s)"
    using assms(1) by (simp add: sql_release_reservation_def reliable_sql close_hold_def)
  then show ?thesis
    using held_close [of ?s i q "rr_user q" "clock s (Suc (tick s))"] q r assms(2)
      held_consistent_reserved [OF assms(3) r]
    by (simp add: credit_db_ok_def)
qed

theorem repository_release_keeps_reserved_witness:
  "\<exists>t. sql_release_reservation 7 demo_db = (Inr (), t) \<and> held 2 t = 0"
  using repository_release_keeps_reserved [OF demo_db_ok(1,2) demo_consistent, of 7 demo_hold demo_account]
  by (auto simp: demo_rows)

lemma create_account_unregistered:
  assumes "parse_uuid D x = Some u" "\<not> user_exists u s" "acct_user_id a = x" "credit_db_ok s"
  shows "isl (fst (sql_create_account D a s))"
proof -
  have "row_of cr_user u (credits s) = None"
    using assms(2,4) by (auto simp: credit_db_ok_def row_of_None)
  then have "isl (fst (insert_credit_row D e r' (s\<lparr>tick := n\<rparr>)))" if "cr_user r' = u" for e r' n
    using assms(2) that by (auto simp: insert_credit_row_def split: option.splits)
  then show ?thesis
    using assms(1,3) by (auto simp: sql_create_account_def ensure_user_uuid_def sql_def split: outcome.splits)
qed

text \<open>A user identifier in the form of a UUID that is not registered never gets an account: no user
  is inserted for it and the insertion of the account breaks the foreign key, under every fault
  pattern.\<close>

theorem unregistered_uuid_has_no_account:
  assumes "parse_uuid D x = Some u" "\<not> user_exists u s" "credit_db_ok s"
  shows "isl (fst (mgr_apply_credits D (sql_credit_repository D) x c s))"
proof -
  have none: "row_of cr_user u (credits s) = None"
    using assms(2,3) by (auto simp: credit_db_ok_def row_of_None)
  let ?a = "\<lparr>acct_user_id = x, acct_balance = cb_zero, acct_reserved = cb_zero, acct_lifetime_spent = cb_zero,
    acct_last_updated = clock s (Suc (tick s))\<rparr>"
  have "isl (fst (sql_create_account D ?a (s\<lparr>tick := Suc (Suc (tick s))\<rparr>)))"
    using assms by (intro create_account_unregistered [where u = u]) (simp_all add: ticklessD [OF tickless_credit_db_ok])
  then have "isl (fst (get_or_create_account (sql_credit_repository D) x s))"
    using assms(1) none
    by (auto simp: get_or_create_account_def sql_get_account_def resolve_user_uuid_def sql_def andthen_def
        account_new_def split: outcome.splits sum.splits prod.splits)
  then show ?thesis
    by (auto simp: mgr_apply_credits_def andthen_def [of "get_or_create_account _ _"] split: prod.splits sum.splits)
qed

theorem unregistered_uuid_has_no_account_witness:
  "isl (fst (mgr_apply_credits bankers_pg (sql_credit_repository bankers_pg) ''uuid-9'' 5 demo_db))"
  by (rule unregistered_uuid_has_no_account [where u = 9])
     (simp_all add: demo_db_ok parse_id_def is_digits_def digits_value_def digit_value_def, simp add: demo_db_def user_exists_def)

end
