(* ===== verification/Rentals.thy ===== *)
theory Rentals
  imports Credit_Repository
begin

section \<open>Billing: rentals\<close>

text \<open>
  \<open>crates/basilica-billing/src/domain/rentals.rs\<close> (\<open>Rental\<close>, \<open>RentalManager\<close>) and
  \<open>src/storage/rentals.rs\<close> (\<open>SqlRentalRepository\<close>) over the table \<open>rentals\<close> of migration 008.
  The locale \<open>rental_repository\<close> states what the manager relies on; inside it every operation of
  the manager is shown to move a rental only along \<open>can_transition_to\<close>. The interpretation is on
  the SQL repository. What a rental loses on its way through the table is stated as a round trip.
\<close>

record rental =
  rn_id :: rental_id
  rn_user_id :: user_id
  rn_executor_id :: string
  rn_validator_id :: string
  rn_package_id :: package_id
  rn_reservation_id :: "reservation_id option"
  rn_state :: rental_state
  rn_resource_spec :: resource_spec
  rn_usage_metrics :: usage_metrics
  rn_cost_breakdown :: cost_breakdown
  rn_started_at :: time
  rn_updated_at :: time
  rn_ended_at :: "time option"
  rn_metadata :: str_map
  rn_created_at :: time
  rn_last_updated :: time
  rn_actual_start_time :: "time option"
  rn_actual_end_time :: "time option"
  rn_actual_cost :: credit_balance

definition zero_cost :: cost_breakdown where
  "zero_cost = \<lparr>base_cost = cb_zero, usage_cost = cb_zero, discounts = cb_zero, overage_charges = cb_zero,
     total_cost = cb_zero\<rparr>"

definition rental_new ::
  "user_id \<Rightarrow> string \<Rightarrow> string \<Rightarrow> package_id \<Rightarrow> resource_spec \<Rightarrow> reservation_id option \<Rightarrow>
     ('z env_scheme, 'e, rental) prog" where
  "rental_new user_id executor_id validator_id package_id spec reservation_id =
     andthen utc_now (\<lambda>now.
     andthen uuid_new_v4 (\<lambda>i.
       ok \<lparr>rn_id = i, rn_user_id = user_id, rn_executor_id = executor_id, rn_validator_id = validator_id,
           rn_package_id = package_id, rn_reservation_id = reservation_id, rn_state = Pending,
           rn_resource_spec = spec, rn_usage_metrics = usage_zero, rn_cost_breakdown = zero_cost,
           rn_started_at = now, rn_updated_at = now, rn_ended_at = None, rn_metadata = [],
           rn_created_at = now, rn_last_updated = now, rn_actual_start_time = None,
           rn_actual_end_time = None, rn_actual_cost = cb_zero\<rparr>))"

lemma andthen_rental_new [simp]:
  "andthen (rental_new u e v p spec rid) f s =
     f \<lparr>rn_id = uuid_src s (Suc (tick s)), rn_user_id = u, rn_executor_id = e, rn_validator_id = v,
        rn_package_id = p, rn_reservation_id = rid, rn_state = Pending, rn_resource_spec = spec,
        rn_usage_metrics = usage_zero, rn_cost_breakdown = zero_cost, rn_started_at = clock s (tick s),
        rn_updated_at = clock s (tick s), rn_ended_at = None, rn_metadata = [], rn_created_at = clock s (tick s),
        rn_last_updated = clock s (tick s), rn_actual_start_time = None, rn_actual_end_time = None,
        rn_actual_cost = cb_zero\<rparr> (s\<lparr>tick := Suc (Suc (tick s))\<rparr>)"
  by (simp add: rental_new_def andthen_def)

definition rental_duration :: "rental \<Rightarrow> ('z env_scheme, 'e, time) prog" where
  "rental_duration r =
     andthen (case rn_ended_at r of Some e \<Rightarrow> ok e | None \<Rightarrow> utc_now) (\<lambda>end.
       ok (end - rn_started_at r))"

definition rental_is_active :: "rental \<Rightarrow> bool" where
  "rental_is_active r = state_is_active (rn_state r)"

definition transition_to :: "rental_state \<Rightarrow> rental \<Rightarrow> ('z env_scheme, billing_error, rental) prog" where
  "transition_to new_state r =
     (if \<not> can_transition_to (rn_state r) new_state
      then fail (InvalidStateTransition (state_to_string (rn_state r)) (state_to_string new_state))
      else andthen utc_now (\<lambda>now.
        ok (r\<lparr>rn_state := new_state, rn_updated_at := now, rn_last_updated := now,
             rn_ended_at := (if state_is_terminal new_state \<and> rn_ended_at r = None then Some now else rn_ended_at r)\<rparr>)))"

definition moved :: "rental_state \<Rightarrow> time \<Rightarrow> rental \<Rightarrow> rental" where
  "moved st now r = r\<lparr>rn_state := st, rn_updated_at := now, rn_last_updated := now,
     rn_ended_at := (if state_is_terminal st \<and> rn_ended_at r = None then Some now else rn_ended_at r)\<rparr>"

lemma moved_simps [simp]:
  "rn_id (moved st now r) = rn_id r" "rn_state (moved st now r) = st"
  "rn_cost_breakdown (moved st now r) = rn_cost_breakdown r" "rn_actual_cost (moved st now r) = rn_actual_cost r"
  by (simp_all add: moved_def)

lemma moved_ended: "\<exists>y. rn_ended_at (moved Completed now r) = Some y"
  by (auto simp: moved_def state_is_terminal_def)

lemma transition_run:
  "transition_to st r s =
     (if can_transition_to (rn_state r) st then (Inr (moved st (clock s (tick s)) r), s\<lparr>tick := Suc (tick s)\<rparr>)
      else (Inl (InvalidStateTransition (state_to_string (rn_state r)) (state_to_string st)), s))"
  by (simp add: transition_to_def moved_def)

definition rental_update_usage ::
  "'d decimal_ops_scheme \<Rightarrow> usage_metrics \<Rightarrow> rental \<Rightarrow> ('z env_scheme, 'e, rental) prog" where
  "rental_update_usage D metrics r =
     andthen utc_now (\<lambda>now.
       ok (r\<lparr>rn_usage_metrics := usage_add D (rn_usage_metrics r) metrics, rn_updated_at := now,
            rn_last_updated := now\<rparr>))"

definition rental_update_cost :: "cost_breakdown \<Rightarrow> rental \<Rightarrow> ('z env_scheme, 'e, rental) prog" where
  "rental_update_cost cost r =
     andthen utc_now (\<lambda>now.
       ok (r\<lparr>rn_cost_breakdown := cost, rn_updated_at := now, rn_last_updated := now\<rparr>))"

subsection \<open>The repository interface and \<open>RentalManager\<close>\<close>

record 's rental_repo =
  repo_create_rental :: "rental \<Rightarrow> ('s, billing_error, unit) prog"
  repo_get_rental :: "rental_id \<Rightarrow> ('s, billing_error, rental option) prog"
  repo_update_rental :: "rental \<Rightarrow> ('s, billing_error, unit) prog"
  repo_get_active_rentals :: "user_id option \<Rightarrow> ('s, billing_error, rental list) prog"
  repo_get_rentals_by_state :: "rental_state \<Rightarrow> ('s, billing_error, rental list) prog"

type_synonym ('z, 'a) rental_mgr_prog = "('z env_scheme, billing_error, 'a) prog"

definition rm_create_rental ::
  "'z env_scheme rental_repo \<Rightarrow> user_id \<Rightarrow> string \<Rightarrow> string \<Rightarrow> package_id \<Rightarrow> resource_spec \<Rightarrow>
     reservation_id option \<Rightarrow> ('z, rental_id) rental_mgr_prog" where
  "rm_create_rental R user_id executor_id validator_id package_id spec reservation_id =
     andthen (rental_new user_id executor_id validator_id package_id spec reservation_id) (\<lambda>r.
     andthen (repo_create_rental R r) (\<lambda>_. ok (rn_id r)))"

definition rm_get_rental :: "'z env_scheme rental_repo \<Rightarrow> rental_id \<Rightarrow> ('z, rental) rental_mgr_prog" where
  "rm_get_rental R rental_id = andthen (repo_get_rental R rental_id) (ok_or (RentalNotFound rental_id))"

definition rm_update_rental_state ::
  "'z env_scheme rental_repo \<Rightarrow> rental_id \<Rightarrow> rental_state \<Rightarrow> ('z, unit) rental_mgr_prog" where
  "rm_update_rental_state R rental_id new_state =
     andthen (rm_get_rental R rental_id) (\<lambda>r0.
     andthen (transition_to new_state r0) (\<lambda>r.
       repo_update_rental R r))"

definition rm_update_rental_usage ::
  "'d decimal_ops_scheme \<Rightarrow> 'z env_scheme rental_repo \<Rightarrow> rental_id \<Rightarrow> usage_metrics \<Rightarrow> ('z, unit) rental_mgr_prog" where
  "rm_update_rental_usage D R rental_id metrics =
     andthen (rm_get_rental R rental_id) (\<lambda>r0.
     andthen (rental_update_usage D metrics r0) (\<lambda>r.
       repo_update_rental R r))"

definition rm_update_rental_cost ::
  "'z env_scheme rental_repo \<Rightarrow> rental_id \<Rightarrow> cost_breakdown \<Rightarrow> ('z, unit) rental_mgr_prog" where
  "rm_update_rental_cost R rental_id cost =
     andthen (rm_get_rental R rental_id) (\<lambda>r0.
     andthen (rental_update_cost cost r0) (\<lambda>r.
       repo_update_rental R r))"

definition rm_get_active_rentals ::
  "'z env_scheme rental_repo \<Rightarrow> user_id \<Rightarrow> ('z, rental list) rental_mgr_prog" where
  "rm_get_active_rentals R user_id = repo_get_active_rentals R (Some user_id)"

definition rm_get_all_active_rentals :: "'z env_scheme rental_repo \<Rightarrow> ('z, rental list) rental_mgr_prog" where
  "rm_get_all_active_rentals R = repo_get_active_rentals R None"

definition map_insert :: "string \<Rightarrow> string \<Rightarrow> str_map \<Rightarrow> str_map" where
  "map_insert k v m = (k, v) # filter (\<lambda>(k', _). k' \<noteq> k) m"

definition rm_terminate_rental ::
  "'z env_scheme rental_repo \<Rightarrow> rental_id \<Rightarrow> string \<Rightarrow> ('z, unit) rental_mgr_prog" where
  "rm_terminate_rental R rental_id reason =
     andthen (rm_get_rental R rental_id) (\<lambda>r0.
       let r1 = r0\<lparr>rn_metadata := map_insert ''termination_reason'' reason (rn_metadata r0)\<rparr> in
       andthen (if can_transition_to (rn_state r1) Terminating
                then andthen (transition_to Terminating r1) (transition_to Completed)
                else ok r1) (\<lambda>r.
         repo_update_rental R r))"

definition rm_finalize_rental :: "'z env_scheme rental_repo \<Rightarrow> rental_id \<Rightarrow> ('z, rental) rental_mgr_prog" where
  "rm_finalize_rental R rental_id =
     andthen (rm_get_rental R rental_id) (\<lambda>r0.
     andthen (if rn_state r0 = Active then transition_to Terminating r0 else ok r0) (\<lambda>r1.
     andthen (if rn_state r1 = Terminating then transition_to Completed r1
              else if rn_state r1 \<noteq> Completed
              then fail (InvalidStateTransition (state_to_string (rn_state r1)) (state_to_string Completed))
              else ok r1) (\<lambda>r.
     andthen (repo_update_rental R r) (\<lambda>_. ok r))))"

definition rm_update_status ::
  "'z env_scheme rental_repo \<Rightarrow> rental_id \<Rightarrow> rental_state \<Rightarrow> ('z, rental) rental_mgr_prog" where
  "rm_update_status R rental_id new_state =
     andthen (rm_get_rental R rental_id) (\<lambda>r0.
     andthen (transition_to new_state r0) (\<lambda>r.
     andthen (repo_update_rental R r) (\<lambda>_. ok r)))"

subsection \<open>\<open>SqlRentalRepository\<close>\<close>

record rental_row =
  rw_id :: uuid
  rw_user_id :: string
  rw_executor_id :: string
  rw_validator_id :: "string option"
  rw_package_id :: "string option"
  rw_status :: string
  rw_resource_spec :: json
  rw_hourly_rate :: rat
  rw_start_time :: time
  rw_end_time :: "time option"
  rw_max_duration_hours :: int
  rw_total_cost :: "rat option"
  rw_metadata :: json
  rw_created_at :: time
  rw_updated_at :: time

record rental_db = credit_db +
  rentals :: "rental_row list"

type_synonym ('z, 'a) rental_prog = "('z rental_db_scheme, billing_error, 'a) prog"

definition parse_rental_state :: "string \<Rightarrow> rental_state" where
  "parse_rental_state s =
     (if s = ''pending'' then Pending
      else if s = ''active'' then Active
      else if s = ''suspended'' then Suspended
      else if s = ''terminating'' then Terminating
      else if s = ''completed'' then Completed
      else if s = ''failed'' then Failed
      else Failed)"

definition empty_resource_spec :: resource_spec where
  "empty_resource_spec = \<lparr>rs_gpu_specs = [], rs_cpu_cores = 0, rs_memory_gb = 0, rs_storage_gb = 0, rs_disk_iops = 0,
     rs_network_bandwidth_mbps = 0\<rparr>"

definition rental_from_row :: "'d billing_ops_scheme \<Rightarrow> rental_row \<Rightarrow> rental" where
  "rental_from_row D r =
     \<lparr>rn_id = rw_id r, rn_user_id = rw_user_id r, rn_executor_id = rw_executor_id r,
      rn_validator_id = unwrap_or (rw_validator_id r) '''',
      rn_package_id = unwrap_or (rw_package_id r) package_custom,
      rn_reservation_id = None,
      rn_state = parse_rental_state (rw_status r),
      rn_resource_spec = unwrap_or (resource_of_json D (rw_resource_spec r)) empty_resource_spec,
      rn_usage_metrics = usage_zero,
      rn_cost_breakdown =
        \<lparr>base_cost = from_decimal D (rw_hourly_rate r), usage_cost = cb_zero, discounts = cb_zero,
         overage_charges = cb_zero, total_cost = from_decimal D (unwrap_or (rw_total_cost r) 0)\<rparr>,
      rn_started_at = rw_start_time r, rn_updated_at = rw_updated_at r, rn_ended_at = rw_end_time r,
      rn_metadata = unwrap_or (metadata_of_json D (rw_metadata r)) [],
      rn_created_at = rw_created_at r, rn_last_updated = rw_updated_at r,
      rn_actual_start_time = Some (rw_start_time r), rn_actual_end_time = rw_end_time r,
      rn_actual_cost = unwrap_or (map_option (from_decimal D) (rw_total_cost r)) cb_zero\<rparr>"

definition sql_create_rental :: "'d billing_ops_scheme \<Rightarrow> rental \<Rightarrow> ('z, unit) rental_prog" where
  "sql_create_rental D r =
     sql (DatabaseError ''create_rental'')
       (andthen db_now (\<lambda>now. andthen (gets rentals) (\<lambda>rs.
          case pg_numeric D 10 2 (base_cost (rn_cost_breakdown r)) of
            None \<Rightarrow> fail (DatabaseError ''create_rental'')
          | Some rate \<Rightarrow>
              if row_of rw_id (rn_id r) rs \<noteq> None \<or> 255 < length (rn_user_id r) \<or> 255 < length (rn_executor_id r)
                 \<or> 255 < length (rn_validator_id r) \<or> 100 < length (rn_package_id r)
              then fail (DatabaseError ''create_rental'')
              else modify (rentals_update (\<lambda>rs. rs @
                [\<lparr>rw_id = rn_id r, rw_user_id = rn_user_id r, rw_executor_id = rn_executor_id r,
                  rw_validator_id = (if rn_validator_id r = [] then None else Some (rn_validator_id r)),
                  rw_package_id = Some (rn_package_id r), rw_status = state_to_string (rn_state r),
                  rw_resource_spec = resource_to_json D (rn_resource_spec r), rw_hourly_rate = rate,
                  rw_start_time = rn_started_at r, rw_end_time = None, rw_max_duration_hours = 24,
                  rw_total_cost = None, rw_metadata = metadata_to_json D (rn_metadata r),
                  rw_created_at = now, rw_updated_at = now\<rparr>])))))"

definition sql_get_rental :: "'d billing_ops_scheme \<Rightarrow> rental_id \<Rightarrow> ('z, rental option) rental_prog" where
  "sql_get_rental D i =
     sql (DatabaseError ''get_rental'')
       (gets (\<lambda>s. map_option (rental_from_row D) (row_of rw_id i (rentals s))))"

definition sql_update_rental :: "'d billing_ops_scheme \<Rightarrow> rental \<Rightarrow> ('z, unit) rental_prog" where
  "sql_update_rental D r =
     andthen utc_now (\<lambda>now.
     andthen (sql (DatabaseError ''update_rental'')
       (andthen (gets rentals) (\<lambda>rs.
          if row_of rw_id (rn_id r) rs = None then ok 0
          else case (pg_numeric D 10 2 (base_cost (rn_cost_breakdown r)),
                     if rn_actual_cost r = 0 then Some None
                     else map_option Some (pg_numeric D 10 2 (rn_actual_cost r))) of
            (Some rate, Some cost) \<Rightarrow>
              andthen (modify (rentals_update (update_where (\<lambda>x. rw_id x = rn_id r) (\<lambda>x.
                x\<lparr>rw_status := state_to_string (rn_state r),
                  rw_resource_spec := resource_to_json D (rn_resource_spec r), rw_hourly_rate := rate,
                  rw_updated_at := now, rw_end_time := rn_ended_at r,
                  rw_metadata := metadata_to_json D (rn_metadata r), rw_total_cost := cost\<rparr>))))
                (\<lambda>_. ok (affected (\<lambda>x. rw_id x = rn_id r) rs))
          | _ \<Rightarrow> fail (DatabaseError ''update_rental''))))
       (\<lambda>rows_affected. if rows_affected = 0 then fail (RentalNotFound (rn_id r)) else ok ()))"

definition sql_get_active_rentals ::
  "'d billing_ops_scheme \<Rightarrow> user_id option \<Rightarrow> ('z, rental list) rental_prog" where
  "sql_get_active_rentals D user_id =
     sql (DatabaseError ''get_active_rentals'')
       (gets (\<lambda>s. map (rental_from_row D)
          (sort_key (\<lambda>r. - rw_start_time r)
            (rows_where (\<lambda>r. (case user_id of None \<Rightarrow> True | Some u \<Rightarrow> rw_user_id r = u) \<and>
               (rw_status r = ''active'' \<or> rw_status r = ''pending'')) (rentals s)))))"

definition sql_get_rentals_by_state ::
  "'d billing_ops_scheme \<Rightarrow> rental_state \<Rightarrow> ('z, rental list) rental_prog" where
  "sql_get_rentals_by_state D st =
     sql (DatabaseError ''get_rentals_by_state'')
       (gets (\<lambda>s. map (rental_from_row D)
          (sort_key (\<lambda>r. - rw_start_time r)
            (rows_where (\<lambda>r. rw_status r = state_to_string st) (rentals s)))))"

definition sql_rental_repository :: "'d billing_ops_scheme \<Rightarrow> 'z rental_db_scheme rental_repo" where
  "sql_rental_repository D =
     \<lparr>repo_create_rental = sql_create_rental D, repo_get_rental = sql_get_rental D,
      repo_update_rental = sql_update_rental D, repo_get_active_rentals = sql_get_active_rentals D,
      repo_get_rentals_by_state = sql_get_rentals_by_state D\<rparr>"

lemma sql_rental_repository_simps [simp]:
  "repo_create_rental (sql_rental_repository D) = sql_create_rental D"
  "repo_get_rental (sql_rental_repository D) = sql_get_rental D"
  "repo_update_rental (sql_rental_repository D) = sql_update_rental D"
  "repo_get_active_rentals (sql_rental_repository D) = sql_get_active_rentals D"
  "repo_get_rentals_by_state (sql_rental_repository D) = sql_get_rentals_by_state D"
  by (simp_all add: sql_rental_repository_def)

lemma parse_rental_state_to_string [simp]: "parse_rental_state (state_to_string s) = s"
  by (cases s) (simp_all add: parse_rental_state_def)

subsection \<open>Rentals only move along the life cycle\<close>

type_synonym life_view = "rental_id \<Rightarrow> rental_state option"

definition moves :: "life_view \<Rightarrow> life_view \<Rightarrow> bool" where
  "moves v v' \<longleftrightarrow> (\<forall>i st. v i = Some st \<longrightarrow> (\<exists>st'. v' i = Some st' \<and> can_transition_to\<^sup>*\<^sup>* st st'))"

definition evolves :: "('s \<Rightarrow> life_view) \<Rightarrow> ('s, 'e, 'a) prog \<Rightarrow> bool" where
  "evolves v m \<longleftrightarrow> (\<forall>s. moves (v s) (v (snd (m s))))"

definition only_ticks :: "'z env_scheme \<Rightarrow> 'z env_scheme \<Rightarrow> bool" where
  "only_ticks s t \<longleftrightarrow> (\<exists>n. t = s\<lparr>tick := n\<rparr>)"

text \<open>A program on one rental that reads the clock and does nothing else to the state.\<close>

definition advances :: "(rental \<Rightarrow> ('z env_scheme, 'e, rental) prog) \<Rightarrow> bool" where
  "advances g \<longleftrightarrow>
     (\<forall>r s. only_ticks s (snd (g r s)) \<and>
        (\<forall>x. fst (g r s) = Inr x \<longrightarrow> rn_id x = rn_id r \<and> can_transition_to\<^sup>*\<^sup>* (rn_state r) (rn_state x)))"

lemma only_ticks_refl [simp]: "only_ticks s s"
  unfolding only_ticks_def by (rule exI [of _ "tick s"]) simp

lemma only_ticks_tick [simp]: "only_ticks s (s\<lparr>tick := n\<rparr>)"
  by (auto simp: only_ticks_def)

lemma only_ticks_trans: "only_ticks s t \<Longrightarrow> only_ticks t u \<Longrightarrow> only_ticks s u"
  by (auto simp: only_ticks_def)

lemma only_ticks_view: "only_ticks s t \<Longrightarrow> tickless v \<Longrightarrow> v t = v s"
  by (auto simp: only_ticks_def tickless_def)

lemma advancesD:
  assumes "advances g" and "g r s = (y, t)"
  shows "only_ticks s t" and "y = Inr x \<Longrightarrow> rn_id x = rn_id r \<and> can_transition_to\<^sup>*\<^sup>* (rn_state r) (rn_state x)"
  using assms(1) [unfolded advances_def, rule_format, of s r] assms(2) by auto

lemma moves_refl [simp, intro]: "moves v v"
  by (auto simp: moves_def)

lemma moves_trans: "moves u v \<Longrightarrow> moves v w \<Longrightarrow> moves u w"
  unfolding moves_def by (blast intro: rtranclp_trans)

lemma moves_update: "v i = Some st \<Longrightarrow> can_transition_to\<^sup>*\<^sup>* st st' \<Longrightarrow> moves v (v(i \<mapsto> st'))"
  by (auto simp: moves_def)

lemma moves_insert: "v i = None \<Longrightarrow> moves v (v(i \<mapsto> st'))"
  by (auto simp: moves_def)

lemma evolvesI: "(\<And>s r t. m s = (r, t) \<Longrightarrow> moves (v s) (v t)) \<Longrightarrow> evolves v m"
  by (simp add: evolves_def) (meson prod.exhaust_sel)

lemma evolvesD: "evolves v m \<Longrightarrow> m s = (r, t) \<Longrightarrow> moves (v s) (v t)"
  by (auto simp: evolves_def dest: spec [where x = s])

lemma evolves_frames: "frames v m \<Longrightarrow> evolves v m"
  by (simp add: evolves_def frames_def)

lemma evolves_ok: "evolves v (ok x)"
  by (simp add: evolves_def)

lemma evolves_andthen:
  assumes "evolves v m" and "\<And>x. evolves v (f x)"
  shows "evolves v (andthen m f)"
proof (rule evolvesI)
  fix s r t
  assume run: "andthen m f s = (r, t)"
  show "moves (v s) (v t)"
  proof (cases "m s")
    case (Pair r' s1)
    then have first: "moves (v s) (v s1)" by (rule evolvesD [OF assms(1)])
    show ?thesis
    proof (cases r')
      case (Inl e)
      with Pair run first show ?thesis by (simp add: andthen_def)
    next
      case (Inr x)
      with Pair run have "f x s1 = (r, t)" by (simp add: andthen_def)
      from moves_trans [OF first evolvesD [OF assms(2) this]] show ?thesis .
    qed
  qed
qed

lemma advancesI:
  "(\<And>r s y t. g r s = (y, t) \<Longrightarrow> only_ticks s t \<and>
      (\<forall>x. y = Inr x \<longrightarrow> rn_id x = rn_id r \<and> can_transition_to\<^sup>*\<^sup>* (rn_state r) (rn_state x))) \<Longrightarrow> advances g"
  by (simp add: advances_def) (meson prod.exhaust_sel)

lemma advances_transition: "advances (transition_to st)"
  by (rule advancesI) (auto simp: transition_to_def split: if_splits)

lemma advances_ok: "advances (\<lambda>r. ok r)"
  by (rule advancesI) auto

lemma advances_usage: "advances (rental_update_usage D m)"
  by (rule advancesI) (auto simp: rental_update_usage_def)

lemma advances_cost: "advances (rental_update_cost c)"
  by (rule advancesI) (auto simp: rental_update_cost_def)

lemma advances_then:
  assumes "advances g" and "advances h"
  shows "advances (\<lambda>r. andthen (g r) h)"
proof (rule advancesI)
  fix r s y t
  assume run: "andthen (g r) h s = (y, t)"
  obtain y1 s1 where first: "g r s = (y1, s1)" by (meson prod.exhaust_sel)
  show "only_ticks s t \<and> (\<forall>x. y = Inr x \<longrightarrow> rn_id x = rn_id r \<and> can_transition_to\<^sup>*\<^sup>* (rn_state r) (rn_state x))"
  proof (cases y1)
    case (Inl e)
    with first run advancesD(1) [OF assms(1) first] show ?thesis by (auto simp: andthen_def)
  next
    case (Inr r1)
    with first run have rest: "h r1 s1 = (y, t)" by (simp add: andthen_def)
    have "only_ticks s t"
      using advancesD(1) [OF assms(1) first] advancesD(1) [OF assms(2) rest] by (rule only_ticks_trans)
    moreover have "rn_id x = rn_id r \<and> can_transition_to\<^sup>*\<^sup>* (rn_state r) (rn_state x)" if "y = Inr x" for x
      using advancesD(2) [OF assms(1) first Inr] advancesD(2) [OF assms(2) rest that]
        rtranclp_trans [of can_transition_to "rn_state r" "rn_state r1" "rn_state x"] by simp
    ultimately show ?thesis by blast
  qed
qed

lemma advances_if: "advances g \<Longrightarrow> advances h \<Longrightarrow> advances (\<lambda>r. if P r then g r else h r)"
  by (rule advancesI) (auto dest: advancesD split: if_splits)

lemma advances_fail: "advances (\<lambda>r. fail (e r))"
  by (rule advancesI) auto

lemma advances_with:
  assumes "\<And>r. rn_id (f r) = rn_id r" "\<And>r. rn_state (f r) = rn_state r" and "advances g"
  shows "advances (\<lambda>r. g (f r))"
proof (rule advancesI)
  fix r s y t
  assume run: "g (f r) s = (y, t)"
  show "only_ticks s t \<and> (\<forall>x. y = Inr x \<longrightarrow> rn_id x = rn_id r \<and> can_transition_to\<^sup>*\<^sup>* (rn_state r) (rn_state x))"
    using advancesD(1) [OF assms(3) run] advancesD(2) [OF assms(3) run, unfolded assms(1,2)] by blast
qed

locale rental_repository =
  fixes R :: "'z env_scheme rental_repo" and view :: "'z env_scheme \<Rightarrow> life_view"
  assumes tickless_view: "tickless view"
    and get_rental_frames: "frames view (repo_get_rental R i)"
    and get_rental_view:
      "repo_get_rental R i s = (Inr (Some r), t) \<Longrightarrow> rn_id r = i \<and> view s i = Some (rn_state r)"
    and update_rental_view:
      "repo_update_rental R r s = (x, t) \<Longrightarrow>
         view t = view s \<or> view s (rn_id r) \<noteq> None \<and> view t = (view s)(rn_id r \<mapsto> rn_state r)"
    and create_rental_view:
      "repo_create_rental R r s = (x, t) \<Longrightarrow>
         view t = view s \<or> view s (rn_id r) = None \<and> view t = (view s)(rn_id r \<mapsto> rn_state r)"
begin

lemma rm_get_rental_found:
  assumes "rm_get_rental R i s = (Inr r, t)"
  shows "view t = view s" "rn_id r = i" "view s i = Some (rn_state r)"
proof -
  obtain x where "repo_get_rental R i s = (Inr (Some r), t)"
    using assms unfolding rm_get_rental_def
    by (elim andthen_InrE) (auto simp: ok_or_def split: option.splits)
  then show "view t = view s" "rn_id r = i" "view s i = Some (rn_state r)"
    using get_rental_view framesD [OF get_rental_frames] by auto
qed

lemma rm_get_rental_frames: "frames view (rm_get_rental R i)"
  unfolding rm_get_rental_def by (intro frames_rules get_rental_frames)

text \<open>The shape of every operation of the manager that writes a rental.\<close>

lemma evolves_rewrite:
  assumes "advances g" and "\<And>r. frames view (h r)"
  shows "evolves view (andthen (rm_get_rental R i) (\<lambda>r0. andthen (g r0) (\<lambda>r.
           andthen (repo_update_rental R r) (\<lambda>_. h r))))"
proof (rule evolvesI)
  fix s x t
  assume run: "andthen (rm_get_rental R i) (\<lambda>r0. andthen (g r0) (\<lambda>r.
           andthen (repo_update_rental R r) (\<lambda>_. h r))) s = (x, t)"
  show "moves (view s) (view t)"
  proof (cases "rm_get_rental R i s")
    case (Pair y s1)
    have v1: "view s1 = view s" using framesD [OF rm_get_rental_frames Pair] .
    show ?thesis
    proof (cases y)
      case (Inl e)
      with Pair run v1 show ?thesis by (auto simp: andthen_def)
    next
      case (Inr r0)
      with Pair have found: "rn_id r0 = i" "view s i = Some (rn_state r0)"
        using rm_get_rental_found by auto
      obtain y1 s' where g: "g r0 s1 = (y1, s')" by (meson prod.exhaust_sel)
      have v': "view s' = view s"
        using only_ticks_view [OF advancesD(1) [OF assms(1) g] tickless_view] v1 by simp
      show ?thesis
      proof (cases y1)
        case (Inl e)
        with g Pair Inr run v' show ?thesis by (auto simp: andthen_def)
      next
        case inr: (Inr r)
        have r: "rn_id r = i" "can_transition_to\<^sup>*\<^sup>* (rn_state r0) (rn_state r)"
          using advancesD(2) [OF assms(1) g inr] found by auto
        obtain z s2 where upd: "repo_update_rental R r s' = (z, s2)" by (meson prod.exhaust_sel)
        have v2: "moves (view s) (view s2)"
          using update_rental_view [OF upd] v' found r by (auto intro: moves_update)
        have "view t = view s2"
        proof (cases z)
          case (Inl e)
          with Pair Inr g inr upd run show ?thesis by (auto simp: andthen_def)
        next
          case (Inr u)
          with Pair \<open>y = Inr r0\<close> g inr upd run have "h r s2 = (x, t)" by (auto simp: andthen_def)
          then show ?thesis by (rule framesD [OF assms(2)])
        qed
        with v2 show ?thesis by simp
      qed
    qed
  qed
qed

lemma evolves_rewrite_unit:
  "advances g \<Longrightarrow> evolves view (andthen (rm_get_rental R i) (\<lambda>r0. andthen (g r0) (\<lambda>r. repo_update_rental R r)))"
  using evolves_rewrite [of g "\<lambda>_. ok ()" i] by (simp add: andthen_ok_right frames_ok)

lemma rm_update_rental_state_evolves: "evolves view (rm_update_rental_state R i st)"
  unfolding rm_update_rental_state_def by (intro evolves_rewrite_unit advances_transition)

lemma rm_update_rental_usage_evolves: "evolves view (rm_update_rental_usage D R i m)"
  unfolding rm_update_rental_usage_def by (intro evolves_rewrite_unit advances_usage)

lemma rm_update_rental_cost_evolves: "evolves view (rm_update_rental_cost R i c)"
  unfolding rm_update_rental_cost_def by (intro evolves_rewrite_unit advances_cost)

lemma rm_terminate_rental_evolves: "evolves view (rm_terminate_rental R i reason)"
  unfolding rm_terminate_rental_def Let_def
  by (intro evolves_rewrite_unit advances_with [where f = "\<lambda>r. r\<lparr>rn_metadata := h r\<rparr>" for h]
        advances_if advances_then advances_transition advances_ok) simp_all

lemma rm_update_status_evolves: "evolves view (rm_update_status R i st)"
  unfolding rm_update_status_def by (intro evolves_rewrite advances_transition frames_ok)

lemma rm_finalize_rental_evolves: "evolves view (rm_finalize_rental R i)"
proof -
  have eq: "rm_finalize_rental R i =
    andthen (rm_get_rental R i) (\<lambda>r0. andthen
      (andthen (if rn_state r0 = Active then transition_to Terminating r0 else ok r0) (\<lambda>r1.
         if rn_state r1 = Terminating then transition_to Completed r1
         else if rn_state r1 \<noteq> Completed
         then fail (InvalidStateTransition (state_to_string (rn_state r1)) (state_to_string Completed))
         else ok r1))
      (\<lambda>r. andthen (repo_update_rental R r) (\<lambda>_. ok r)))"
    by (auto simp: rm_finalize_rental_def fun_eq_iff andthen_def split: prod.splits sum.splits)
  show ?thesis
    unfolding eq
    by (intro evolves_rewrite frames_ok advances_then [where g = "\<lambda>r. if _ r then _ r else _ r"] advances_if
        advances_transition advances_ok advances_fail)
qed

lemma rm_create_rental_evolves: "evolves view (rm_create_rental R u e v p sp rid)"
proof (rule evolvesI)
  fix s x t
  assume "rm_create_rental R u e v p sp rid s = (x, t)"
  then obtain r y where "repo_create_rental R r (s\<lparr>tick := Suc (Suc (tick s))\<rparr>) = (y, t)"
    by (auto simp: rm_create_rental_def andthen_def [of "repo_create_rental _ _"] split: prod.splits sum.splits)
  from create_rental_view [OF this] show "moves (view s) (view t)"
    by (auto simp: ticklessD [OF tickless_view] intro: moves_insert)
qed

lemmas rm_evolves = rm_create_rental_evolves rm_update_rental_state_evolves rm_update_rental_usage_evolves
  rm_update_rental_cost_evolves rm_terminate_rental_evolves rm_update_status_evolves rm_finalize_rental_evolves

end

definition rental_view :: "'z rental_db_scheme \<Rightarrow> life_view" where
  "rental_view s i = map_option (\<lambda>r. parse_rental_state (rw_status r)) (row_of rw_id i (rentals s))"

lemma rental_view_tick [simp]: "rental_view (s\<lparr>tick := n\<rparr>) = rental_view s"
  by (simp add: rental_view_def fun_eq_iff)

lemma rental_view_insert:
  "row_of rw_id (rw_id r) (rentals s) = None \<Longrightarrow>
     rental_view (rentals_update (\<lambda>rs. rs @ [r]) s) = (rental_view s)(rw_id r \<mapsto> parse_rental_state (rw_status r))"
  by (auto simp: rental_view_def fun_eq_iff row_of_append split: option.splits)

lemma rental_view_update:
  assumes "row_of rw_id i (rentals s) \<noteq> None" and "\<And>r. rw_id (f r) = rw_id r" and "\<And>r. rw_status (f r) = st"
  shows "rental_view (rentals_update (update_where (\<lambda>r. rw_id r = i) f) s) = (rental_view s)(i \<mapsto> parse_rental_state st)"
  using assms
  by (auto simp: rental_view_def fun_eq_iff row_of_update_same row_of_update_other)

lemma sql_state: "snd (sql e stmt s) = s\<lparr>tick := Suc (tick s)\<rparr> \<or> snd (sql e stmt s) = snd (stmt (s\<lparr>tick := Suc (tick s)\<rparr>))"
  by (simp add: sql_def split: outcome.splits)

interpretation sql_rentals: rental_repository "sql_rental_repository D" rental_view for D
proof (unfold_locales, goal_cases)
  case 1
  show ?case by (simp add: tickless_def)
next
  case (2 i)
  show ?case by (auto simp: sql_get_rental_def intro!: frames_rules simp: tickless_def)
next
  case (3 i s r t)
  then show ?case
    using row_of_Some [of rw_id i "rentals s"]
    by (auto simp: sql_get_rental_def rental_view_def rental_from_row_def dest!: sql_InrD)
next
  case (4 r s x t)
  then show ?case
    by (auto simp: sql_update_rental_def sql_def andthen_def rental_view_update rental_view_def [of s]
        split: outcome.splits if_splits option.splits prod.splits sum.splits)
next
  case (5 r s x t)
  then show ?case
    by (auto simp: sql_create_rental_def sql_def rental_view_insert rental_view_def [of s]
        split: outcome.splits if_splits option.splits)
qed

subsection \<open>Histories of rental calls\<close>

datatype rental_call =
    RCreate user_id string string package_id resource_spec "reservation_id option"
  | RSetState rental_id rental_state
  | RUsage rental_id usage_metrics
  | RCost rental_id cost_breakdown
  | RTerminate rental_id string
  | RStatus rental_id rental_state
  | RFinalize rental_id

fun rental_exec :: "'d billing_ops_scheme \<Rightarrow> rental_call \<Rightarrow> ('z, unit) rental_prog" where
  "rental_exec D (RCreate u e v p sp rid) =
     andthen (rm_create_rental (sql_rental_repository D) u e v p sp rid) (\<lambda>_. ok ())"
| "rental_exec D (RSetState i st) = rm_update_rental_state (sql_rental_repository D) i st"
| "rental_exec D (RUsage i m) = rm_update_rental_usage D (sql_rental_repository D) i m"
| "rental_exec D (RCost i c) = rm_update_rental_cost (sql_rental_repository D) i c"
| "rental_exec D (RTerminate i reason) = rm_terminate_rental (sql_rental_repository D) i reason"
| "rental_exec D (RStatus i st) = andthen (rm_update_status (sql_rental_repository D) i st) (\<lambda>_. ok ())"
| "rental_exec D (RFinalize i) = andthen (rm_finalize_rental (sql_rental_repository D) i) (\<lambda>_. ok ())"

inductive rental_history ::
  "'d billing_ops_scheme \<Rightarrow> 'z rental_db_scheme \<Rightarrow> rental_call list \<Rightarrow> 'z rental_db_scheme \<Rightarrow> bool"
  for D s where
  rental_start: "rental_history D s [] s"
| rental_step: "rental_history D s cs t \<Longrightarrow> rental_exec D c t = (r, t') \<Longrightarrow> rental_history D s (cs @ [c]) t'"

lemma rental_exec_evolves: "evolves rental_view (rental_exec D c)"
  by (cases c) (auto intro!: sql_rentals.rm_evolves evolves_andthen evolves_ok)

lemma terminal_absorbs: "can_transition_to\<^sup>*\<^sup>* st st' \<Longrightarrow> state_is_terminal st \<Longrightarrow> st' = st"
  by (induction rule: converse_rtranclp_induct) (auto dest: terminal_no_successor)

text \<open>C9: a stored rental only ever moves along the transitions of its life cycle, whatever the manager
  is asked to do and whichever statements are lost or unacknowledged. In particular a completed
  or failed rental stays what it is, and no rental disappears.\<close>

theorem rental_life_cycle:
  assumes "rental_history D s cs t" and "rental_view s i = Some st"
  shows "\<exists>st'. rental_view t i = Some st' \<and> can_transition_to\<^sup>*\<^sup>* st st' \<and> (state_is_terminal st \<longrightarrow> st' = st)"
proof -
  have "moves (rental_view s) (rental_view t)"
    using assms(1)
  proof induction
    case rental_start
    show ?case by simp
  next
    case (rental_step cs t c r t')
    then show ?case using evolvesD [OF rental_exec_evolves] moves_trans by blast
  qed
  with assms(2) show ?thesis
    unfolding moves_def using terminal_absorbs by blast
qed

definition demo_rental_row :: rental_row where
  "demo_rental_row = \<lparr>rw_id = 4, rw_user_id = ''alice'', rw_executor_id = ''ex'', rw_validator_id = None,
     rw_package_id = Some ''h100'', rw_status = ''active'', rw_resource_spec = spec_to_json empty_resource_spec,
     rw_hourly_rate = 3, rw_start_time = 0, rw_end_time = None, rw_max_duration_hours = 24, rw_total_cost = None,
     rw_metadata = strings_to_json [], rw_created_at = 0, rw_updated_at = 0\<rparr>"

definition demo_rental_db :: rental_db where
  "demo_rental_db =
     \<lparr>tick = 0, clock = int, uuid_src = (\<lambda>n. n + 100), db_outcome = (\<lambda>_. Done), users = [], credits = [],
      credit_reservations = [], billing_events = [], rentals = [demo_rental_row]\<rparr>"

lemma demo_rental_view: "rental_view demo_rental_db 4 = Some Active"
  by (simp add: rental_view_def demo_rental_db_def demo_rental_row_def parse_rental_state_def)

theorem rental_life_cycle_witness:
  "\<exists>st'. rental_view (snd (rental_exec bankers_pg (RStatus 4 Pending) demo_rental_db)) 4 = Some st' \<and>
     can_transition_to\<^sup>*\<^sup>* Active st'"
  using rental_life_cycle [OF rental_step [OF rental_start prod.collapse [symmetric]] demo_rental_view,
      of bankers_pg "RStatus 4 Pending"]
  by blast

subsection \<open>What the table keeps of a rental\<close>

definition rental_fits :: "'d billing_ops_scheme \<Rightarrow> rental \<Rightarrow> bool" where
  "rental_fits D r \<longleftrightarrow> length (rn_user_id r) \<le> 255 \<and> length (rn_executor_id r) \<le> 255 \<and>
     length (rn_validator_id r) \<le> 255 \<and> length (rn_package_id r) \<le> 100 \<and>
     has_places 2 (base_cost (rn_cost_breakdown r)) \<and> \<bar>base_cost (rn_cost_breakdown r)\<bar> < 10 ^ 8"

lemma has_places_2_dec6:
  assumes "has_places 2 x"
  shows "dec6 x"
proof -
  have "of_int \<lfloor>x * 100 * of_int 10000\<rfloor> = x * 100 * of_int 10000"
    using assms by (intro int_multiple) (simp add: has_places_def)
  then show ?thesis by (simp add: dec6_def mult.commute)
qed

lemma rate_credit_ok: "has_places 2 x \<Longrightarrow> \<bar>x\<bar> < 10 ^ 8 \<Longrightarrow> credit_ok x"
  by (simp add: credit_ok_def has_places_2_dec6)

context billing_platform
begin

lemma rental_of_new_row:
  assumes "rental_fits D r" and "rn_ended_at r = e"
  shows "rental_from_row D
      \<lparr>rw_id = rn_id r, rw_user_id = rn_user_id r, rw_executor_id = rn_executor_id r,
       rw_validator_id = (if rn_validator_id r = [] then None else Some (rn_validator_id r)),
       rw_package_id = Some (rn_package_id r), rw_status = state_to_string (rn_state r),
       rw_resource_spec = resource_to_json D (rn_resource_spec r), rw_hourly_rate = base_cost (rn_cost_breakdown r),
       rw_start_time = rn_started_at r, rw_end_time = None, rw_max_duration_hours = 24,
       rw_total_cost = None, rw_metadata = metadata_to_json D (rn_metadata r), rw_created_at = now, rw_updated_at = now\<rparr> =
    r\<lparr>rn_reservation_id := None, rn_usage_metrics := usage_zero,
      rn_cost_breakdown := zero_cost\<lparr>base_cost := base_cost (rn_cost_breakdown r)\<rparr>,
      rn_updated_at := now, rn_ended_at := None, rn_created_at := now, rn_last_updated := now,
      rn_actual_start_time := Some (rn_started_at r), rn_actual_end_time := None, rn_actual_cost := 0\<rparr>"
  using assms
  by (auto simp: rental_from_row_def resource_json metadata_json rental_fits_def from_decimal_id rate_credit_ok
      zero_cost_def cb_zero_def)

lemma create_rental_run:
  assumes "reliable s" "row_of rw_id (rn_id r) (rentals s) = None" "rental_fits D r"
  shows "\<exists>t now q. sql_create_rental D r s = (Inr (), t) \<and> reliable t \<and> row_of rw_id (rn_id r) (rentals t) = Some q \<and>
    rental_from_row D q = r\<lparr>rn_reservation_id := None, rn_usage_metrics := usage_zero,
      rn_cost_breakdown := zero_cost\<lparr>base_cost := base_cost (rn_cost_breakdown r)\<rparr>,
      rn_updated_at := now, rn_ended_at := None, rn_created_at := now, rn_last_updated := now,
      rn_actual_start_time := Some (rn_started_at r), rn_actual_end_time := None, rn_actual_cost := 0\<rparr>"
proof -
  have "pg_numeric D 10 2 (base_cost (rn_cost_breakdown r)) = Some (base_cost (rn_cost_breakdown r))"
    using assms(3) by (simp add: rental_fits_def numeric_exact)
  with assms show ?thesis
    by (auto simp: sql_create_rental_def reliable_sql rental_of_new_row [OF assms(3) refl] rental_fits_def reliable_def)
qed

end


definition demo_rental :: rental where
  "demo_rental = \<lparr>rn_id = 5, rn_user_id = ''alice'', rn_executor_id = ''ex'', rn_validator_id = ''v'',
     rn_package_id = ''h100'', rn_reservation_id = Some 7, rn_state = Pending, rn_resource_spec = empty_resource_spec,
     rn_usage_metrics = usage_zero, rn_cost_breakdown = zero_cost, rn_started_at = 0, rn_updated_at = 0,
     rn_ended_at = None, rn_metadata = [], rn_created_at = 0, rn_last_updated = 0, rn_actual_start_time = None,
     rn_actual_end_time = None, rn_actual_cost = 0\<rparr>"


subsection \<open>Ending a rental\<close>

definition rental_row_ok :: "rental_row \<Rightarrow> bool" where
  "rental_row_ok q \<longleftrightarrow> numeric_fits 10 2 (rw_hourly_rate q) \<and> pred_option (numeric_fits 10 2) (rw_total_cost q)"

lemma numeric_fits_credit_ok: "numeric_fits 10 2 x \<Longrightarrow> credit_ok x"
  by (simp add: numeric_fits_def rate_credit_ok)

lemma get_rental_run:
  "reliable s \<Longrightarrow> row_of rw_id i (rentals s) = Some q \<Longrightarrow>
     rm_get_rental (sql_rental_repository D) i s = (Inr (rental_from_row D q), s\<lparr>tick := Suc (tick s)\<rparr>)"
  by (simp add: rm_get_rental_def sql_get_rental_def reliable_sql andthen_def)

context billing_platform
begin

lemma row_costs:
  assumes "rental_row_ok q"
  shows "base_cost (rn_cost_breakdown (rental_from_row D q)) = rw_hourly_rate q"
    and "rn_actual_cost (rental_from_row D q) = unwrap_or (rw_total_cost q) 0"
  using assms numeric_fits_credit_ok
  by (auto simp: rental_from_row_def rental_row_ok_def from_decimal_id cb_zero_def split: option.splits)
     (cases "rw_total_cost q"; simp add: from_decimal_id numeric_fits_credit_ok)

lemma update_rental_run:
  assumes "reliable s" "row_of rw_id (rn_id r) (rentals s) = Some q"
    and "numeric_fits 10 2 (base_cost (rn_cost_breakdown r))" "numeric_fits 10 2 (rn_actual_cost r)"
  shows "\<exists>t. sql_update_rental D r s = (Inr (), t) \<and> rental_view t = (rental_view s)(rn_id r \<mapsto> rn_state r)"
proof -
  have nz: "affected (\<lambda>x. rw_id x = rn_id r) (rentals s) \<noteq> 0"
    using assms(2) by (simp add: affected_key_0)
  have "pg_numeric D 10 2 x = Some x" if "numeric_fits 10 2 x" for x
    using that by (simp add: numeric_exact numeric_fits_def)
  with assms nz show ?thesis
    by (auto simp: sql_update_rental_def reliable_sql andthen_def rental_view_update)
qed

lemma finalize_run:
  assumes "reliable s" "row_of rw_id i (rentals s) = Some q" "rental_row_ok q"
    and st: "parse_rental_state (rw_status q) = st"
  shows "if st \<in> {Active, Terminating, Completed}
     then \<exists>r t. rm_finalize_rental (sql_rental_repository D) i s = (Inr r, t) \<and> rn_state r = Completed \<and>
            (st \<noteq> Completed \<longrightarrow> rn_ended_at r \<noteq> None) \<and> rental_view t = (rental_view s)(i \<mapsto> Completed)
     else \<exists>t. rm_finalize_rental (sql_rental_repository D) i s =
            (Inl (InvalidStateTransition (state_to_string st) ''completed''), t) \<and> rental_view t = rental_view s"
proof -
  let ?r = "rental_from_row D q" and ?s = "\<lambda>n. s\<lparr>tick := n\<rparr>"
  have id: "rn_id ?r = i" "rn_state ?r = st"
    using row_of_Some [OF assms(2)] st by (auto simp: rental_from_row_def)
  have fits: "numeric_fits 10 2 (base_cost (rn_cost_breakdown ?r))" "numeric_fits 10 2 (rn_actual_cost ?r)"
    using assms(3) row_costs [OF assms(3)]
    by (auto simp: rental_row_ok_def) (cases "rw_total_cost q"; simp add: numeric_fits_def has_places_def)
  have upd: "\<exists>t. sql_update_rental D r (?s n) = (Inr (), t) \<and> rental_view t = (rental_view s)(i \<mapsto> rn_state r)"
    if "rn_id r = i" "rn_cost_breakdown r = rn_cost_breakdown ?r" "rn_actual_cost r = rn_actual_cost ?r" for r n
    using update_rental_run [of "?s n" r q] assms(1,2) fits that by simp
  note run = rm_finalize_rental_def andthen_Inr get_rental_run [OF assms(1,2)] id transition_run
  show ?thesis
  proof (cases st)
    case Active
    with upd [of "moved Completed (clock s (Suc (Suc (tick s)))) (moved Terminating (clock s (Suc (tick s))) ?r)"
        "Suc (Suc (Suc (tick s)))"] id
    show ?thesis by (auto simp: run moved_ended)
  next
    case Terminating
    with upd [of "moved Completed (clock s (Suc (tick s))) ?r" "Suc (Suc (tick s))"] id
    show ?thesis by (auto simp: run moved_ended)
  next
    case Completed
    with upd [of ?r "Suc (tick s)"] id show ?thesis
      by (auto simp: run)
  qed (simp_all add: run)
qed

end


lemma demo_rental_db_facts:
  "reliable demo_rental_db" "row_of rw_id 4 (rentals demo_rental_db) = Some demo_rental_row"
  "rental_row_ok demo_rental_row" "parse_rental_state (rw_status demo_rental_row) = Active"
  by (simp_all add: demo_rental_db_def demo_rental_row_def reliable_def rental_row_ok_def numeric_fits_def
      has_places_def parse_rental_state_def)


text \<open>Updating a rental never changes the package it is stored with, nor its owner, executor or start:
  these columns are not written, whatever the rental passed in holds.\<close>

theorem update_rental_keeps_package:
  assumes "row_of rw_id i (rentals s) = Some q" and "sql_update_rental D r s = (x, t)"
  shows "\<exists>q'. row_of rw_id i (rentals t) = Some q' \<and> rw_package_id q' = rw_package_id q \<and>
    rw_user_id q' = rw_user_id q \<and> rw_executor_id q' = rw_executor_id q \<and> rw_start_time q' = rw_start_time q"
  using assms
  by (cases "rn_id r = i")
     (auto simp: sql_update_rental_def sql_def andthen_def row_of_update_same row_of_update_other
        split: outcome.splits if_splits option.splits prod.splits sum.splits)

theorem update_rental_keeps_package_witness:
  "\<exists>q'. row_of rw_id 4 (rentals (snd (sql_update_rental bankers_pg (demo_rental\<lparr>rn_id := 4, rn_package_id := ''h200''\<rparr>) demo_rental_db)))
      = Some q' \<and> rw_package_id q' = Some ''h100''"
  using update_rental_keeps_package [OF demo_rental_db_facts(2) prod.collapse [symmetric], of bankers_pg
      "demo_rental\<lparr>rn_id := 4, rn_package_id := ''h200''\<rparr>"]
  by (auto simp: demo_rental_row_def)

end
