(* ===== verification/Packages.thy ===== *)
theory Packages
  imports Rentals "HOL-Library.Word"
begin

section \<open>Billing: packages, their repository and its cache\<close>

text \<open>
  \<open>crates/basilica-billing/src/domain/packages.rs\<close> (\<open>BillingPackage\<close>, \<open>PricingRules\<close>,
  \<open>RepositoryPackageService\<close>), \<open>src/storage/packages.rs\<close> (\<open>SqlPackageRepository\<close>, a table with an
  in-memory cache in front of it) and \<open>src/storage/user_preferences.rs\<close>. The state has the two tables,
  the cache, and two facts of the database the statements depend on: the columns of
  \<open>billing_packages\<close> that must be given a value (migrations 001 and 005) and the collation, as a sort
  key. A priority is a \<open>u32\<close>, stored in an \<open>INTEGER\<close> column: the two casts wrap. Where SQL leaves the order
  of equal rows open the model keeps the order of the table.

  The locale \<open>package_repository\<close> is what the users of the repository rely on. Lemmas: the cost of a
  package is bounded and monotone, the cache agrees with the table, which package a GPU model gets.
\<close>

datatype billing_period = Hourly | Daily | Weekly | Monthly

text \<open>\<open>BillingPeriod::duration\<close>, in nanoseconds.\<close>

definition hour_ns :: time where
  "hour_ns = 3600 * 10 ^ 9"

fun period_duration :: "billing_period \<Rightarrow> time" where
  "period_duration Hourly = hour_ns"
| "period_duration Daily = 24 * hour_ns"
| "period_duration Weekly = 7 * 24 * hour_ns"
| "period_duration Monthly = 30 * 24 * hour_ns"

record billing_package =
  pkg_id :: package_id
  pkg_name :: string
  pkg_description :: string
  pkg_hourly_rate :: credit_balance
  pkg_gpu_model :: string
  pkg_billing_period :: billing_period
  pkg_priority :: "32 word"
  pkg_active :: bool
  pkg_metadata :: str_map

definition package_new :: "package_id \<Rightarrow> string \<Rightarrow> string \<Rightarrow> credit_balance \<Rightarrow> string \<Rightarrow> billing_package" where
  "package_new i name description hourly_rate gpu_model =
     \<lparr>pkg_id = i, pkg_name = name, pkg_description = description, pkg_hourly_rate = hourly_rate,
      pkg_gpu_model = gpu_model, pkg_billing_period = Hourly, pkg_priority = 100, pkg_active = True,
      pkg_metadata = []\<rparr>"

definition calculate_cost :: "'d decimal_ops_scheme \<Rightarrow> billing_package \<Rightarrow> usage_metrics \<Rightarrow> cost_breakdown" where
  "calculate_cost D p usage =
     (let total_hours = max (gpu_hours usage) 1;
          total_cost = cb_multiply D (pkg_hourly_rate p) total_hours in
      \<lparr>base_cost = total_cost, usage_cost = cb_zero, discounts = cb_zero, overage_charges = cb_zero,
       total_cost = total_cost\<rparr>)"

text \<open>The protobuf form of a package: \<open>PackageRates\<close>, \<open>IncludedResources\<close> and \<open>BillingPackage\<close> of
  \<open>billing.proto\<close>.\<close>

record proto_package_rates =
  ppr_cpu_rate_per_hour :: string
  ppr_memory_rate_per_gb_hour :: string
  ppr_gpu_rates :: str_map
  ppr_network_rate_per_gb :: string
  ppr_disk_iops_rate :: string
  ppr_base_rate_per_hour :: string

record proto_included_resources =
  pir_cpu_core_hours :: nat
  pir_memory_gb_hours :: nat
  pir_gpu_hours :: "(string \<times> nat) list"
  pir_network_gb :: nat
  pir_disk_iops :: nat

record proto_billing_package =
  pbp_package_id :: string
  pbp_name :: string
  pbp_description :: string
  pbp_rates :: "proto_package_rates option"
  pbp_included_resources :: "proto_included_resources option"
  pbp_overage_rates :: "proto_package_rates option"
  pbp_priority :: "32 word"
  pbp_is_active :: bool

definition package_to_proto :: "'d billing_ops_scheme \<Rightarrow> billing_package \<Rightarrow> proto_billing_package" where
  "package_to_proto D p =
     \<lparr>pbp_package_id = pkg_id p, pbp_name = pkg_name p, pbp_description = pkg_description p,
      pbp_rates = Some
        \<lparr>ppr_cpu_rate_per_hour = ''0'', ppr_memory_rate_per_gb_hour = ''0'',
         ppr_gpu_rates = [(pkg_gpu_model p, show_dec D (pkg_hourly_rate p))],
         ppr_network_rate_per_gb = ''0'', ppr_disk_iops_rate = ''0'',
         ppr_base_rate_per_hour = show_dec D (pkg_hourly_rate p)\<rparr>,
      pbp_included_resources = Some
        \<lparr>pir_cpu_core_hours = 0, pir_memory_gb_hours = 0, pir_gpu_hours = [], pir_network_gb = 0, pir_disk_iops = 0\<rparr>,
      pbp_overage_rates = None, pbp_priority = pkg_priority p, pbp_is_active = pkg_active p\<rparr>"

definition calculate_volume_discount :: "rat \<Rightarrow> rat" where
  "calculate_volume_discount hours =
     (if 1000 < hours then 1 / 10 else if 500 < hours then 1 / 20 else 0)"

subsection \<open>\<open>LIKE\<close>\<close>

text \<open>SQL patterns: \<open>%\<close> stands for any text, \<open>_\<close> for one character, a backslash takes the next
  character literally.\<close>

declare conj_cong [fundef_cong]

function (sequential) sql_like :: "string \<Rightarrow> string \<Rightarrow> bool" where
  "sql_like [] s = (s = [])"
| "sql_like (c # p) s =
     (if c = CHR ''%'' then sql_like p s \<or> (s \<noteq> [] \<and> sql_like (c # p) (tl s))
      else if c = CHR ''_'' then s \<noteq> [] \<and> sql_like p (tl s)
      else if c = CHR 0x5C then p \<noteq> [] \<and> s \<noteq> [] \<and> hd s = hd p \<and> sql_like (tl p) (tl s)
      else s \<noteq> [] \<and> hd s = c \<and> sql_like p (tl s))"
  by pat_completeness auto
termination
  by (relation "measure (\<lambda>(p, s). length p + length s)") (auto simp: length_tl)

declare sql_like.simps [simp del]

definition gpu_like :: "string \<Rightarrow> string \<Rightarrow> bool" where
  "gpu_like text pattern = sql_like (''%'' @ pattern @ ''%'') text"

subsection \<open>The table and its cache\<close>

record package_row =
  pk_id :: string
  pk_name :: string
  pk_description :: string
  pk_hourly_rate :: rat
  pk_gpu_model :: string
  pk_billing_period :: string
  pk_priority :: int
  pk_active :: bool
  pk_metadata :: json

record user_preference =
  up_user_id :: user_id
  up_package_id :: package_id
  up_previous_package_id :: "package_id option"
  up_effective_from :: time
  up_created_at :: time
  up_updated_at :: time

record package_db = rental_db +
  packages :: "package_row list"
  user_preferences :: "user_preference list"
  required_columns :: "string list"
  collation :: "string \<Rightarrow> rat"
  package_cache :: "package_id \<rightharpoonup> billing_package"

type_synonym ('z, 'a) package_prog = "('z package_db_scheme, billing_error, 'a) prog"

text \<open>The columns of \<open>billing_packages\<close> that are \<open>NOT NULL\<close> and have no default.\<close>

definition migration_required_columns :: "string list" where
  "migration_required_columns = [''package_id'', ''name'', ''cpu_rate_per_hour'', ''memory_rate_per_gb_hour'',
     ''network_rate_per_gb'', ''disk_iops_rate'']"

definition parse_billing_period :: "string \<Rightarrow> billing_period" where
  "parse_billing_period s =
     (if s = ''Hourly'' then Hourly else if s = ''Daily'' then Daily else if s = ''Weekly'' then Weekly
      else if s = ''Monthly'' then Monthly else Hourly)"

fun show_billing_period :: "billing_period \<Rightarrow> string" where
  "show_billing_period Hourly = ''Hourly''"
| "show_billing_period Daily = ''Daily''"
| "show_billing_period Weekly = ''Weekly''"
| "show_billing_period Monthly = ''Monthly''"

definition package_from_row :: "'d billing_ops_scheme \<Rightarrow> package_row \<Rightarrow> billing_package" where
  "package_from_row D r =
     \<lparr>pkg_id = pk_id r, pkg_name = pk_name r, pkg_description = pk_description r,
      pkg_hourly_rate = from_decimal D (pk_hourly_rate r), pkg_gpu_model = pk_gpu_model r,
      pkg_billing_period = parse_billing_period (pk_billing_period r),
      pkg_priority = word_of_int (pk_priority r), pkg_active = pk_active r,
      pkg_metadata = unwrap_or (metadata_of_json D (pk_metadata r)) []\<rparr>"

definition cache_insert :: "package_id \<Rightarrow> billing_package \<Rightarrow> ('z, unit) package_prog" where
  "cache_insert i p = modify (package_cache_update (\<lambda>c. c(i \<mapsto> p)))"

definition cache_remove :: "package_id \<Rightarrow> ('z, unit) package_prog" where
  "cache_remove i = modify (package_cache_update (\<lambda>c. c(i := None)))"

definition cache_get :: "package_id \<Rightarrow> ('z, billing_package option) package_prog" where
  "cache_get i = gets (\<lambda>s. package_cache s i)"

definition refresh_cache :: "'d billing_ops_scheme \<Rightarrow> ('z, unit) package_prog" where
  "refresh_cache D =
     andthen (sql (DatabaseError ''fetch_all_packages'') (gets (\<lambda>s. rows_where pk_active (packages s)))) (\<lambda>rows.
     andthen (modify (package_cache_update (\<lambda>_. Map.empty))) (\<lambda>_.
       for_each (\<lambda>r. cache_insert (pk_id r) (package_from_row D r)) rows))"

definition load_from_database :: "'d billing_ops_scheme \<Rightarrow> package_id \<Rightarrow> ('z, billing_package option) package_prog" where
  "load_from_database D i =
     sql (DatabaseError ''fetch_package'')
       (gets (\<lambda>s. map_option (package_from_row D) (row_of pk_id i (packages s))))"

text \<open>The columns the statement of \<open>persist_to_database\<close> gives a value.\<close>

definition upsert_columns :: "string list" where
  "upsert_columns = [''package_id'', ''name'', ''description'', ''hourly_rate'', ''gpu_model'', ''billing_period'',
     ''priority'', ''active'', ''metadata'', ''updated_at'']"

definition persist_to_database :: "'d billing_ops_scheme \<Rightarrow> billing_package \<Rightarrow> ('z, unit) package_prog" where
  "persist_to_database D p =
     sql (DatabaseError ''upsert_package'')
       (andthen (gets required_columns) (\<lambda>required.
          if \<not> list_all (\<lambda>c. c \<in> set upsert_columns) required \<or> 100 < length (pkg_id p) \<or>
             255 < length (pkg_name p) \<or> 100 < length (pkg_gpu_model p)
          then fail (DatabaseError ''upsert_package'')
          else case pg_numeric D 10 4 (pkg_hourly_rate p) of
            None \<Rightarrow> fail (DatabaseError ''upsert_package'')
          | Some rate \<Rightarrow>
              if rate < 0 then fail (DatabaseError ''upsert_package'')
              else
                let row = \<lparr>pk_id = pkg_id p, pk_name = pkg_name p, pk_description = pkg_description p,
                      pk_hourly_rate = rate, pk_gpu_model = pkg_gpu_model p,
                      pk_billing_period = show_billing_period (pkg_billing_period p),
                      pk_priority = sint (pkg_priority p), pk_active = pkg_active p,
                      pk_metadata = metadata_to_json D (pkg_metadata p)\<rparr>
                in modify (packages_update (\<lambda>rs.
                     if row_of pk_id (pkg_id p) rs = None then rs @ [row]
                     else update_where (\<lambda>r. pk_id r = pkg_id p) (\<lambda>_. row) rs))))"

definition package_exists :: "package_id \<Rightarrow> ('z, bool) package_prog" where
  "package_exists i =
     sql (DatabaseError ''check_package_exists'') (gets (\<lambda>s. row_of pk_id i (packages s) \<noteq> None))"

subsection \<open>\<open>SqlPackageRepository\<close>\<close>

definition sql_get_package :: "'d billing_ops_scheme \<Rightarrow> package_id \<Rightarrow> ('z, billing_package) package_prog" where
  "sql_get_package D i =
     andthen (cache_get i) (\<lambda>cached.
       case cached of
         Some p \<Rightarrow> ok p
       | None \<Rightarrow>
           andthen (load_from_database D i) (\<lambda>loaded.
             case loaded of
               Some p \<Rightarrow> andthen (cache_insert i p) (\<lambda>_. ok p)
             | None \<Rightarrow> fail (PackageNotFound i)))"

definition sql_list_packages :: "'d billing_ops_scheme \<Rightarrow> ('z, billing_package list) package_prog" where
  "sql_list_packages D =
     sql (DatabaseError ''list_packages'')
       (gets (\<lambda>s. map (package_from_row D)
          (sort_key pk_priority (sort_key (\<lambda>r. collation s (pk_id r)) (rows_where pk_active (packages s))))))"

definition sql_create_package :: "'d billing_ops_scheme \<Rightarrow> billing_package \<Rightarrow> ('z, unit) package_prog" where
  "sql_create_package D p =
     andthen (package_exists (pkg_id p)) (\<lambda>existing.
       if existing
       then fail (ValidationError ''package_id'' (''Package '' @ pkg_id p @ '' already exists''))
       else andthen (persist_to_database D p) (\<lambda>_. cache_insert (pkg_id p) p))"

definition sql_update_package :: "'d billing_ops_scheme \<Rightarrow> billing_package \<Rightarrow> ('z, unit) package_prog" where
  "sql_update_package D p =
     andthen (package_exists (pkg_id p)) (\<lambda>existing.
       if \<not> existing then fail (PackageNotFound (pkg_id p))
       else andthen (persist_to_database D p) (\<lambda>_. cache_insert (pkg_id p) p))"

definition package_referenced :: "package_id \<Rightarrow> 'z package_db_scheme \<Rightarrow> bool" where
  "package_referenced i s =
     list_ex (\<lambda>u. up_package_id u = i \<or> up_previous_package_id u = Some i) (user_preferences s)"

definition sql_delete_package :: "package_id \<Rightarrow> ('z, unit) package_prog" where
  "sql_delete_package i =
     andthen (sql (DatabaseError ''delete_package'')
       (andthen (gets (\<lambda>s. (affected (\<lambda>r. pk_id r = i) (packages s), package_referenced i s))) (\<lambda>(n, referenced).
          if n \<noteq> 0 \<and> referenced then fail (DatabaseError ''delete_package'')
          else andthen (modify (packages_update (delete_where (\<lambda>r. pk_id r = i)))) (\<lambda>_. ok n))))
       (\<lambda>rows_affected. if rows_affected = 0 then fail (PackageNotFound i) else cache_remove i)"

definition set_package_active :: "string \<Rightarrow> package_id \<Rightarrow> bool \<Rightarrow> ('z, nat) package_prog" where
  "set_package_active operation i b =
     sql (DatabaseError operation)
       (andthen (gets packages) (\<lambda>rs.
        andthen (modify (packages_update (update_where (\<lambda>r. pk_id r = i) (\<lambda>r. r\<lparr>pk_active := b\<rparr>)))) (\<lambda>_.
          ok (affected (\<lambda>r. pk_id r = i) rs))))"

definition sql_activate_package :: "'d billing_ops_scheme \<Rightarrow> package_id \<Rightarrow> ('z, unit) package_prog" where
  "sql_activate_package D i =
     andthen (set_package_active ''activate_package'' i True) (\<lambda>rows_affected.
       if rows_affected = 0 then fail (PackageNotFound i)
       else andthen (load_from_database D i) (\<lambda>loaded.
         case loaded of Some p \<Rightarrow> cache_insert i p | None \<Rightarrow> ok ()))"

definition sql_deactivate_package :: "package_id \<Rightarrow> ('z, unit) package_prog" where
  "sql_deactivate_package i =
     andthen (set_package_active ''deactivate_package'' i False) (\<lambda>rows_affected.
       if rows_affected = 0 then fail (PackageNotFound i) else cache_remove i)"

definition gpu_matches :: "string \<Rightarrow> package_row \<Rightarrow> bool" where
  "gpu_matches gpu_model r =
     (let g = to_lowercase (pk_gpu_model r); m = to_lowercase gpu_model in
      g = m \<or> gpu_like g m \<or> gpu_like m g)"

definition find_period :: "string \<Rightarrow> billing_period" where
  "find_period s =
     (if s = ''Hourly'' then Hourly else if s = ''Daily'' then Daily
      else if s = ''Monthly'' then Monthly else Hourly)"

definition best_match :: "string \<Rightarrow> package_row list \<Rightarrow> package_row option" where
  "best_match gpu_model rows =
     (case sort_key (\<lambda>r. if to_lowercase (pk_gpu_model r) = to_lowercase gpu_model then 0 else 1 :: nat)
             (sort_key (\<lambda>r. - pk_priority r)
               (rows_where (\<lambda>r. pk_active r \<and> gpu_matches gpu_model r) rows)) of
        [] \<Rightarrow> None
      | r # _ \<Rightarrow> Some r)"

definition sql_find_package_for_gpu_model ::
  "'d billing_ops_scheme \<Rightarrow> string \<Rightarrow> ('z, billing_package) package_prog" where
  "sql_find_package_for_gpu_model D gpu_model =
     andthen (sql (DatabaseError ''find_package_for_gpu_model'') (gets (\<lambda>s. best_match gpu_model (packages s)))) (\<lambda>row.
       case row of
         Some r \<Rightarrow> ok ((package_from_row D r)\<lparr>pkg_billing_period := find_period (pk_billing_period r)\<rparr>)
       | None \<Rightarrow> sql_get_package D package_custom)"

definition sql_is_package_compatible_with_gpu :: "package_id \<Rightarrow> string \<Rightarrow> ('z, bool) package_prog" where
  "sql_is_package_compatible_with_gpu i gpu_model =
     sql (DatabaseError ''is_package_compatible_with_gpu'')
       (gets (\<lambda>s. list_ex (\<lambda>r. pk_id r = i \<and> pk_active r \<and>
          (to_lowercase (pk_gpu_model r) = ''custom'' \<or> gpu_matches gpu_model r)) (packages s)))"

definition sql_evaluate_package_cost ::
  "'d billing_ops_scheme \<Rightarrow> package_id \<Rightarrow> usage_metrics \<Rightarrow> ('z, cost_breakdown) package_prog" where
  "sql_evaluate_package_cost D i usage =
     andthen (sql_get_package D i) (\<lambda>p. ok (calculate_cost D p usage))"

record 's package_repo =
  repo_get_package :: "package_id \<Rightarrow> ('s, billing_error, billing_package) prog"
  repo_list_packages :: "('s, billing_error, billing_package list) prog"
  repo_create_package :: "billing_package \<Rightarrow> ('s, billing_error, unit) prog"
  repo_update_package :: "billing_package \<Rightarrow> ('s, billing_error, unit) prog"
  repo_delete_package :: "package_id \<Rightarrow> ('s, billing_error, unit) prog"
  repo_activate_package :: "package_id \<Rightarrow> ('s, billing_error, unit) prog"
  repo_deactivate_package :: "package_id \<Rightarrow> ('s, billing_error, unit) prog"
  repo_find_package_for_gpu_model :: "string \<Rightarrow> ('s, billing_error, billing_package) prog"
  repo_is_package_compatible_with_gpu :: "package_id \<Rightarrow> string \<Rightarrow> ('s, billing_error, bool) prog"
  repo_evaluate_package_cost :: "package_id \<Rightarrow> usage_metrics \<Rightarrow> ('s, billing_error, cost_breakdown) prog"

definition sql_package_repository :: "'d billing_ops_scheme \<Rightarrow> 'z package_db_scheme package_repo" where
  "sql_package_repository D =
     \<lparr>repo_get_package = sql_get_package D, repo_list_packages = sql_list_packages D,
      repo_create_package = sql_create_package D, repo_update_package = sql_update_package D,
      repo_delete_package = sql_delete_package, repo_activate_package = sql_activate_package D,
      repo_deactivate_package = sql_deactivate_package,
      repo_find_package_for_gpu_model = sql_find_package_for_gpu_model D,
      repo_is_package_compatible_with_gpu = sql_is_package_compatible_with_gpu,
      repo_evaluate_package_cost = sql_evaluate_package_cost D\<rparr>"

subsection \<open>\<open>RepositoryPackageService\<close>\<close>

definition evaluate_cost ::
  "'d decimal_ops_scheme \<Rightarrow> 's package_repo \<Rightarrow> package_id \<Rightarrow> usage_metrics \<Rightarrow> ('s, billing_error, cost_breakdown) prog" where
  "evaluate_cost D R i usage = andthen (repo_get_package R i) (\<lambda>p. ok (calculate_cost D p usage))"

definition recommend_package :: "'s package_repo \<Rightarrow> string \<Rightarrow> ('s, billing_error, billing_package) prog" where
  "recommend_package R gpu_model = repo_find_package_for_gpu_model R gpu_model"

definition validate_package_requirements ::
  "'s package_repo \<Rightarrow> billing_package \<Rightarrow> string \<Rightarrow> ('s, billing_error, bool) prog" where
  "validate_package_requirements R p gpu_model = repo_is_package_compatible_with_gpu R (pkg_id p) gpu_model"

subsection \<open>\<open>SqlUserPreferencesRepository\<close>\<close>

definition sql_get_user_package :: "user_id \<Rightarrow> ('z, user_preference option) package_prog" where
  "sql_get_user_package u =
     sql (DatabaseError ''get_user_package'') (gets (\<lambda>s. row_of up_user_id u (user_preferences s)))"

definition sql_set_user_package ::
  "user_id \<Rightarrow> package_id \<Rightarrow> time option \<Rightarrow> ('z, package_id option) package_prog" where
  "sql_set_user_package u p effective_from =
     andthen (case effective_from of Some e \<Rightarrow> ok e | None \<Rightarrow> utc_now) (\<lambda>effective_from.
     andthen (sql_get_user_package u) (\<lambda>current.
       let previous_package_id = map_option up_package_id current in
       andthen (sql (DatabaseError ''set_user_package'')
         (andthen db_now (\<lambda>now. andthen (gets (\<lambda>s. (packages s, user_preferences s))) (\<lambda>(ps, us).
            let known = (\<lambda>x. row_of pk_id x ps \<noteq> None) in
            if \<not> known p \<or> 255 < length u then fail (DatabaseError ''set_user_package'')
            else if row_of up_user_id u us = None
            then if \<not> pred_option known previous_package_id then fail (DatabaseError ''set_user_package'')
              else modify (user_preferences_update (\<lambda>us. us @
              [\<lparr>up_user_id = u, up_package_id = p, up_previous_package_id = previous_package_id,
                up_effective_from = effective_from, up_created_at = now, up_updated_at = now\<rparr>]))
            else modify (user_preferences_update (update_where (\<lambda>x. up_user_id x = u) (\<lambda>x.
              x\<lparr>up_package_id := p, up_previous_package_id := Some (up_package_id x),
                up_effective_from := effective_from, up_updated_at := now\<rparr>)))))))
         (\<lambda>_. ok previous_package_id)))"

subsection \<open>What a package costs\<close>

definition rate_ok :: "credit_balance \<Rightarrow> bool" where
  "rate_ok x \<longleftrightarrow> 0 \<le> x \<and> numeric_fits 10 4 x"

lemma rate_ok_credit: "rate_ok x \<Longrightarrow> credit_ok x"
proof -
  assume "rate_ok x"
  then have x: "0 \<le> x" "x < 1000000" "of_int \<lfloor>x * 10000\<rfloor> = x * 10000"
    unfolding rate_ok_def numeric_fits_def has_places_def by auto
  then have "of_int \<lfloor>x * 10000 * of_int 100\<rfloor> = x * 10000 * of_int 100"
    by (intro int_multiple)
  with x show ?thesis by (simp add: credit_ok_def dec6_def mult.commute)
qed

lemma rate_ok_bounds: "rate_ok x \<Longrightarrow> 0 \<le> x \<and> x < 10 ^ 6"
  by (auto simp: rate_ok_def numeric_fits_def)

context rust_decimal
begin

lemma package_cost_bounds:
  assumes "rate_ok (pkg_hourly_rate p)" and "gpu_hours u \<le> 10 ^ 6"
  defines "c \<equiv> calculate_cost D p u" and "h \<equiv> max (gpu_hours u) 1"
  shows "pkg_hourly_rate p \<le> total_cost c" and "\<bar>total_cost c - pkg_hourly_rate p * h\<bar> \<le> 1 / 10 ^ 6"
    and "base_cost c = total_cost c" and "usage_cost c = 0" and "discounts c = 0" and "overage_charges c = 0"
    and "credit_ok (total_cost c)"
proof -
  let ?r = "pkg_hourly_rate p"
  have r: "0 \<le> ?r" "?r < 10 ^ 6" "credit_ok ?r"
    using assms(1) rate_ok_bounds rate_ok_credit by blast+
  have h: "1 \<le> h" "h \<le> 10 ^ 6" using assms(2) by (auto simp: h_def)
  have rh: "0 \<le> ?r * h" "?r * h \<le> 10 ^ 6 * 10 ^ 6"
    using r h mult_mono [of ?r "10 ^ 6" h "10 ^ 6"] by simp_all
  have c: "total_cost c = cb_multiply D ?r h" by (simp add: c_def h_def calculate_cost_def Let_def)
  have "cb_multiply D ?r 1 \<le> cb_multiply D ?r h"
    using r h rh by (intro cb_multiply_mono) auto
  then show "?r \<le> total_cost c" by (simp add: c cb_multiply_1 r)
  show near: "\<bar>total_cost c - ?r * h\<bar> \<le> 1 / 10 ^ 6"
    unfolding c using rh by (intro cb_multiply_near) auto
  show "base_cost c = total_cost c" "usage_cost c = 0" "discounts c = 0" "overage_charges c = 0"
    by (simp_all add: c_def calculate_cost_def Let_def cb_zero_def)
  show "credit_ok (total_cost c)"
  proof -
    have "\<bar>total_cost c - ?r * h\<bar> \<le> 1" using near by (rule order_trans) simp
    moreover have "?r * h \<le> 10 ^ 13" using rh by simp
    moreover have "(10 ^ 13 :: rat) + 1 \<le> 10 ^ 22" by simp
    ultimately have "\<bar>total_cost c\<bar> \<le> 10 ^ 22" using rh(1) by linarith
    then show ?thesis by (simp add: c credit_ok_def cb_multiply_def from_decimal_dec6)
  qed
qed

lemma package_cost_mono:
  assumes "rate_ok (pkg_hourly_rate p)" and "gpu_hours u \<le> gpu_hours v" and "gpu_hours v \<le> 10 ^ 6"
  shows "total_cost (calculate_cost D p u) \<le> total_cost (calculate_cost D p v)"
proof -
  have "0 \<le> pkg_hourly_rate p * max (gpu_hours x) 1 \<and> pkg_hourly_rate p * max (gpu_hours x) 1 \<le> 10 ^ 6 * 10 ^ 6"
    if "gpu_hours x \<le> 10 ^ 6" for x :: usage_metrics
    using rate_ok_bounds [OF assms(1)] that
      mult_mono [of "pkg_hourly_rate p" "10 ^ 6" "max (gpu_hours x) 1" "10 ^ 6"] by simp
  from this [of u] this [of v] show ?thesis
    using assms rate_ok_bounds [OF assms(1)]
    by (auto simp: calculate_cost_def Let_def intro!: cb_multiply_mono)
qed

end

subsection \<open>\<open>LIKE\<close> and substrings\<close>

definition plain_char :: "char \<Rightarrow> bool" where
  "plain_char c \<longleftrightarrow> c \<noteq> CHR ''%'' \<and> c \<noteq> CHR ''_'' \<and> c \<noteq> CHR 0x5C"

lemma ex_drop_Cons:
  "(\<exists>i\<le>length (d # s). P (drop i (d # s))) \<longleftrightarrow> P (d # s) \<or> (\<exists>i\<le>length s. P (drop i s))" (is "?L = ?R")
proof
  assume ?L
  then obtain i where "i \<le> length (d # s)" "P (drop i (d # s))" by blast
  then show ?R by (cases i) auto
next
  assume ?R
  then show ?L
    by (elim disjE exE conjE) (force intro: exI [of _ 0], force intro: exI [of _ "Suc i" for i])
qed

lemma like_percent: "sql_like (CHR ''%'' # p) s \<longleftrightarrow> (\<exists>i\<le>length s. sql_like p (drop i s))"
proof (induction s)
  case Nil
  show ?case by (subst sql_like.simps) simp
next
  case (Cons d s)
  with ex_drop_Cons [of d s "sql_like p"] show ?case by (subst sql_like.simps) simp
qed

lemma like_plain: "plain_char c \<Longrightarrow> sql_like (c # p) s \<longleftrightarrow> s \<noteq> [] \<and> hd s = c \<and> sql_like p (tl s)"
  by (subst sql_like.simps) (simp add: plain_char_def)

lemma like_prefix:
  "list_all plain_char x \<Longrightarrow> sql_like (x @ ''%'') s \<longleftrightarrow> take (length x) s = x"
proof (induction x arbitrary: s)
  case Nil
  have "sql_like [] (drop (length s) s)" by (simp add: sql_like.simps)
  then show ?case by (auto simp: like_percent intro: exI [of _ "length s"])
next
  case (Cons c x)
  then show ?case by (cases s) (auto simp: like_plain)
qed

lemma contains_iff: "contains s p \<longleftrightarrow> (\<exists>i\<le>length s. take (length p) (drop i s) = p)"
proof (induction s)
  case Nil
  show ?case by auto
next
  case (Cons d s)
  with ex_drop_Cons [of d s "\<lambda>t. take (length p) t = p"] show ?case by simp
qed

lemma gpu_like_contains: "list_all plain_char x \<Longrightarrow> gpu_like s x = contains s x"
  by (simp add: gpu_like_def like_percent like_prefix contains_iff)

subsection \<open>The cache agrees with the table\<close>

text \<open>A run in which no statement is carried out with its answer lost.\<close>

definition acked :: "'z env_scheme \<Rightarrow> bool" where
  "acked s \<longleftrightarrow> (\<forall>n. db_outcome s n \<noteq> Unacked)"

definition coherent :: "'d billing_ops_scheme \<Rightarrow> bool \<Rightarrow> package_row list \<Rightarrow> (package_id \<rightharpoonup> billing_package) \<Rightarrow> bool" where
  "coherent D exact rows cache \<longleftrightarrow>
     (\<forall>i p. cache i = Some p \<longrightarrow>
        (\<exists>r. row_of pk_id i rows = Some r \<and> p = (package_from_row D r)\<lparr>pkg_active := pkg_active p\<rparr> \<and>
             (exact \<longrightarrow> pkg_active p = pk_active r)))"

definition package_db_ok :: "'d billing_ops_scheme \<Rightarrow> 'z package_db_scheme \<Rightarrow> bool" where
  "package_db_ok D s \<longleftrightarrow> acked s \<and> unique_key pk_id (packages s) \<and>
     list_all (\<lambda>r. rate_ok (pk_hourly_rate r)) (packages s) \<and> coherent D (reliable s) (packages s) (package_cache s)"

lemma acked_tick [simp]: "acked (s\<lparr>tick := n\<rparr>) = acked s"
  by (simp add: acked_def)

lemma tickless_package_db_ok [simp, intro]: "tickless (package_db_ok D)"
  by (simp add: tickless_def package_db_ok_def)

lemma package_db_ok_tick [simp]: "package_db_ok D (s\<lparr>tick := n\<rparr>) = package_db_ok D s"
  by (simp add: package_db_ok_def)

lemma acked_sql:
  "acked s \<Longrightarrow> sql e stmt s = (if reliable s \<or> db_outcome s (tick s) = Done then stmt (s\<lparr>tick := Suc (tick s)\<rparr>)
     else (Inl e, s\<lparr>tick := Suc (tick s)\<rparr>))"
  by (cases "db_outcome s (tick s)") (auto simp: acked_def sql_def reliable_def)

lemma env_simps [simp]:
  "reliable (packages_update f s) = reliable s" "acked (packages_update f s) = acked s"
  "reliable (package_cache_update g s) = reliable s" "acked (package_cache_update g s) = acked s"
  "reliable (user_preferences_update h s) = reliable s" "acked (user_preferences_update h s) = acked s"
  by (simp_all add: reliable_def acked_def)

lemma coherent_insert:
  "coherent D b rows cache \<Longrightarrow> row_of pk_id i rows = Some r \<Longrightarrow> coherent D b rows (cache(i \<mapsto> package_from_row D r))"
  by (auto simp: coherent_def package_from_row_def)

lemma coherent_remove: "coherent D b rows cache \<Longrightarrow> coherent D b rows (cache(i := None))"
  by (auto simp: coherent_def)

lemma coherent_empty: "coherent D b rows Map.empty"
  by (simp add: coherent_def)

lemma coherent_package:
  "coherent D b rows cache \<Longrightarrow> cache i = Some p \<Longrightarrow>
     \<exists>r. row_of pk_id i rows = Some r \<and> pkg_id p = i \<and> pkg_hourly_rate p = from_decimal D (pk_hourly_rate r)"
proof -
  assume "coherent D b rows cache" "cache i = Some p"
  then obtain r where r: "row_of pk_id i rows = Some r" "p = (package_from_row D r)\<lparr>pkg_active := pkg_active p\<rparr>"
    by (auto simp: coherent_def)
  have "pkg_id p = i" "pkg_hourly_rate p = from_decimal D (pk_hourly_rate r)"
    using row_of_Some [OF r(1)] by (subst r(2); simp add: package_from_row_def)+
  with r show ?thesis by blast
qed

lemma coherent_exact:
  assumes "coherent D True rows cache" "cache i = Some p" "row_of pk_id i rows = Some r"
  shows "p = package_from_row D r"
proof -
  obtain q where q: "row_of pk_id i rows = Some q" "p = (package_from_row D q)\<lparr>pkg_active := pkg_active p\<rparr>"
      "pkg_active p = pk_active q"
    using assms(1,2) unfolding coherent_def by blast
  have "(package_from_row D r)\<lparr>pkg_active := pk_active r\<rparr> = package_from_row D r" by (simp add: package_from_row_def)
  then show ?thesis by (subst q(2)) (use q(1,3) assms(3) in simp)
qed

lemma row_of_delete_other: "j \<noteq> i \<Longrightarrow> row_of k j (delete_where (\<lambda>r. k r = i) rs) = row_of k j rs"
  by (induction rs) (auto simp: delete_where_def)

lemma row_of_delete_same: "row_of k i (delete_where (\<lambda>r. k r = i) rs) = None"
  by (simp add: row_of_None delete_where_def image_iff) blast

lemma delete_where_none: "affected p rs = 0 \<Longrightarrow> delete_where p rs = rs"
  by (auto simp: affected_0 delete_where_def)

lemma update_where_none: "affected p rs = 0 \<Longrightarrow> update_where p f rs = rs"
  by (auto simp: affected_0 intro: update_where_id)

lemma unique_key_delete: "unique_key k rs \<Longrightarrow> unique_key k (delete_where p rs)"
  by (induction rs) (auto simp: unique_key_def delete_where_def)

lemma coherent_delete:
  "coherent D b rows cache \<Longrightarrow> coherent D b (delete_where (\<lambda>r. pk_id r = i) rows) (cache(i := None))"
  by (auto simp: coherent_def row_of_delete_other)

lemma coherent_other_rows:
  assumes "coherent D b rows cache" and "\<And>j. j \<noteq> i \<Longrightarrow> row_of pk_id j rows' = row_of pk_id j rows"
  shows "coherent D b rows' (cache(i := None))"
  using assms by (auto simp: coherent_def)

lemma coherent_put:
  assumes "coherent D b rows cache" and "\<And>j. j \<noteq> i \<Longrightarrow> row_of pk_id j rows' = row_of pk_id j rows"
    and "row_of pk_id i rows' = Some r"
  shows "coherent D b rows' (cache(i \<mapsto> package_from_row D r))"
  using coherent_insert [OF coherent_other_rows [where i = i, OF assms(1,2)] assms(3)] by simp

text \<open>Where the new value of the flag does not reach the cache, it agrees up to the flag.\<close>

lemma coherent_flag:
  assumes "coherent D b rows cache"
  shows "coherent D False (update_where (\<lambda>r. pk_id r = i) (\<lambda>r. r\<lparr>pk_active := v\<rparr>) rows) cache"
  unfolding coherent_def
proof (intro allI impI)
  fix j p
  assume "cache j = Some p"
  with assms obtain r where r: "row_of pk_id j rows = Some r" "p = (package_from_row D r)\<lparr>pkg_active := pkg_active p\<rparr>"
    unfolding coherent_def by blast
  show "\<exists>r. row_of pk_id j (update_where (\<lambda>r. pk_id r = i) (\<lambda>r. r\<lparr>pk_active := v\<rparr>) rows) = Some r \<and>
      p = (package_from_row D r)\<lparr>pkg_active := pkg_active p\<rparr> \<and> (False \<longrightarrow> pkg_active p = pk_active r)"
  proof (cases "j = i")
    case True
    have "(package_from_row D (r\<lparr>pk_active := v\<rparr>))\<lparr>pkg_active := x\<rparr> = (package_from_row D r)\<lparr>pkg_active := x\<rparr>" for x
      by (simp add: package_from_row_def)
    with r True show ?thesis by (auto simp: row_of_update_same)
  next
    case False
    with r show ?thesis by (auto simp: row_of_update_other)
  qed
qed

lemma list_all_update_active:
  "list_all (\<lambda>r. rate_ok (pk_hourly_rate r)) (update_where q (\<lambda>r. r\<lparr>pk_active := v\<rparr>) rows) =
     list_all (\<lambda>r. rate_ok (pk_hourly_rate r)) rows"
  by (induction rows) auto

lemma andthen_cache_insert [simp]:
  "andthen (cache_insert i p) f s = f () (package_cache_update (\<lambda>c. c(i \<mapsto> p)) s)"
  by (simp add: cache_insert_def andthen_def)

lemma keeps_cache_remove: "keeps (package_db_ok D) (cache_remove i)"
  by (rule keepsI) (auto simp: cache_remove_def package_db_ok_def intro: coherent_remove)

lemma get_package_run:
  assumes "acked s"
  shows "sql_get_package D i s =
    (case package_cache s i of
       Some p \<Rightarrow> (Inr p, s)
     | None \<Rightarrow>
         let s' = s\<lparr>tick := Suc (tick s)\<rparr> in
         if \<not> (reliable s \<or> db_outcome s (tick s) = Done) then (Inl (DatabaseError ''fetch_package''), s')
         else (case row_of pk_id i (packages s) of
                 None \<Rightarrow> (Inl (PackageNotFound i), s')
               | Some r \<Rightarrow> (Inr (package_from_row D r), package_cache_update (\<lambda>c. c(i \<mapsto> package_from_row D r)) s')))"
  using assms
  by (auto simp: sql_get_package_def cache_get_def load_from_database_def acked_sql andthen_def cache_insert_def Let_def
      split: option.splits)

lemma keeps_get_package: "keeps (package_db_ok D) (sql_get_package D i)"
proof (rule keepsI)
  fix s r t
  assume "package_db_ok D s" and "sql_get_package D i s = (r, t)"
  then show "package_db_ok D t"
    by (auto simp: package_db_ok_def get_package_run Let_def coherent_insert split: option.splits if_splits)
qed

lemma fill_cache:
  assumes "package_db_ok D u" "set rows \<subseteq> set (packages u)"
  shows "package_db_ok D (snd (for_each (\<lambda>r. cache_insert (pk_id r) (package_from_row D r)) rows u))"
  using assms
proof (induction rows arbitrary: u)
  case Nil
  then show ?case by simp
next
  case (Cons x rows)
  then have "row_of pk_id (pk_id x) (packages u) = Some x"
    by (auto simp: package_db_ok_def intro: unique_key_row_of)
  with Cons.prems have "package_db_ok D (package_cache_update (\<lambda>c. c(pk_id x \<mapsto> package_from_row D x)) u)"
    by (simp add: package_db_ok_def coherent_insert)
  with Cons show ?case by simp
qed

lemma keeps_refresh: "keeps (package_db_ok D) (refresh_cache D)"
proof (rule keepsI)
  fix s r t
  assume inv: "package_db_ok D s" and run: "refresh_cache D s = (r, t)"
  let ?u = "s\<lparr>tick := Suc (tick s), package_cache := Map.empty\<rparr>"
  have "package_db_ok D ?u" using inv by (simp add: package_db_ok_def coherent_empty reliable_def acked_def)
  from fill_cache [OF this, of "rows_where pk_active (packages s)"]
  show "package_db_ok D t"
    using inv run
    by (auto simp: refresh_cache_def acked_sql package_db_ok_def andthen_def rows_where_def split: if_splits)
qed

lemma keeps_delete: "keeps (package_db_ok D) (sql_delete_package i)"
proof (rule keepsI)
  fix s r t
  assume "package_db_ok D s" and "sql_delete_package i s = (r, t)"
  then show "package_db_ok D t"
    by (auto simp: package_db_ok_def sql_delete_package_def acked_sql andthen_def cache_remove_def
        delete_where_none coherent_delete unique_key_delete list_all_iff split: if_splits)
       (auto simp: delete_where_def)
qed

lemma keeps_deactivate: "keeps (package_db_ok D) (sql_deactivate_package i)"
proof (rule keepsI)
  fix s r t
  assume "package_db_ok D s" and "sql_deactivate_package i s = (r, t)"
  moreover have "coherent D b (update_where (\<lambda>r. pk_id r = i) (\<lambda>r. r\<lparr>pk_active := False\<rparr>) rows) (cache(i := None))"
    if "coherent D b rows cache" for b rows cache
    using that by (rule coherent_other_rows) (simp add: row_of_update_other)
  ultimately show "package_db_ok D t"
    by (auto simp: package_db_ok_def sql_deactivate_package_def set_package_active_def acked_sql andthen_def
        cache_remove_def update_where_none list_all_update_active split: if_splits)
qed

lemma keeps_activate: "keeps (package_db_ok D) (sql_activate_package D i)"
proof (rule keepsI)
  fix s r t
  assume inv: "package_db_ok D s" and run: "sql_activate_package D i s = (r, t)"
  let ?rows = "update_where (\<lambda>r. pk_id r = i) (\<lambda>r. r\<lparr>pk_active := True\<rparr>)"
  have loaded: "coherent D b (?rows rows) (cache(i \<mapsto> package_from_row D q))"
    if "coherent D b rows cache" "row_of pk_id i (?rows rows) = Some q" for b rows cache q
    using that(1) _ that(2) by (rule coherent_put) (simp add: row_of_update_other)
  have found: "row_of pk_id i (?rows rows) \<noteq> None" if "affected (\<lambda>r. pk_id r = i) rows \<noteq> 0" for rows
    using that by (simp add: affected_key_0 row_of_update_same)
  have lost: "coherent D (reliable s) (?rows (packages s)) (package_cache s)" if "\<not> reliable s"
    using coherent_flag [of D "reliable s"] inv that by (simp add: package_db_ok_def)
  show "package_db_ok D t"
  proof (cases "affected (\<lambda>r. pk_id r = i) (packages s) = 0")
    case True
    with inv run show ?thesis
      by (auto simp: package_db_ok_def sql_activate_package_def set_package_active_def acked_sql andthen_def
          update_where_none split: if_splits)
  next
    case False
    then obtain q where q: "row_of pk_id i (?rows (packages s)) = Some q" using found by blast
    from False inv run lost loaded [OF _ q] show ?thesis
      by (auto simp: package_db_ok_def sql_activate_package_def set_package_active_def load_from_database_def
          acked_sql andthen_def cache_insert_def q list_all_update_active split: if_splits)
  qed
qed

lemma upsert_rows:
  fixes row :: package_row and rs :: "package_row list"
  defines "rs' \<equiv> (if row_of pk_id (pk_id row) rs = None then rs @ [row]
     else update_where (\<lambda>r. pk_id r = pk_id row) (\<lambda>_. row) rs)"
  shows "row_of pk_id (pk_id row) rs' = Some row"
    and "j \<noteq> pk_id row \<Longrightarrow> row_of pk_id j rs' = row_of pk_id j rs"
    and "unique_key pk_id rs \<Longrightarrow> unique_key pk_id rs'"
    and "list_all P rs \<Longrightarrow> P row \<Longrightarrow> list_all P rs'"
proof -
  show "row_of pk_id (pk_id row) rs' = Some row"
    by (auto simp: rs'_def row_of_update_same)
  show "row_of pk_id j rs' = row_of pk_id j rs" if "j \<noteq> pk_id row"
  proof -
    have "row_of pk_id j (update_where (\<lambda>r. pk_id r = pk_id row) (\<lambda>_. row) rs) = row_of pk_id j rs"
      using that by (induction rs) auto
    with that show ?thesis by (auto simp: rs'_def row_of_append split: option.splits)
  qed
  show "unique_key pk_id rs'" if "unique_key pk_id rs"
    using that by (auto simp: rs'_def unique_key_snoc)
  show "list_all P rs'" if "list_all P rs" "P row"
    using that by (auto simp: rs'_def list_all_iff set_update_where)
qed

lemma parse_show_period [simp]: "parse_billing_period (show_billing_period b) = b"
  by (cases b) (simp_all add: parse_billing_period_def)

definition row_of_package :: "'d billing_ops_scheme \<Rightarrow> billing_package \<Rightarrow> package_row" where
  "row_of_package D p =
     \<lparr>pk_id = pkg_id p, pk_name = pkg_name p, pk_description = pkg_description p,
      pk_hourly_rate = pkg_hourly_rate p, pk_gpu_model = pkg_gpu_model p,
      pk_billing_period = show_billing_period (pkg_billing_period p),
      pk_priority = sint (pkg_priority p), pk_active = pkg_active p,
      pk_metadata = metadata_to_json D (pkg_metadata p)\<rparr>"

context billing_platform
begin

lemma package_round_trip: "rate_ok (pkg_hourly_rate p) \<Longrightarrow> package_from_row D (row_of_package D p) = p"
  by (simp add: package_from_row_def row_of_package_def metadata_json from_decimal_id rate_ok_credit)

lemma persist_run:
  assumes "acked s" "has_places 4 (pkg_hourly_rate p)" "persist_to_database D p s = (x, t)"
  shows "t = s\<lparr>tick := Suc (tick s)\<rparr> \<and> x \<noteq> Inr () \<or>
    rate_ok (pkg_hourly_rate p) \<and> x = Inr () \<and>
    t = packages_update (\<lambda>rs. if row_of pk_id (pkg_id p) rs = None then rs @ [row_of_package D p]
          else update_where (\<lambda>r. pk_id r = pkg_id p) (\<lambda>_. row_of_package D p) rs) (s\<lparr>tick := Suc (tick s)\<rparr>)"
  using assms
  by (auto simp: persist_to_database_def acked_sql numeric_exact Let_def row_of_package_def rate_ok_def numeric_fits_def
      split: if_splits)

lemma keeps_persist_cache:
  assumes "has_places 4 (pkg_hourly_rate p)"
  shows "keeps (package_db_ok D) (andthen (persist_to_database D p) (\<lambda>_. cache_insert (pkg_id p) p))"
proof (rule keepsI)
  fix s r t
  assume inv: "package_db_ok D s" and run: "andthen (persist_to_database D p) (\<lambda>_. cache_insert (pkg_id p) p) s = (r, t)"
  obtain x u where first: "persist_to_database D p s = (x, u)" by (meson prod.exhaust_sel)
  have "acked s" using inv by (simp add: package_db_ok_def)
  from persist_run [OF this assms first] show "package_db_ok D t"
  proof (elim disjE conjE)
    assume "u = s\<lparr>tick := Suc (tick s)\<rparr>" "x \<noteq> Inr ()"
    with run first inv show ?thesis by (cases x) (auto simp: andthen_def)
  next
    let ?row = "row_of_package D p"
    let ?up = "\<lambda>rs. if row_of pk_id (pkg_id p) rs = None then rs @ [?row]
          else update_where (\<lambda>r. pk_id r = pkg_id p) (\<lambda>_. ?row) rs"
    assume rate: "rate_ok (pkg_hourly_rate p)" and "x = Inr ()"
      and "u = packages_update ?up (s\<lparr>tick := Suc (tick s)\<rparr>)"
    with run first have t: "t = package_cache_update (\<lambda>c. c(pkg_id p \<mapsto> p)) (packages_update ?up (s\<lparr>tick := Suc (tick s)\<rparr>))"
      by (simp add: andthen_def cache_insert_def)
    have id: "pk_id ?row = pkg_id p" "rate_ok (pk_hourly_rate ?row)"
      using rate by (simp_all add: row_of_package_def)
    note up = upsert_rows [where row = ?row, unfolded id(1)]
    have "coherent D (reliable s) (?up (packages s)) ((package_cache s)(pkg_id p \<mapsto> package_from_row D ?row))"
      using inv up(1,2) by (intro coherent_put [where rows = "packages s"]) (simp_all add: package_db_ok_def)
    moreover have "unique_key pk_id (?up (packages s))" "list_all (\<lambda>r. rate_ok (pk_hourly_rate r)) (?up (packages s))"
      using inv up(3,4) id(2) by (simp_all only: package_db_ok_def)
    ultimately show ?thesis
      using inv unfolding t by (simp add: package_db_ok_def package_round_trip [OF rate])
  qed
qed

lemma keeps_package_exists: "keeps (package_db_ok D) (package_exists i)"
  unfolding package_exists_def by (intro keeps_rules) auto

lemma keeps_create: "has_places 4 (pkg_hourly_rate p) \<Longrightarrow> keeps (package_db_ok D) (sql_create_package D p)"
  unfolding sql_create_package_def
  by (intro keeps_andthen keeps_package_exists keeps_if keeps_fail keeps_persist_cache)

lemma keeps_update: "has_places 4 (pkg_hourly_rate p) \<Longrightarrow> keeps (package_db_ok D) (sql_update_package D p)"
  unfolding sql_update_package_def
  by (intro keeps_andthen keeps_package_exists keeps_if keeps_fail keeps_persist_cache)

end

text \<open>What a user of the repository relies on: it answers with the package it was asked for, whose rate is
  one the table can hold, and it keeps its own state in order.\<close>

locale package_repository =
  fixes R :: "'s package_repo" and inv :: "'s \<Rightarrow> bool"
  assumes get_package_safe:
    "safe inv (repo_get_package R i) (\<lambda>p. pkg_id p = i \<and> rate_ok (pkg_hourly_rate p))"
begin

lemma evaluate_cost_safe:
  assumes "rust_decimal D" and "gpu_hours u \<le> 10 ^ 6"
  shows "safe inv (evaluate_cost D R i u) (\<lambda>c. 0 \<le> total_cost c \<and> credit_ok (total_cost c) \<and> base_cost c = total_cost c)"
  unfolding evaluate_cost_def
proof (rule safe_andthen [OF get_package_safe], rule safe_ok)
  fix p :: billing_package
  assume "pkg_id p = i \<and> rate_ok (pkg_hourly_rate p)"
  with rust_decimal.package_cost_bounds [OF assms(1) _ assms(2), of p] rate_ok_bounds [of "pkg_hourly_rate p"]
  show "0 \<le> total_cost (calculate_cost D p u) \<and> credit_ok (total_cost (calculate_cost D p u)) \<and>
      base_cost (calculate_cost D p u) = total_cost (calculate_cost D p u)"
    by auto
qed

end

context billing_platform
begin

lemma row_package_ok:
  "list_all (\<lambda>r. rate_ok (pk_hourly_rate r)) rows \<Longrightarrow> row_of pk_id i rows = Some r \<Longrightarrow>
     rate_ok (from_decimal D (pk_hourly_rate r))"
  using row_of_Some [of pk_id i rows r] by (auto simp: list_all_iff from_decimal_id rate_ok_credit)

lemma sql_get_package_safe:
  "safe (package_db_ok D) (sql_get_package D i) (\<lambda>p. pkg_id p = i \<and> rate_ok (pkg_hourly_rate p))"
proof (rule safeI)
  show "keeps (package_db_ok D) (sql_get_package D i)" by (rule keeps_get_package)
next
  fix s p t
  assume inv: "package_db_ok D s" and run: "sql_get_package D i s = (Inr p, t)"
  have rows: "list_all (\<lambda>r. rate_ok (pk_hourly_rate r)) (packages s)" "acked s"
    "coherent D (reliable s) (packages s) (package_cache s)"
    using inv by (simp_all add: package_db_ok_def)
  show "pkg_id p = i \<and> rate_ok (pkg_hourly_rate p)"
  proof (cases "package_cache s i")
    case None
    with run rows(2) obtain r where "row_of pk_id i (packages s) = Some r" "p = package_from_row D r"
      by (auto simp: get_package_run Let_def split: if_splits option.splits)
    with rows(1) row_package_ok [of "packages s" i r] row_of_Some [of pk_id i "packages s" r]
    show ?thesis by (auto simp: package_from_row_def)
  next
    case (Some q)
    with run rows(2) have "q = p" by (simp add: get_package_run)
    with coherent_package [OF rows(3) Some] rows(1) row_package_ok [of "packages s" i]
    show ?thesis by auto
  qed
qed

end

sublocale billing_platform \<subseteq> sql_packages: package_repository "sql_package_repository D" "package_db_ok D"
  by unfold_locales (simp add: sql_package_repository_def sql_get_package_safe)

subsection \<open>Histories of package calls\<close>

datatype package_call =
    PInit
  | PGet package_id
  | PList
  | PCreate billing_package
  | PUpdate billing_package
  | PDelete package_id
  | PActivate package_id
  | PDeactivate package_id
  | PFind string
  | PCompatible package_id string
  | PCost package_id usage_metrics
  | PSetUser user_id package_id "time option"

definition discard :: "('s, 'e, 'a) prog \<Rightarrow> ('s, 'e, unit) prog" where
  "discard m = andthen m (\<lambda>_. ok ())"

fun package_exec :: "'d billing_ops_scheme \<Rightarrow> package_call \<Rightarrow> ('z, unit) package_prog" where
  "package_exec D PInit = refresh_cache D"
| "package_exec D (PGet i) = discard (sql_get_package D i)"
| "package_exec D PList = discard (sql_list_packages D)"
| "package_exec D (PCreate p) = sql_create_package D p"
| "package_exec D (PUpdate p) = sql_update_package D p"
| "package_exec D (PDelete i) = sql_delete_package i"
| "package_exec D (PActivate i) = sql_activate_package D i"
| "package_exec D (PDeactivate i) = sql_deactivate_package i"
| "package_exec D (PFind m) = discard (sql_find_package_for_gpu_model D m)"
| "package_exec D (PCompatible i m) = discard (sql_is_package_compatible_with_gpu i m)"
| "package_exec D (PCost i u) = discard (sql_evaluate_package_cost D i u)"
| "package_exec D (PSetUser u p e) = discard (sql_set_user_package u p e)"

fun call_rate_ok :: "package_call \<Rightarrow> bool" where
  "call_rate_ok (PCreate p) = has_places 4 (pkg_hourly_rate p)"
| "call_rate_ok (PUpdate p) = has_places 4 (pkg_hourly_rate p)"
| "call_rate_ok _ = True"

inductive package_history ::
  "'d billing_ops_scheme \<Rightarrow> 'z package_db_scheme \<Rightarrow> package_call list \<Rightarrow> 'z package_db_scheme \<Rightarrow> bool"
  for D s where
  package_start: "package_history D s [] s"
| package_step: "package_history D s cs t \<Longrightarrow> package_exec D c t = (r, t') \<Longrightarrow> package_history D s (cs @ [c]) t'"

lemma keeps_discard: "keeps I m \<Longrightarrow> keeps I (discard m)"
  unfolding discard_def by (intro keeps_andthen keeps_ok)

lemma keeps_list: "keeps (package_db_ok D) (sql_list_packages D)"
  unfolding sql_list_packages_def by (intro keeps_rules) auto

lemma keeps_find: "keeps (package_db_ok D) (sql_find_package_for_gpu_model D m)"
  unfolding sql_find_package_for_gpu_model_def
  by (intro keeps_get_package keeps_rules tickless_package_db_ok)

lemma keeps_compatible: "keeps (package_db_ok D) (sql_is_package_compatible_with_gpu i m)"
  unfolding sql_is_package_compatible_with_gpu_def by (intro keeps_rules) auto

lemma keeps_cost: "keeps (package_db_ok D) (sql_evaluate_package_cost D i u)"
  unfolding sql_evaluate_package_cost_def by (intro keeps_get_package keeps_rules)

lemma keeps_prefs_update: "keeps (package_db_ok D) (modify (user_preferences_update f))"
  by (rule keepsI) (auto simp: package_db_ok_def)

lemma keeps_set_user: "keeps (package_db_ok D) (sql_set_user_package u p e)"
  unfolding sql_set_user_package_def sql_get_user_package_def db_now_def
  by (intro keeps_andthen keeps_case_option keeps_ok keeps_utc_now keeps_Let keeps_sql keeps_gets keeps_case_prod
      keeps_if keeps_fail keeps_prefs_update tickless_package_db_ok)

context billing_platform
begin

lemma package_exec_keeps: "call_rate_ok c \<Longrightarrow> keeps (package_db_ok D) (package_exec D c)"
  by (cases c)
     (simp_all add: keeps_refresh keeps_discard keeps_get_package keeps_list keeps_create keeps_update keeps_delete
        keeps_activate keeps_deactivate keeps_find keeps_compatible keeps_cost keeps_set_user)

lemma package_history_ok:
  assumes "package_history D s cs t" and "package_db_ok D s" and "list_all call_rate_ok cs"
  shows "package_db_ok D t"
  using assms
proof induction
  case package_start
  then show ?case by simp
next
  case (package_step cs t c r t')
  then have inv: "package_db_ok D t" and c: "call_rate_ok c" by simp_all
  show ?case by (rule keepsD [OF package_exec_keeps [OF c] inv package_step.hyps(2)])
qed

lemma cached_is_row:
  assumes "package_history D s cs t" "package_db_ok D s" "list_all call_rate_ok cs" "package_cache t i = Some p"
  shows "\<exists>r. row_of pk_id i (packages t) = Some r \<and> pkg_hourly_rate p = pk_hourly_rate r \<and>
    p = (package_from_row D r)\<lparr>pkg_active := pkg_active p\<rparr> \<and> (reliable t \<longrightarrow> p = package_from_row D r)"
proof -
  have ok: "package_db_ok D t" using assms(1-3) by (rule package_history_ok)
  then obtain r where r: "row_of pk_id i (packages t) = Some r"
      "p = (package_from_row D r)\<lparr>pkg_active := pkg_active p\<rparr>" "reliable t \<longrightarrow> pkg_active p = pk_active r"
    using assms(4) unfolding package_db_ok_def coherent_def by blast
  have "rate_ok (pk_hourly_rate r)"
    using ok row_of_Some [OF r(1)] by (auto simp: package_db_ok_def list_all_iff)
  then have "pkg_hourly_rate p = pk_hourly_rate r"
    by (subst r(2)) (simp add: package_from_row_def from_decimal_id rate_ok_credit)
  moreover have "p = package_from_row D r" if "reliable t"
    using coherent_exact [of D "packages t" "package_cache t" i p r] assms(4) r(1) ok that by (simp add: package_db_ok_def)
  ultimately show ?thesis using r by blast
qed

end

text \<open>The packages of migration 005.\<close>

definition default_package :: "string \<Rightarrow> string \<Rightarrow> string \<Rightarrow> rat \<Rightarrow> string \<Rightarrow> int \<Rightarrow> package_row" where
  "default_package i name description rate gpu_model priority =
     \<lparr>pk_id = i, pk_name = name, pk_description = description, pk_hourly_rate = rate, pk_gpu_model = gpu_model,
      pk_billing_period = ''Hourly'', pk_priority = priority, pk_active = True, pk_metadata = JObj []\<rparr>"

definition default_packages :: "package_row list" where
  "default_packages =
     [default_package ''h100'' ''H100 GPU'' ''NVIDIA H100 GPU instances - $3.50/hour'' (7 / 2) ''H100'' 100,
      default_package ''h200'' ''H200 GPU'' ''NVIDIA H200 GPU instances - $5.00/hour'' 5 ''H200'' 200,
      default_package ''custom'' ''Custom'' ''Custom pricing for bespoke deals'' 0 ''Custom'' 300]"

definition demo_package_db :: package_db where
  "demo_package_db =
     \<lparr>tick = 0, clock = int, uuid_src = (\<lambda>n. n + 100), db_outcome = (\<lambda>_. Done), users = [], credits = [],
      credit_reservations = [], billing_events = [], rentals = [], packages = default_packages, user_preferences = [],
      required_columns = migration_required_columns, collation = (\<lambda>_. 0), package_cache = Map.empty\<rparr>"

lemma default_rates: "list_all (\<lambda>r. rate_ok (pk_hourly_rate r)) default_packages"
  by (simp add: default_packages_def default_package_def rate_ok_def numeric_fits_def has_places_def)

lemma default_unique: "unique_key pk_id default_packages"
  by (simp add: default_packages_def default_package_def unique_key_def)

lemma demo_package_db_ok: "package_db_ok D demo_package_db" "reliable demo_package_db"
  by (simp_all add: package_db_ok_def demo_package_db_def acked_def reliable_def coherent_empty default_rates default_unique)


lemma demo_facts:
  "acked demo_package_db" "package_cache demo_package_db = Map.empty" "packages demo_package_db = default_packages"
  "tick demo_package_db = 0" "user_preferences demo_package_db = []"
  "required_columns demo_package_db = migration_required_columns"
  by (simp_all add: demo_package_db_def acked_def)

lemma default_h200: "row_of pk_id ''h200'' default_packages = Some (default_packages ! 1)"
  by (simp add: default_packages_def default_package_def)

lemma demo_get_h200:
  "package_exec bankers_pg (PGet ''h200'') demo_package_db =
     (Inr (), package_cache_update (\<lambda>c. c(''h200'' \<mapsto> package_from_row bankers_pg (default_packages ! 1)))
                (demo_package_db\<lparr>tick := 1\<rparr>))"
proof -
  have "sql_get_package bankers_pg ''h200'' demo_package_db =
      (Inr (package_from_row bankers_pg (default_packages ! 1)),
       package_cache_update (\<lambda>c. c(''h200'' \<mapsto> package_from_row bankers_pg (default_packages ! 1)))
         (demo_package_db\<lparr>tick := 1\<rparr>))"
    by (simp add: get_package_run [OF demo_facts(1)] demo_facts(2-4) Let_def demo_package_db_ok default_h200)
  then show ?thesis by (simp add: discard_def andthen_Inr)
qed


text \<open>C14: what a package costs. At least one hour is charged, the charge is within a millionth of the rate
  times the hours, all of it is base cost, and it does not fall when the usage grows.\<close>

theorem calculate_cost_bounds:
  assumes "rust_decimal D" "rate_ok (pkg_hourly_rate p)" "gpu_hours u \<le> gpu_hours v" "gpu_hours v \<le> 10 ^ 6"
  shows "pkg_hourly_rate p \<le> total_cost (calculate_cost D p u) \<and>
    \<bar>total_cost (calculate_cost D p u) - pkg_hourly_rate p * max (gpu_hours u) 1\<bar> \<le> 1 / 10 ^ 6 \<and>
    base_cost (calculate_cost D p u) = total_cost (calculate_cost D p u) \<and>
    total_cost (calculate_cost D p u) \<le> total_cost (calculate_cost D p v)"
  using rust_decimal.package_cost_bounds(1-3) [OF assms(1,2), of u]
    rust_decimal.package_cost_mono [OF assms] assms(3,4) by simp

theorem calculate_cost_bounds_witness:
  "7 / 2 \<le> total_cost (calculate_cost bankers (package_new ''h100'' ''H100'' ''test'' (7 / 2) ''H100'') usage_zero) \<and>
   total_cost (calculate_cost bankers (package_new ''h100'' ''H100'' ''test'' (7 / 2) ''H100'') usage_zero) \<le>
   total_cost (calculate_cost bankers (package_new ''h100'' ''H100'' ''test'' (7 / 2) ''H100'') (usage_zero\<lparr>gpu_hours := 10\<rparr>))"
  using calculate_cost_bounds [OF bankers.rust_decimal_axioms, of "package_new ''h100'' ''H100'' ''test'' (7 / 2) ''H100''"
      usage_zero "usage_zero\<lparr>gpu_hours := 10\<rparr>"]
  by (simp add: package_new_def rate_ok_def numeric_fits_def has_places_def usage_zero_def)

subsection \<open>Writing a package\<close>

lemma persist_fails:
  assumes "required_columns s = migration_required_columns"
  shows "\<exists>n. persist_to_database D p s = (Inl (DatabaseError ''upsert_package''), s\<lparr>tick := n\<rparr>)"
proof -
  have "\<not> list_all (\<lambda>c. c \<in> set upsert_columns) migration_required_columns"
    by (simp add: upsert_columns_def migration_required_columns_def)
  with assms show ?thesis by (auto simp: persist_to_database_def sql_def split: outcome.splits)
qed

lemma package_exists_cases:
  "package_exists i s = (Inl (DatabaseError ''check_package_exists''), s\<lparr>tick := Suc (tick s)\<rparr>) \<or>
   package_exists i s = (Inr (row_of pk_id i (packages s) \<noteq> None), s\<lparr>tick := Suc (tick s)\<rparr>)"
  by (auto simp: package_exists_def sql_def split: outcome.splits)

text \<open>With the schema the migrations leave behind, no call of \<open>create_package\<close> or \<open>update_package\<close> succeeds
  and none changes a package: the statement gives no value to four columns that need one.\<close>

theorem package_writes_always_fail:
  assumes "required_columns s = migration_required_columns"
    and "sql_create_package D p s = (x, t) \<or> sql_update_package D p s = (x, t)"
  shows "(\<exists>e. x = Inl e) \<and> packages t = packages s \<and> package_cache t = package_cache s"
proof -
  obtain n where fails: "persist_to_database D p (s\<lparr>tick := Suc (tick s)\<rparr>) =
      (Inl (DatabaseError ''upsert_package''), s\<lparr>tick := n\<rparr>)"
    using persist_fails [of "s\<lparr>tick := Suc (tick s)\<rparr>" D p] assms(1) by auto
  from package_exists_cases [of "pkg_id p" s] assms(2) show ?thesis
    by (elim disjE) (auto simp: sql_create_package_def sql_update_package_def andthen_def fails split: if_splits)
qed

theorem package_writes_always_fail_witness:
  "\<exists>e. fst (sql_create_package bankers_pg (package_new ''b200'' ''B200'' ''test'' 6 ''B200'') demo_package_db) = Inl e"
  using package_writes_always_fail [OF demo_facts(6) disjI1 [OF prod.collapse [symmetric]], of bankers_pg
      "package_new ''b200'' ''B200'' ''test'' 6 ''B200''"] by blast

subsection \<open>A lookup that races with a deletion\<close>

text \<open>\<open>get_package\<close> releases the cache before it reads the table and takes it again afterwards. If a
  package is deleted between its reading and its entry into the cache, the deleted package stays in the cache and
  is served from then on, though the table does not have it.\<close>

theorem lookup_races_delete:
  assumes "reliable s" "package_cache s i = None" "row_of pk_id i (packages s) = Some r" "\<not> package_referenced i s"
  shows "\<exists>s1 s2 s3. cache_get i s = (Inr None, s) \<and>
    load_from_database D i s = (Inr (Some (package_from_row D r)), s1) \<and>
    sql_delete_package i s1 = (Inr (), s2) \<and>
    cache_insert i (package_from_row D r) s2 = (Inr (), s3) \<and>
    row_of pk_id i (packages s3) = None \<and>
    sql_get_package D i s3 = (Inr (package_from_row D r), s3)"
proof -
  have "affected (\<lambda>r. pk_id r = i) (packages s) \<noteq> 0"
    using assms(3) by (simp add: affected_key_0)
  moreover have "package_referenced i (s\<lparr>tick := n\<rparr>) = package_referenced i s" for n
    by (simp add: package_referenced_def)
  ultimately show ?thesis
    using assms
    by (simp add: cache_get_def load_from_database_def reliable_sql sql_delete_package_def andthen_def cache_remove_def
        cache_insert_def row_of_delete_same sql_get_package_def)
qed

theorem lookup_races_delete_witness:
  "\<exists>s3 p. row_of pk_id ''h200'' (packages s3) = None \<and>
     sql_get_package bankers_pg ''h200'' (s3 :: package_db) = (Inr p, s3) \<and> pkg_id p = ''h200''"
  using lookup_races_delete [of demo_package_db "''h200''" "default_packages ! 1" bankers_pg]
  by (auto simp: demo_package_db_ok demo_facts default_h200 package_referenced_def package_from_row_def
      default_packages_def default_package_def)

subsection \<open>The package for a GPU model\<close>

lemma hd_sort_key_le:
  assumes "sort_key f xs = r # rs" and "x \<in> set xs"
  shows "f r \<le> (f x :: 'k::linorder)"
proof -
  have "sorted (map f (r # rs))" using sorted_sort_key [of f xs] assms(1) by simp
  moreover have "x \<in> set (r # rs)" using assms by (metis set_sort)
  ultimately show ?thesis by auto
qed

lemma hd_sort_key_stable:
  assumes outer: "sort_key f (sort_key g xs) = r # rs" and "x \<in> set xs" and "f x = (f r :: 'k::linorder)"
  shows "g r \<le> (g x :: 'l::linorder)"
proof -
  have "r # filter (\<lambda>y. f y = f r) rs = filter (\<lambda>y. f y = f r) (sort_key g xs)"
    using sort_key_stable [of f "f r" "sort_key g xs"] outer by simp
  moreover have "sorted (map g (filter (\<lambda>y. f y = f r) (sort_key g xs)))"
    by (rule sorted_filter) (rule sorted_sort_key)
  ultimately have "sorted (map g (r # filter (\<lambda>y. f y = f r) rs))" by simp
  moreover have "x \<in> set (sort_key f (sort_key g xs))" using assms(2) by simp
  ultimately show ?thesis using assms(3) unfolding outer by auto
qed

definition exact_match :: "string \<Rightarrow> package_row \<Rightarrow> bool" where
  "exact_match m r \<longleftrightarrow> to_lowercase (pk_gpu_model r) = to_lowercase m"

lemma best_match_None: "best_match m rows = None \<longleftrightarrow> (\<forall>r\<in>set rows. \<not> (pk_active r \<and> gpu_matches m r))"
proof -
  have empty: "sort_key f (sort_key g xs) = [] \<longleftrightarrow> xs = []"
    for f :: "package_row \<Rightarrow> nat" and g :: "package_row \<Rightarrow> int" and xs
    by (metis length_0_conv length_sort)
  show ?thesis
    unfolding best_match_def rows_where_def
    by (simp only: option.distinct refl list.case_eq_if if_split_eq1 empty filter_empty_conv if_True if_False split: if_split) auto
qed

lemma best_match_Some:
  assumes "best_match m rows = Some r"
  shows "r \<in> set rows" "pk_active r" "gpu_matches m r"
    and "q \<in> set rows \<Longrightarrow> pk_active q \<Longrightarrow> gpu_matches m q \<Longrightarrow>
      (exact_match m q \<longrightarrow> exact_match m r) \<and> (exact_match m q = exact_match m r \<longrightarrow> pk_priority q \<le> pk_priority r)"
proof -
  let ?f = "\<lambda>r. if to_lowercase (pk_gpu_model r) = to_lowercase m then 0 else 1 :: nat"
  let ?g = "\<lambda>r. - pk_priority r"
  let ?xs = "filter (\<lambda>r. pk_active r \<and> gpu_matches m r) rows"
  obtain rs where rs: "sort_key ?f (sort_key ?g ?xs) = r # rs"
    using assms by (auto simp: best_match_def rows_where_def split: list.splits)
  then have "r \<in> set (sort_key ?f (sort_key ?g ?xs))" by simp
  then show "r \<in> set rows" "pk_active r" "gpu_matches m r" by simp_all
  assume "q \<in> set rows" "pk_active q" "gpu_matches m q"
  then have q: "q \<in> set ?xs" by simp
  have "?f r \<le> ?f q" by (rule hd_sort_key_le [OF rs]) (use q in simp)
  moreover have "?g r \<le> ?g q" if "?f q = ?f r" by (rule hd_sort_key_stable [OF rs q that])
  ultimately show "(exact_match m q \<longrightarrow> exact_match m r) \<and>
      (exact_match m q = exact_match m r \<longrightarrow> pk_priority q \<le> pk_priority r)"
    by (auto simp: exact_match_def split: if_splits)
qed

definition h100_row :: package_row where "h100_row = default_packages ! 0"
definition h200_row :: package_row where "h200_row = default_packages ! 1"
definition custom_row :: package_row where "custom_row = default_packages ! 2"

lemma default_rows: "default_packages = [h100_row, h200_row, custom_row]"
  by (simp add: h100_row_def h200_row_def custom_row_def default_packages_def)

lemma default_row_simps:
  "pk_id h100_row = ''h100''" "pk_id h200_row = ''h200''" "pk_id custom_row = ''custom''"
  "pk_active h100_row" "pk_active h200_row" "pk_active custom_row"
  "pk_gpu_model h100_row = ''H100''" "pk_gpu_model h200_row = ''H200''" "pk_gpu_model custom_row = ''Custom''"
  by (simp_all add: h100_row_def h200_row_def custom_row_def default_packages_def default_package_def)

lemma to_lowercase_default:
  "to_lowercase ''H100'' = ''h100''" "to_lowercase ''H200'' = ''h200''" "to_lowercase ''Custom'' = ''custom''"
  by code_simp+

lemma contains_refl [simp]: "contains s s"
  by (cases s) auto

lemma contains_shorter:
  assumes "contains g l" and "length g \<le> length l"
  shows "l = g"
proof -
  obtain i where i: "i \<le> length g" "take (length l) (drop i g) = l"
    using assms(1) unfolding contains_iff by blast
  then have "min (length l) (length g - i) = length l" by (metis length_drop length_take min.commute)
  with i(1) assms(2) have "i = 0" "length l = length g" by linarith+
  with i(2) show ?thesis by simp
qed

lemma plain_lowercase: "plain_char (to_lowercase_char c) = plain_char c"
proof (cases "65 \<le> (of_char c :: nat) \<and> (of_char c :: nat) \<le> 90")
  case True
  then have n: "(of_char (to_lowercase_char c) :: nat) = of_char c + 32"
    by (simp add: to_lowercase_char_def)
  have "plain_char (to_lowercase_char c)" "plain_char c"
    using n True by (auto simp: plain_char_def)
  then show ?thesis by simp
next
  case False
  then have "to_lowercase_char c = c" by (auto simp: to_lowercase_char_def)
  then show ?thesis by simp
qed

lemma gpu_matches_contains:
  assumes "list_all plain_char m" "list_all plain_char (to_lowercase (pk_gpu_model r))"
  shows "gpu_matches m r \<longleftrightarrow> contains (to_lowercase (pk_gpu_model r)) (to_lowercase m) \<or>
     contains (to_lowercase m) (to_lowercase (pk_gpu_model r))"
proof -
  have "list_all plain_char (to_lowercase m)"
    using assms(1) by (simp add: to_lowercase_def list_all_iff plain_lowercase)
  with assms(2) show ?thesis
    by (auto simp: gpu_matches_def Let_def gpu_like_contains)
qed

text \<open>A model that names no two packages, and is not itself a piece of the word \<open>custom\<close>.\<close>

definition unambiguous_model :: "string \<Rightarrow> bool" where
  "unambiguous_model m \<longleftrightarrow> 4 \<le> length m \<and> list_all plain_char m \<and>
     (let l = to_lowercase m in
      \<not> contains l ''custom'' \<and> \<not> contains ''custom'' l \<and> \<not> (contains l ''h100'' \<and> contains l ''h200''))"

lemma default_matches:
  assumes "unambiguous_model m"
  shows "gpu_matches m h100_row \<longleftrightarrow> contains (to_lowercase m) ''h100''"
    and "gpu_matches m h200_row \<longleftrightarrow> contains (to_lowercase m) ''h200''"
    and "\<not> gpu_matches m custom_row"
proof -
  let ?l = "to_lowercase m"
  have len: "4 \<le> length ?l" and m: "list_all plain_char m"
    using assms by (simp_all add: unambiguous_model_def to_lowercase_def)
  have rows: "list_all plain_char ''h100''" "list_all plain_char ''h200''" "list_all plain_char ''custom''"
    by (simp_all add: plain_char_def)
  have piece: "contains g ?l \<Longrightarrow> contains ?l g" if "length g = 4" for g
    using contains_shorter [of g ?l] len that contains_refl [of g] by auto
  note match = gpu_matches_contains [OF m, where r = h100_row] gpu_matches_contains [OF m, where r = h200_row]
    gpu_matches_contains [OF m, where r = custom_row]
  note match = match [unfolded default_row_simps to_lowercase_default]
  show "gpu_matches m h100_row \<longleftrightarrow> contains ?l ''h100''"
    unfolding match(1) [OF rows(1)] using piece [of "''h100''"] by auto
  show "gpu_matches m h200_row \<longleftrightarrow> contains ?l ''h200''"
    unfolding match(2) [OF rows(2)] using piece [of "''h200''"] by auto
  show "\<not> gpu_matches m custom_row"
    unfolding match(3) [OF rows(3)] using assms by (simp only: unambiguous_model_def Let_def) blast
qed

lemma best_match_default:
  assumes "unambiguous_model m"
  shows "best_match m default_packages =
    (if contains (to_lowercase m) ''h100'' then Some h100_row
     else if contains (to_lowercase m) ''h200'' then Some h200_row else None)"
  using assms default_matches [OF assms]
  by (auto simp: best_match_def rows_where_def default_rows default_row_simps unambiguous_model_def Let_def)

lemma demo_model: "unambiguous_model ''NVIDIA H200 NVL''" "unambiguous_model ''h200''" "to_lowercase ''h200'' = ''h200''"
  by code_simp+

text \<open>\<open>find_package_for_gpu_model\<close> answers with an active package that matches the model, an exact match if
  there is one, and among those the one of highest priority; if none matches it answers with the package
  \<open>custom\<close>.\<close>

theorem find_package_spec:
  assumes "reliable s" and "sql_find_package_for_gpu_model D m s = (Inr p, t)"
  shows "(\<exists>r\<in>set (packages s). pk_active r \<and> gpu_matches m r \<and> pkg_id p = pk_id r \<and>
            pkg_hourly_rate p = from_decimal D (pk_hourly_rate r) \<and>
            (\<forall>q\<in>set (packages s). pk_active q \<and> gpu_matches m q \<longrightarrow>
               (exact_match m q \<longrightarrow> exact_match m r) \<and>
               (exact_match m q = exact_match m r \<longrightarrow> pk_priority q \<le> pk_priority r))) \<or>
         (\<forall>r\<in>set (packages s). \<not> (pk_active r \<and> gpu_matches m r)) \<and>
            sql_get_package D package_custom (s\<lparr>tick := Suc (tick s)\<rparr>) = (Inr p, t)"
proof (cases "best_match m (packages s)")
  case None
  with assms show ?thesis
    using best_match_None [of m "packages s"]
    by (simp add: sql_find_package_for_gpu_model_def reliable_sql andthen_def)
next
  case (Some r)
  note best = best_match_Some [OF Some]
  have "pkg_id p = pk_id r" "pkg_hourly_rate p = from_decimal D (pk_hourly_rate r)"
    using assms Some
    by (auto simp: sql_find_package_for_gpu_model_def reliable_sql andthen_def package_from_row_def)
  with best(1-3) best(4) show ?thesis by blast
qed

theorem find_package_spec_witness:
  "\<exists>p t. sql_find_package_for_gpu_model bankers_pg ''h200'' demo_package_db = (Inr p, t) \<and> pkg_id p = ''h200'' \<and>
     (\<exists>r\<in>set default_packages. pk_active r \<and> exact_match ''h200'' r)"
proof -
  have best: "best_match ''h200'' (packages demo_package_db) = Some h200_row"
    unfolding demo_facts(3) using best_match_default [of "''h200''"] demo_model(2) by (simp add: demo_model(3))
  obtain p t where run: "sql_find_package_for_gpu_model bankers_pg ''h200'' demo_package_db = (Inr p, t)"
      and id: "pkg_id p = ''h200''"
    using best by (auto simp: sql_find_package_for_gpu_model_def reliable_sql demo_package_db_ok andthen_def
        package_from_row_def default_row_simps)
  have "exact_match ''h200'' h200_row" "h200_row \<in> set default_packages" "pk_active h200_row" "gpu_matches ''h200'' h200_row"
    using best_match_Some(1-3) [OF best] demo_model(3)
    by (simp_all add: demo_facts exact_match_def default_row_simps to_lowercase_default)
  with find_package_spec [OF demo_package_db_ok(2) run] run id show ?thesis
    unfolding demo_facts(3) by blast
qed



subsection \<open>User preferences\<close>

text \<open>Setting a user's package returns the package that was set before, and afterwards the user has the
  new package with that one recorded as the previous; other users' packages do not change. It fails exactly when
  the package is not in the table or the identifier does not fit its column.\<close>

theorem set_user_package_round_trip:
  assumes "reliable s" "\<forall>x\<in>set (user_preferences s). row_of pk_id (up_package_id x) (packages s) \<noteq> None"
  shows "(if row_of pk_id p (packages s) = None \<or> 255 < length u
     then \<exists>t. sql_set_user_package u p e s = (Inl (DatabaseError ''set_user_package''), t) \<and>
            user_preferences t = user_preferences s
     else \<exists>t q. sql_set_user_package u p e s =
              (Inr (map_option up_package_id (row_of up_user_id u (user_preferences s))), t) \<and>
            fst (sql_get_user_package u t) = Inr (Some q) \<and> up_package_id q = p \<and>
            up_previous_package_id q = map_option up_package_id (row_of up_user_id u (user_preferences s)) \<and>
            (\<forall>d. e = Some d \<longrightarrow> up_effective_from q = d) \<and>
            (\<forall>v. v \<noteq> u \<longrightarrow> row_of up_user_id v (user_preferences t) = row_of up_user_id v (user_preferences s)))"
proof -
  have known: "row_of pk_id (up_package_id x) (packages s) \<noteq> None"
    if "row_of up_user_id u (user_preferences s) = Some x" for x
    using assms(2) row_of_Some [OF that] by blast
  note run = sql_set_user_package_def sql_get_user_package_def reliable_sql db_now_def Let_def
  show ?thesis
  proof (cases "row_of up_user_id u (user_preferences s)")
    case None
    with assms(1) show ?thesis
      by (cases e) (auto simp: run andthen_def row_of_append split: option.splits)
  next
    case (Some x)
    with assms(1) known show ?thesis
      by (cases e) (auto simp: run andthen_def row_of_update_same row_of_update_other split: option.splits)
  qed
qed

theorem set_user_package_round_trip_witness:
  "\<exists>t q. sql_set_user_package ''alice'' ''h200'' (Some 5) demo_package_db = (Inr None, t) \<and>
     fst (sql_get_user_package ''alice'' t) = Inr (Some q) \<and> up_package_id q = ''h200''"
  using set_user_package_round_trip [OF demo_package_db_ok(2), of "''h200''" "''alice''" "Some 5"]
  by (auto simp: demo_facts default_h200)

end
