(* ===== verification/Rules.thy ===== *)
theory Rules
  imports Packages
begin

section \<open>Billing: rules and the rules engine\<close>

text \<open>
  \<open>crates/basilica-billing/src/domain/rules_engine.rs\<close> (\<open>BillingRule\<close>, \<open>RuleCondition\<close>, \<open>RuleAction\<close>,
  \<open>RulesEngine\<close>) and \<open>src/storage/rules.rs\<close> (\<open>SqlRulesRepository\<close>). A rule is stored as two tagged JSON values;
  hours and priorities are 32-bit words. \<open>RuleCondition::evaluate\<close> reads the clock, so it is a program.
  Lemmas: a rule survives its way through the table, a time range is an interval on the circle of the hours,
  the price after the rules is never negative and is the sum it should be, and the engine on top of any
  package repository charges the package's price when no rule applies.
\<close>

datatype rule_condition =
    Always
  | MinimumUsage rat
  | ResourceThreshold string rat
  | TimeRange "32 word" "32 word"
  | UserGroup string
  | CustomCondition string

datatype rule_action =
    ApplyDiscount rat
  | ApplyCredit credit_balance
  | MultiplyRate rat
  | SetFixedRate credit_balance
  | AddCharge credit_balance

record billing_rule =
  br_id :: string
  br_name :: string
  br_description :: string
  br_condition :: rule_condition
  br_action :: rule_action
  br_priority :: "32 word"
  br_active :: bool

text \<open>\<open>chrono\<close>'s hour of the day in UTC.\<close>

definition utc_hour :: "time \<Rightarrow> 32 word" where
  "utc_hour t = word_of_int ((t div hour_ns) mod 24)"

definition in_time_range :: "32 word \<Rightarrow> 32 word \<Rightarrow> 32 word \<Rightarrow> bool" where
  "in_time_range start_hour end_hour current_hour =
     (if start_hour \<le> end_hour then start_hour \<le> current_hour \<and> current_hour < end_hour
      else start_hour \<le> current_hour \<or> current_hour < end_hour)"

fun condition_evaluate :: "rule_condition \<Rightarrow> usage_metrics \<Rightarrow> str_map \<Rightarrow> ('z env_scheme, 'e, bool) prog" where
  "condition_evaluate Always usage _ = ok True"
| "condition_evaluate (MinimumUsage hours) usage _ = ok (hours \<le> gpu_hours usage)"
| "condition_evaluate (ResourceThreshold resource threshold) usage _ =
     ok (if resource = ''gpu'' then threshold \<le> gpu_hours usage
         else if resource = ''cpu'' then threshold \<le> cpu_hours usage
         else if resource = ''memory'' then threshold \<le> memory_gb_hours usage
         else if resource = ''storage'' then threshold \<le> storage_gb_hours usage
         else if resource = ''network'' then threshold \<le> network_gb usage
         else False)"
| "condition_evaluate (TimeRange start_hour end_hour) usage _ =
     andthen utc_now (\<lambda>now. ok (in_time_range start_hour end_hour (utc_hour now)))"
| "condition_evaluate (UserGroup _) usage _ = ok False"
| "condition_evaluate (CustomCondition _) usage _ = ok False"

subsection \<open>\<open>SqlRulesRepository\<close>\<close>

record rule_row =
  rl_id :: uuid
  rl_name :: string
  rl_description :: string
  rl_condition_type :: string
  rl_condition_data :: json
  rl_action_type :: string
  rl_action_data :: json
  rl_priority :: int
  rl_is_active :: bool
  rl_created_at :: time

record rules_db = package_db +
  billing_rules :: "rule_row list"

type_synonym ('z, 'a) rules_prog = "('z rules_db_scheme, billing_error, 'a) prog"

fun serialize_condition :: "'d billing_ops_scheme \<Rightarrow> rule_condition \<Rightarrow> string \<times> json" where
  "serialize_condition D Always = (''always'', JObj [])"
| "serialize_condition D (MinimumUsage hours) = (''usage_based'', JObj [(''gpu_hours'', JStr (show_dec D hours))])"
| "serialize_condition D (ResourceThreshold resource threshold) =
     (''usage_based'', JObj [(''resource'', JStr resource), (''threshold'', JStr (show_dec D threshold))])"
| "serialize_condition D (TimeRange start_hour end_hour) =
     (''time_based'', JObj [(''start_hour'', JInt (uint start_hour)), (''end_hour'', JInt (uint end_hour))])"
| "serialize_condition D (UserGroup grp) = (''user_based'', JObj [(''group'', JStr grp)])"
| "serialize_condition D (CustomCondition expression) = (''custom'', JObj [(''expression'', JStr expression)])"

definition json_str_field :: "json \<Rightarrow> string \<Rightarrow> string option" where
  "json_str_field j k = Option.bind (json_get j k) json_as_str"

definition json_dec_field :: "'d billing_ops_scheme \<Rightarrow> json \<Rightarrow> string \<Rightarrow> rat option" where
  "json_dec_field D j k = Option.bind (json_str_field j k) (parse_dec D)"

definition json_nat_field :: "json \<Rightarrow> string \<Rightarrow> nat option" where
  "json_nat_field j k = Option.bind (json_get j k) json_as_nat"

definition deserialize_condition :: "'d billing_ops_scheme \<Rightarrow> string \<Rightarrow> json \<Rightarrow> billing_error + rule_condition" where
  "deserialize_condition D condition_type data =
     (if condition_type = ''always'' then Inr Always
      else if condition_type = ''usage_based'' then
        (if json_get data ''gpu_hours'' \<noteq> None
         then Inr (MinimumUsage (unwrap_or (json_dec_field D data ''gpu_hours'') 0))
         else if json_get data ''resource'' \<noteq> None \<and> json_get data ''threshold'' \<noteq> None
         then Inr (ResourceThreshold (unwrap_or (json_str_field data ''resource'') '''')
                     (unwrap_or (json_dec_field D data ''threshold'') 0))
         else Inr Always)
      else if condition_type = ''time_based'' then
        Inr (TimeRange (word_of_nat (unwrap_or (json_nat_field data ''start_hour'') 0))
               (word_of_nat (unwrap_or (json_nat_field data ''end_hour'') 24)))
      else if condition_type = ''user_based'' then Inr (UserGroup (unwrap_or (json_str_field data ''group'') ''''))
      else if condition_type = ''custom''
      then Inr (CustomCondition (unwrap_or (json_str_field data ''expression'') ''''))
      else Inr Always)"

fun serialize_action :: "'d billing_ops_scheme \<Rightarrow> rule_action \<Rightarrow> string \<times> json" where
  "serialize_action D (ApplyDiscount percentage) =
     (''percentage'', JObj [(''percentage'', JStr (show_dec D percentage))])"
| "serialize_action D (ApplyCredit amount) = (''fixed'', JObj [(''amount'', JStr (show_dec D amount))])"
| "serialize_action D (MultiplyRate factor) = (''rate_override'', JObj [(''factor'', JStr (show_dec D factor))])"
| "serialize_action D (SetFixedRate rate) = (''fixed'', JObj [(''rate'', JStr (show_dec D rate))])"
| "serialize_action D (AddCharge amount) = (''fixed'', JObj [(''charge'', JStr (show_dec D amount))])"

definition deserialize_action :: "'d billing_ops_scheme \<Rightarrow> string \<Rightarrow> json \<Rightarrow> billing_error + rule_action" where
  "deserialize_action D action_type data =
     (let amount = (\<lambda>str. from_decimal D (unwrap_or (parse_dec D str) 0)) in
      if action_type = ''percentage'' then Inr (ApplyDiscount (unwrap_or (json_dec_field D data ''percentage'') 0))
      else if action_type = ''fixed'' then
        (case json_str_field data ''amount'' of
           Some str \<Rightarrow> Inr (ApplyCredit (amount str))
         | None \<Rightarrow>
             (case json_str_field data ''rate'' of
                Some str \<Rightarrow> Inr (SetFixedRate (amount str))
              | None \<Rightarrow>
                  (case json_str_field data ''charge'' of
                     Some str \<Rightarrow> Inr (AddCharge (amount str))
                   | None \<Rightarrow> Inr (ApplyCredit cb_zero))))
      else if action_type = ''rate_override'' then Inr (MultiplyRate (unwrap_or (json_dec_field D data ''factor'') 1))
      else Inr (ApplyCredit cb_zero))"

definition sql_create_rule :: "'d billing_ops_scheme \<Rightarrow> billing_rule \<Rightarrow> ('z, unit) rules_prog" where
  "sql_create_rule D rule =
     (let (condition_type, condition_data) = serialize_condition D (br_condition rule);
          (action_type, action_data) = serialize_action D (br_action rule) in
      andthen (case parse_uuid D (br_id rule) of Some i \<Rightarrow> ok i | None \<Rightarrow> uuid_new_v4) (\<lambda>i.
        sql (DatabaseError ''create_rule'')
          (andthen db_now (\<lambda>now. andthen (gets billing_rules) (\<lambda>rs.
             if row_of rl_id i rs \<noteq> None \<or> 255 < length (br_name rule) then fail (DatabaseError ''create_rule'')
             else modify (billing_rules_update (\<lambda>rs. rs @
               [\<lparr>rl_id = i, rl_name = br_name rule, rl_description = br_description rule,
                 rl_condition_type = condition_type, rl_condition_data = condition_data,
                 rl_action_type = action_type, rl_action_data = action_data,
                 rl_priority = sint (br_priority rule), rl_is_active = br_active rule,
                 rl_created_at = now\<rparr>])))))))"

text \<open>The rule a row holds; the same code stands in \<open>get_rule\<close>, \<open>list_rules\<close> and \<open>list_active_rules\<close>.\<close>

definition rule_from_row :: "'d billing_ops_scheme \<Rightarrow> rule_row \<Rightarrow> billing_error + billing_rule" where
  "rule_from_row D r =
     (case deserialize_condition D (rl_condition_type r) (rl_condition_data r) of
        Inl e \<Rightarrow> Inl e
      | Inr condition \<Rightarrow>
          (case deserialize_action D (rl_action_type r) (rl_action_data r) of
             Inl e \<Rightarrow> Inl e
           | Inr action \<Rightarrow>
               Inr \<lparr>br_id = show_uuid D (rl_id r), br_name = rl_name r, br_description = rl_description r,
                    br_condition = condition, br_action = action, br_priority = word_of_int (rl_priority r),
                    br_active = rl_is_active r\<rparr>))"

fun rules_from_rows :: "'d billing_ops_scheme \<Rightarrow> rule_row list \<Rightarrow> billing_error + billing_rule list" where
  "rules_from_rows D [] = Inr []"
| "rules_from_rows D (r # rs) =
     (case rule_from_row D r of
        Inl e \<Rightarrow> Inl e
      | Inr rule \<Rightarrow> map_sum id (Cons rule) (rules_from_rows D rs))"

definition nil_or_parsed :: "'d billing_ops_scheme \<Rightarrow> string \<Rightarrow> uuid" where
  "nil_or_parsed D s = unwrap_or (parse_uuid D s) 0"

definition sql_get_rule :: "'d billing_ops_scheme \<Rightarrow> string \<Rightarrow> ('z, billing_rule option) rules_prog" where
  "sql_get_rule D rule_id =
     andthen (sql (DatabaseError ''get_rule'') (gets (\<lambda>s. row_of rl_id (nil_or_parsed D rule_id) (billing_rules s)))) (\<lambda>row.
       case row of
         Some r \<Rightarrow> of_result (map_sum id Some (rule_from_row D r))
       | None \<Rightarrow> ok None)"

definition rules_order :: "rule_row list \<Rightarrow> rule_row list" where
  "rules_order rs = sort_key (\<lambda>r. - rl_priority r) (sort_key rl_created_at rs)"

definition sql_list_rules :: "'d billing_ops_scheme \<Rightarrow> ('z, billing_rule list) rules_prog" where
  "sql_list_rules D =
     andthen (sql (DatabaseError ''list_rules'') (gets (\<lambda>s. rules_order (billing_rules s)))) (\<lambda>rows.
       of_result (rules_from_rows D rows))"

definition sql_list_active_rules :: "'d billing_ops_scheme \<Rightarrow> ('z, billing_rule list) rules_prog" where
  "sql_list_active_rules D =
     andthen (sql (DatabaseError ''list_active_rules'')
       (gets (\<lambda>s. rules_order (rows_where rl_is_active (billing_rules s))))) (\<lambda>rows.
       of_result (rules_from_rows D rows))"

definition sql_update_rule :: "'d billing_ops_scheme \<Rightarrow> billing_rule \<Rightarrow> ('z, unit) rules_prog" where
  "sql_update_rule D rule =
     (let (condition_type, condition_data) = serialize_condition D (br_condition rule);
          (action_type, action_data) = serialize_action D (br_action rule);
          i = nil_or_parsed D (br_id rule) in
      sql (DatabaseError ''update_rule'')
        (andthen (gets billing_rules) (\<lambda>rs.
           if row_of rl_id i rs \<noteq> None \<and> 255 < length (br_name rule) then fail (DatabaseError ''update_rule'')
           else modify (billing_rules_update (update_where (\<lambda>r. rl_id r = i) (\<lambda>r.
             r\<lparr>rl_name := br_name rule, rl_description := br_description rule,
               rl_condition_type := condition_type, rl_condition_data := condition_data,
               rl_action_type := action_type, rl_action_data := action_data,
               rl_priority := sint (br_priority rule), rl_is_active := br_active rule\<rparr>))))))"

definition sql_delete_rule :: "'d billing_ops_scheme \<Rightarrow> string \<Rightarrow> ('z, unit) rules_prog" where
  "sql_delete_rule D rule_id =
     sql (DatabaseError ''delete_rule'')
       (modify (billing_rules_update (delete_where (\<lambda>r. rl_id r = nil_or_parsed D rule_id))))"

record 's rules_repo =
  repo_create_rule :: "billing_rule \<Rightarrow> ('s, billing_error, unit) prog"
  repo_get_rule :: "string \<Rightarrow> ('s, billing_error, billing_rule option) prog"
  repo_list_rules :: "('s, billing_error, billing_rule list) prog"
  repo_list_active_rules :: "('s, billing_error, billing_rule list) prog"
  repo_update_rule :: "billing_rule \<Rightarrow> ('s, billing_error, unit) prog"
  repo_delete_rule :: "string \<Rightarrow> ('s, billing_error, unit) prog"

definition sql_rules_repository :: "'d billing_ops_scheme \<Rightarrow> 'z rules_db_scheme rules_repo" where
  "sql_rules_repository D =
     \<lparr>repo_create_rule = sql_create_rule D, repo_get_rule = sql_get_rule D, repo_list_rules = sql_list_rules D,
      repo_list_active_rules = sql_list_active_rules D, repo_update_rule = sql_update_rule D,
      repo_delete_rule = sql_delete_rule D\<rparr>"

subsection \<open>\<open>RulesEngine\<close>\<close>

fun apply_action :: "'d decimal_ops_scheme \<Rightarrow> cost_breakdown \<Rightarrow> rule_action \<Rightarrow> cost_breakdown" where
  "apply_action D cost (ApplyDiscount percentage) =
     cost\<lparr>discounts := cb_add D (discounts cost) (cb_multiply D (base_cost cost) percentage)\<rparr>"
| "apply_action D cost (ApplyCredit amount) = cost\<lparr>discounts := cb_add D (discounts cost) amount\<rparr>"
| "apply_action D cost (MultiplyRate factor) =
     cost\<lparr>base_cost := cb_multiply D (base_cost cost) factor, usage_cost := cb_multiply D (usage_cost cost) factor\<rparr>"
| "apply_action D cost (SetFixedRate rate) = cost\<lparr>base_cost := rate, usage_cost := cb_zero\<rparr>"
| "apply_action D cost (AddCharge amount) = cost\<lparr>overage_charges := cb_add D (overage_charges cost) amount\<rparr>"

fun apply_actions :: "'d decimal_ops_scheme \<Rightarrow> cost_breakdown \<Rightarrow> billing_rule list \<Rightarrow> cost_breakdown" where
  "apply_actions D cost [] = cost"
| "apply_actions D cost (rule # rules) = apply_actions D (apply_action D cost (br_action rule)) rules"

definition apply_rule_actions :: "'d decimal_ops_scheme \<Rightarrow> cost_breakdown \<Rightarrow> billing_rule list \<Rightarrow> cost_breakdown" where
  "apply_rule_actions D cost rules =
     (let cost' = apply_actions D cost rules in cost'\<lparr>total_cost := calculate_total D cost'\<rparr>)"

fun filter_rules :: "usage_metrics \<Rightarrow> str_map \<Rightarrow> billing_rule list \<Rightarrow> ('z env_scheme, 'e, billing_rule list) prog" where
  "filter_rules usage metadata [] = ok []"
| "filter_rules usage metadata (r # rs) =
     andthen (condition_evaluate (br_condition r) usage metadata) (\<lambda>holds.
     andthen (filter_rules usage metadata rs) (\<lambda>rest. ok (if holds then r # rest else rest)))"

definition re_evaluate_rules ::
  "'z env_scheme rules_repo \<Rightarrow> usage_metrics \<Rightarrow> str_map \<Rightarrow> ('z env_scheme, billing_error, billing_rule list) prog" where
  "re_evaluate_rules R usage metadata =
     andthen (repo_list_active_rules R) (\<lambda>rules. filter_rules usage metadata rules)"

definition re_evaluate_package ::
  "'d decimal_ops_scheme \<Rightarrow> 'z env_scheme package_repo \<Rightarrow> 'z env_scheme rules_repo \<Rightarrow> package_id \<Rightarrow> usage_metrics \<Rightarrow>
     str_map \<Rightarrow> ('z env_scheme, billing_error, cost_breakdown) prog" where
  "re_evaluate_package D P R package_id usage metadata =
     andthen (repo_get_package P package_id) (\<lambda>package.
       let cost = calculate_cost D package usage in
       andthen (re_evaluate_rules R usage metadata) (\<lambda>rules.
         ok (apply_rule_actions D cost rules)))"

definition re_get_package :: "'s package_repo \<Rightarrow> package_id \<Rightarrow> ('s, billing_error, billing_package) prog" where
  "re_get_package P i = repo_get_package P i"

definition re_list_packages :: "'s package_repo \<Rightarrow> ('s, billing_error, billing_package list) prog" where
  "re_list_packages P = repo_list_packages P"

definition re_create_package :: "'s package_repo \<Rightarrow> billing_package \<Rightarrow> ('s, billing_error, unit) prog" where
  "re_create_package P p = repo_create_package P p"

definition re_update_package :: "'s package_repo \<Rightarrow> billing_package \<Rightarrow> ('s, billing_error, unit) prog" where
  "re_update_package P p = repo_update_package P p"

definition re_create_rule :: "'s rules_repo \<Rightarrow> billing_rule \<Rightarrow> ('s, billing_error, unit) prog" where
  "re_create_rule R rule = repo_create_rule R rule"

definition re_list_rules :: "'s rules_repo \<Rightarrow> ('s, billing_error, billing_rule list) prog" where
  "re_list_rules R = repo_list_rules R"

subsection \<open>A rule survives the table\<close>

definition action_fits :: "rule_action \<Rightarrow> bool" where
  "action_fits a = (case a of ApplyCredit x \<Rightarrow> credit_ok x | SetFixedRate x \<Rightarrow> credit_ok x | AddCharge x \<Rightarrow> credit_ok x
     | _ \<Rightarrow> True)"

lemmas json_fields = json_str_field_def json_dec_field_def json_nat_field_def

lemma word_of_nat_uint [simp]: "word_of_nat (nat (uint w)) = w"
  by simp

context billing_platform
begin

lemma condition_round_trip: "case_prod (deserialize_condition D) (serialize_condition D c) = Inr c"
  by (cases c) (simp_all add: deserialize_condition_def json_fields parse_show_dec)

lemma action_round_trip: "action_fits a \<Longrightarrow> case_prod (deserialize_action D) (serialize_action D a) = Inr a"
  by (cases a) (simp_all add: deserialize_action_def json_fields parse_show_dec action_fits_def from_decimal_id Let_def)

lemma create_rule_run:
  assumes "reliable s" "parse_uuid D (br_id rule) = Some i" "row_of rl_id i (billing_rules s) = None"
    and "length (br_name rule) \<le> 255" "action_fits (br_action rule)"
  shows "\<exists>t r. sql_create_rule D rule s = (Inr (), t) \<and> reliable t \<and> billing_rules t = billing_rules s @ [r] \<and>
    rl_id r = i \<and> rule_from_row D r = Inr (rule\<lparr>br_id := show_uuid D i\<rparr>)"
proof -
  obtain ct cd where c: "serialize_condition D (br_condition rule) = (ct, cd)" by (meson prod.exhaust_sel)
  obtain ay ad where a: "serialize_action D (br_action rule) = (ay, ad)" by (meson prod.exhaust_sel)
  have "deserialize_condition D ct cd = Inr (br_condition rule)"
    using condition_round_trip [of "br_condition rule"] c by simp
  moreover have "deserialize_action D ay ad = Inr (br_action rule)"
    using action_round_trip [OF assms(5)] a by simp
  ultimately show ?thesis
    using assms by (auto simp: sql_create_rule_def c a reliable_sql rule_from_row_def db_now_def reliable_def)
qed

end

text \<open>C16: a rule that is stored and read back is the rule that was stored. Its identifier must be the text of a
  UUID; otherwise it is stored under a new one.\<close>

theorem rule_round_trip:
  assumes "billing_platform D" "reliable s" "br_id rule = show_uuid D i" "row_of rl_id i (billing_rules s) = None"
    and "length (br_name rule) \<le> 255" "action_fits (br_action rule)"
  shows "\<exists>t. sql_create_rule D rule s = (Inr (), t) \<and> fst (sql_get_rule D (br_id rule) t) = Inr (Some rule)"
proof -
  have i: "parse_uuid D (br_id rule) = Some i"
    using assms(1,3) by (simp add: billing_platform.parse_show_uuid)
  obtain t r where t: "sql_create_rule D rule s = (Inr (), t)" "reliable t" "billing_rules t = billing_rules s @ [r]"
      "rl_id r = i" "rule_from_row D r = Inr (rule\<lparr>br_id := show_uuid D i\<rparr>)"
    using billing_platform.create_rule_run [OF assms(1,2) i assms(4-6)] by blast
  have "rule\<lparr>br_id := show_uuid D i\<rparr> = rule" using assms(3) by simp
  with t i assms(4) show ?thesis
    by (auto simp: sql_get_rule_def reliable_sql andthen_def nil_or_parsed_def)
qed

definition demo_rule :: billing_rule where
  "demo_rule = \<lparr>br_id = show_id 9, br_name = ''night'', br_description = ''night rate'',
     br_condition = TimeRange 22 6, br_action = MultiplyRate (1 / 2), br_priority = 10, br_active = True\<rparr>"

definition demo_rules_db :: rules_db where
  "demo_rules_db = package_db.extend demo_package_db \<lparr>billing_rules = []\<rparr>"

lemma demo_rules_db_facts: "reliable demo_rules_db" "billing_rules demo_rules_db = []"
  by (simp_all add: demo_rules_db_def package_db.defs demo_package_db_def reliable_def)

theorem rule_round_trip_witness:
  "\<exists>t. sql_create_rule bankers_pg demo_rule demo_rules_db = (Inr (), t) \<and>
     fst (sql_get_rule bankers_pg (br_id demo_rule) t) = Inr (Some demo_rule)"
  using rule_round_trip [OF bankers_pg.billing_platform_axioms demo_rules_db_facts(1), of demo_rule 9]
  by (simp add: demo_rules_db_facts demo_rule_def action_fits_def)

subsection \<open>When a rule applies\<close>

lemma unat_utc_hour: "unat (utc_hour t) = nat (t div hour_ns mod 24)"
proof -
  have "0 \<le> t div hour_ns mod 24" "t div hour_ns mod 24 < 24" by simp_all
  then have "t div hour_ns mod 24 mod 2 ^ 32 = t div hour_ns mod 24" by (intro mod_pos_pos_trivial) simp_all
  then show ?thesis by (simp add: utc_hour_def unsigned_of_int take_bit_eq_mod)
qed

lemma cyclic_range:
  fixes a b h :: nat
  assumes "a < 24" "b < 24" "h < 24"
  shows "(if a \<le> b then a \<le> h \<and> h < b else a \<le> h \<or> h < b) \<longleftrightarrow> (h + 24 - a) mod 24 < (b + 24 - a) mod 24"
proof -
  have m: "(x + 24 - a) mod 24 = (if a \<le> x then x - a else x + 24 - a)" if "x < 24" for x :: nat
  proof (cases "a \<le> x")
    case True
    then have "x + 24 - a = (x - a) + 24" by simp
    with True that show ?thesis by (simp only: mod_add_self2) simp
  qed (use assms in auto)
  show ?thesis unfolding m [OF assms(3)] m [OF assms(2)] using assms by auto
qed

text \<open>A time range of hours of the day holds exactly when the current hour lies in the interval from its start
  to its end on the circle of 24 hours, so that 22 to 6 is the night and a range that ends where it starts is
  empty.\<close>

theorem time_range_is_cyclic:
  assumes "unat a < 24" "unat b < 24"
  shows "condition_evaluate (TimeRange a b) u m s =
    (Inr ((nat (clock s (tick s) div hour_ns mod 24) + 24 - unat a) mod 24 < (unat b + 24 - unat a) mod 24),
     s\<lparr>tick := Suc (tick s)\<rparr>)"
proof -
  have "unat (utc_hour (clock s (tick s))) < 24" by (simp add: unat_utc_hour nat_less_iff)
  from cyclic_range [OF assms this] show ?thesis
    by (simp only: condition_evaluate.simps andthen_utc_now ok_run in_time_range_def word_le_nat_alt word_less_nat_alt
        flip: unat_utc_hour)
qed

theorem time_range_is_cyclic_witness:
  "condition_evaluate (TimeRange 22 6) usage_zero [] (demo_package_db\<lparr>clock := \<lambda>_. 23 * hour_ns\<rparr>) =
     (Inr True, demo_package_db\<lparr>clock := \<lambda>_. 23 * hour_ns, tick := 1\<rparr>)"
  using time_range_is_cyclic [of 22 6 usage_zero "[]" "demo_package_db\<lparr>clock := \<lambda>_. 23 * hour_ns\<rparr>"]
  by (simp add: demo_facts hour_ns_def)

subsection \<open>What the rules make of a price\<close>

definition action_in_range :: "rule_action \<Rightarrow> bool" where
  "action_in_range a = (case a of
     ApplyDiscount p \<Rightarrow> 0 \<le> p \<and> p \<le> 1
   | ApplyCredit x \<Rightarrow> dec6 x \<and> 0 \<le> x \<and> x \<le> 10 ^ 12
   | MultiplyRate f \<Rightarrow> 0 \<le> f
   | SetFixedRate x \<Rightarrow> dec6 x \<and> 0 \<le> x \<and> x \<le> 10 ^ 11
   | AddCharge x \<Rightarrow> dec6 x \<and> 0 \<le> x \<and> x \<le> 10 ^ 11)"

text \<open>No rule takes the base cost above \<open>10 ^ 11\<close> on the way.\<close>

fun rules_in_range :: "'d decimal_ops_scheme \<Rightarrow> cost_breakdown \<Rightarrow> billing_rule list \<Rightarrow> bool" where
  "rules_in_range D cost [] = True"
| "rules_in_range D cost (r # rs) =
     (action_in_range (br_action r) \<and>
      (case br_action r of MultiplyRate f \<Rightarrow> base_cost cost * f \<le> 10 ^ 11 - 1 | _ \<Rightarrow> True) \<and>
      rules_in_range D (apply_action D cost (br_action r)) rs)"

definition cost_in_range :: "nat \<Rightarrow> cost_breakdown \<Rightarrow> bool" where
  "cost_in_range n c \<longleftrightarrow> dec6 (base_cost c) \<and> 0 \<le> base_cost c \<and> base_cost c \<le> 10 ^ 11 \<and> usage_cost c = 0 \<and>
     dec6 (discounts c) \<and> 0 \<le> discounts c \<and> discounts c \<le> of_nat n * 10 ^ 12 \<and>
     dec6 (overage_charges c) \<and> 0 \<le> overage_charges c \<and> overage_charges c \<le> of_nat n * 10 ^ 12"

lemma amount_credit_ok:
  assumes "dec6 x" "0 \<le> x" "x \<le> of_nat n * 10 ^ 12" "n \<le> 10 ^ 10"
  shows "credit_ok x"
proof -
  have "(of_nat n :: rat) \<le> of_nat (10 ^ 10)" using assms(4) by (rule of_nat_mono)
  then have "(of_nat n :: rat) \<le> 10 ^ 10" by simp
  then have "of_nat n * 10 ^ 12 \<le> (10 ^ 10 :: rat) * 10 ^ 12" by (rule mult_right_mono) simp
  with assms(3) have "x \<le> 10 ^ 22" by simp
  with assms show ?thesis by (simp add: credit_ok_def)
qed

lemma small_dec6:
  assumes "dec6 y" "\<bar>y\<bar> < 1 / 1000000"
  shows "y = 0"
proof -
  obtain k where k: "y = of_int k / 1000000" using assms(1) by (auto simp: dec6_iff)
  with assms(2) have "\<bar>of_int k :: rat\<bar> < 1" by simp
  then have "k = 0" by linarith
  with k show ?thesis by simp
qed

context rust_decimal
begin

lemma cb_multiply_zero: "cb_multiply D 0 f = 0"
proof (rule small_dec6)
  have "\<bar>dec_mul D 0 f\<bar> \<le> 1 / 10 ^ 15" using dec_mul_near [of 0 f] by simp
  moreover have "\<bar>dec_round D (dec_mul D 0 f) 6 - dec_mul D 0 f\<bar> \<le> 1 / 2000000" by (rule dec_round_near)
  moreover have "(1 / 10 ^ 15 :: rat) + 1 / 2000000 < 1 / 1000000" by simp
  ultimately show "\<bar>cb_multiply D 0 f\<bar> < 1 / 1000000"
    unfolding cb_multiply_def from_decimal_def by linarith
qed (simp add: cb_multiply_def from_decimal_dec6)

lemma multiply_in_range:
  assumes "0 \<le> x" "0 \<le> f" "x * f \<le> 10 ^ 12 - 1"
  shows "dec6 (cb_multiply D x f)" "0 \<le> cb_multiply D x f" "cb_multiply D x f \<le> x * f + 1"
proof -
  have "x * f \<le> 10 ^ 12" using assms(3) by simp
  with assms(1,2) show "0 \<le> cb_multiply D x f" by (rule cb_multiply_nonneg)
  have "\<bar>cb_multiply D x f - x * f\<bar> \<le> 1 / 10 ^ 6"
    using assms by (intro cb_multiply_near) simp
  then have "\<bar>cb_multiply D x f - x * f\<bar> \<le> 1" by (rule order_trans) simp
  then show "cb_multiply D x f \<le> x * f + 1" by linarith
  show "dec6 (cb_multiply D x f)" by (simp add: cb_multiply_def from_decimal_dec6)
qed

lemma add_in_range:
  assumes "dec6 x" "0 \<le> x" "x \<le> of_nat n * 10 ^ 12" "Suc n \<le> 10 ^ 9"
    and "dec6 y" "0 \<le> y" "y \<le> 10 ^ 12"
  shows "cb_add D x y = x + y" "dec6 (x + y)" "0 \<le> x + y" "x + y \<le> of_nat (Suc n) * 10 ^ 12"
proof -
  have "credit_ok x" using assms by (intro amount_credit_ok [where n = n]) simp_all
  moreover have "credit_ok y" using assms by (intro amount_credit_ok [where n = 1]) simp_all
  ultimately show "cb_add D x y = x + y" by (rule cb_add_exact)
  show "dec6 (x + y)" "0 \<le> x + y" using assms by auto
  show "x + y \<le> of_nat (Suc n) * 10 ^ 12" using assms by (simp add: algebra_simps)
qed

lemma apply_action_in_range:
  assumes "cost_in_range n c" "action_in_range a" "Suc n \<le> 10 ^ 9"
    and "case a of MultiplyRate f \<Rightarrow> base_cost c * f \<le> 10 ^ 11 - 1 | _ \<Rightarrow> True"
  shows "cost_in_range (Suc n) (apply_action D c a)"
proof -
  have grow: "x \<le> of_nat n * 10 ^ 12 \<Longrightarrow> x \<le> of_nat (Suc n) * 10 ^ 12" for x :: rat
    by (simp add: algebra_simps)
  show ?thesis
  proof (cases a)
    case (ApplyDiscount p)
    have "base_cost c * p \<le> 10 ^ 11 * 1"
      using assms ApplyDiscount by (intro mult_mono) (auto simp: cost_in_range_def action_in_range_def)
    then have m: "base_cost c * p \<le> 10 ^ 12 - 1" "base_cost c * p + 1 \<le> 10 ^ 12" by simp_all
    have x: "0 \<le> base_cost c" "0 \<le> p" using assms ApplyDiscount by (auto simp: cost_in_range_def action_in_range_def)
    note mult = multiply_in_range [OF x m(1)]
    have "cb_multiply D (base_cost c) p \<le> 10 ^ 12" using mult(3) m(2) by linarith
    with assms mult show ?thesis
      using add_in_range [of "discounts c" n "cb_multiply D (base_cost c) p"] grow
      by (simp add: ApplyDiscount cost_in_range_def)
  next
    case (ApplyCredit x)
    with assms show ?thesis
      using add_in_range [of "discounts c" n x] grow by (simp add: cost_in_range_def action_in_range_def)
  next
    case (MultiplyRate f)
    then have x: "0 \<le> base_cost c" "0 \<le> f" "base_cost c * f \<le> 10 ^ 12 - 1" "base_cost c * f \<le> 10 ^ 11 - 1"
      using assms by (auto simp: cost_in_range_def action_in_range_def)
    note mult = multiply_in_range [OF x(1-3)]
    show ?thesis
      using assms(1) mult x(4) cb_multiply_zero grow by (simp add: MultiplyRate cost_in_range_def)
  next
    case (SetFixedRate x)
    with assms grow show ?thesis by (simp add: cost_in_range_def action_in_range_def cb_zero_def)
  next
    case (AddCharge x)
    with assms show ?thesis
      using add_in_range [of "overage_charges c" n x] grow by (simp add: cost_in_range_def action_in_range_def)
  qed
qed

lemma apply_actions_in_range:
  "cost_in_range n c \<Longrightarrow> rules_in_range D c rs \<Longrightarrow> n + length rs \<le> 10 ^ 9 \<Longrightarrow>
     cost_in_range (n + length rs) (apply_actions D c rs)"
proof (induction rs arbitrary: n c)
  case Nil
  then show ?case by simp
next
  case (Cons r rs)
  have "cost_in_range (Suc n) (apply_action D c (br_action r))"
    using Cons.prems by (intro apply_action_in_range) simp_all
  then show ?case using Cons.IH [of "Suc n"] Cons.prems by simp
qed

lemma calculate_total_exact:
  assumes "cost_in_range n c" "n \<le> 10 ^ 9"
  shows "calculate_total D c = max 0 (base_cost c + usage_cost c + overage_charges c - discounts c)"
proof -
  let ?b = "base_cost c" and ?o = "overage_charges c" and ?d = "discounts c"
  have c: "dec6 ?b" "0 \<le> ?b" "?b \<le> of_nat 1 * 10 ^ 12" "dec6 ?o" "0 \<le> ?o" "?o \<le> of_nat n * 10 ^ 12"
    "dec6 ?d" "0 \<le> ?d" "?d \<le> of_nat n * 10 ^ 12" "usage_cost c = 0"
    using assms(1) by (simp_all add: cost_in_range_def)
  have sum: "dec6 (?b + ?o)" "0 \<le> ?b + ?o" "?b + ?o \<le> of_nat (Suc n) * 10 ^ 12"
    using c by (auto simp: algebra_simps)
  have ok: "credit_ok ?b" "credit_ok ?o" "credit_ok ?d" "credit_ok (?b + ?o)"
    using amount_credit_ok [OF c(1-3)] amount_credit_ok [OF c(4-6)] amount_credit_ok [OF c(7-9)]
      amount_credit_ok [OF sum] assms(2) by simp_all
  then show ?thesis
    by (simp add: calculate_total_def Let_def cb_add_exact cb_subtract_exact c(10) max_def cb_zero_def)
qed

lemma price_of_rules:
  assumes "cost_in_range 0 c" "rules_in_range D c rs" "length rs \<le> 10 ^ 9"
  defines "c' \<equiv> apply_rule_actions D c rs"
  shows "total_cost c' = max 0 (base_cost c' + usage_cost c' + overage_charges c' - discounts c')"
    and "0 \<le> discounts c'" "0 \<le> overage_charges c'" "0 \<le> base_cost c'"
proof -
  have range: "cost_in_range (length rs) (apply_actions D c rs)"
    using apply_actions_in_range [OF assms(1,2)] assms(3) by simp
  from calculate_total_exact [OF this assms(3)]
  show "total_cost c' = max 0 (base_cost c' + usage_cost c' + overage_charges c' - discounts c')"
    by (simp add: c'_def apply_rule_actions_def Let_def)
  show "0 \<le> discounts c'" "0 \<le> overage_charges c'" "0 \<le> base_cost c'"
    using range by (simp_all add: c'_def apply_rule_actions_def Let_def cost_in_range_def)
qed

lemma package_cost_in_range:
  assumes "rate_ok (pkg_hourly_rate p)" "gpu_hours u \<le> 10 ^ 4"
  shows "cost_in_range 0 (calculate_cost D p u)"
proof -
  let ?c = "calculate_cost D p u" and ?r = "pkg_hourly_rate p"
  have u: "gpu_hours u \<le> 10 ^ 6" using assms(2) by (rule order_trans) simp
  note bounds = package_cost_bounds [OF assms(1) u]
  have "?r * max (gpu_hours u) 1 \<le> 10 ^ 6 * 10 ^ 4"
    using rate_ok_bounds [OF assms(1)] assms(2) by (intro mult_mono) auto
  moreover have "\<bar>total_cost ?c - ?r * max (gpu_hours u) 1\<bar> \<le> 1" using bounds(2) by (rule order_trans) simp
  moreover have "(10 ^ 6 * 10 ^ 4 + 1 :: rat) \<le> 10 ^ 11" by simp
  ultimately have "total_cost ?c \<le> 10 ^ 11" by linarith
  with bounds rate_ok_bounds [OF assms(1)] show ?thesis
    by (simp add: cost_in_range_def credit_ok_def)
qed

end


definition demo_package :: billing_package where
  "demo_package = package_new ''h100'' ''H100'' ''test'' (7 / 2) ''H100''"

definition demo_rules :: "billing_rule list" where
  "demo_rules = [demo_rule, demo_rule\<lparr>br_action := ApplyDiscount (1 / 10)\<rparr>]"

lemma demo_pricing:
  "rate_ok (pkg_hourly_rate demo_package)" "gpu_hours usage_zero \<le> 10 ^ 4" "length demo_rules \<le> 10 ^ 9"
  "rules_in_range bankers (calculate_cost bankers demo_package usage_zero) demo_rules"
  by (simp_all add: demo_package_def package_new_def rate_ok_def numeric_fits_def has_places_def usage_zero_def
      demo_rules_def demo_rule_def action_in_range_def calculate_cost_def Let_def cb_multiply_def from_decimal_def bankers_simps)


text \<open>A percentage discount takes that share off the price, up to a millionth.\<close>

theorem discount_rule_price:
  assumes "rust_decimal D" "rate_ok (pkg_hourly_rate p)" "gpu_hours u \<le> 10 ^ 4"
    and "br_action r = ApplyDiscount d" "0 \<le> d" "d \<le> 1"
  shows "\<bar>total_cost (apply_rule_actions D (calculate_cost D p u) [r]) - total_cost (calculate_cost D p u) * (1 - d)\<bar> \<le> 1 / 10 ^ 6"
proof -
  let ?c = "calculate_cost D p u"
  let ?b = "base_cost ?c"
  note range = rust_decimal.package_cost_in_range [OF assms(1-3)]
  have fields: "total_cost ?c = ?b" "usage_cost ?c = 0" "overage_charges ?c = 0" "discounts ?c = 0"
    by (simp_all add: calculate_cost_def Let_def cb_zero_def)
  have b: "0 \<le> ?b" "?b \<le> 10 ^ 11" using range by (simp_all add: cost_in_range_def)
  have "?b * d \<le> 10 ^ 11 * 1" using b assms by (intro mult_mono) auto
  then have bd: "0 \<le> ?b * d" "?b * d \<le> 10 ^ 12 - 1" using b assms by simp_all
  let ?m = "cb_multiply D ?b d"
  have m: "dec6 ?m" "0 \<le> ?m" "?m \<le> ?b * d + 1"
    using rust_decimal.multiply_in_range [OF assms(1) b(1) assms(5) bd(2)] by blast+
  have near: "\<bar>?m - ?b * d\<bar> \<le> 1 / 10 ^ 6"
    using rust_decimal.cb_multiply_near [OF assms(1)] bd by simp
  have "cb_add D 0 ?m = ?m"
    using rust_decimal.add_in_range(1) [OF assms(1), of 0 0 ?m] m bd by simp
  then have "discounts (apply_rule_actions D ?c [r]) = ?m" "base_cost (apply_rule_actions D ?c [r]) = ?b"
    "usage_cost (apply_rule_actions D ?c [r]) = 0" "overage_charges (apply_rule_actions D ?c [r]) = 0"
    using assms(4) by (simp_all add: apply_rule_actions_def Let_def fields)
  moreover have "rules_in_range D ?c [r]" using assms by (simp add: action_in_range_def)
  ultimately have total: "total_cost (apply_rule_actions D ?c [r]) = max 0 (?b - ?m)"
    using rust_decimal.price_of_rules(1) [OF assms(1) range, of "[r]"] by simp
  have "?m \<le> ?b"
    using rust_decimal.cb_multiply_mono [OF assms(1), of ?b d 1] rust_decimal.cb_multiply_1 [OF assms(1), of ?b] b bd assms(6) range
    by (simp add: cost_in_range_def credit_ok_def)
  with total have "total_cost (apply_rule_actions D ?c [r]) - total_cost ?c * (1 - d) = - (?m - ?b * d)"
    by (simp add: fields algebra_simps)
  with near show ?thesis by (simp only: abs_minus_cancel)
qed

theorem discount_rule_price_witness:
  "\<bar>total_cost (apply_rule_actions bankers (calculate_cost bankers demo_package usage_zero)
        [demo_rule\<lparr>br_action := ApplyDiscount (1 / 10)\<rparr>]) -
     total_cost (calculate_cost bankers demo_package usage_zero) * (1 - 1 / 10)\<bar> \<le> 1 / 10 ^ 6"
  by (rule discount_rule_price [OF bankers.rust_decimal_axioms demo_pricing(1,2)]) simp_all

subsection \<open>The engine on top of the repositories\<close>

locale rules_engine = package_repository P inv
  for P :: "'z env_scheme package_repo" and inv +
  fixes R :: "'z env_scheme rules_repo"
  assumes tickless_inv: "tickless inv"
    and list_active_rules_keeps: "keeps inv (repo_list_active_rules R)"
begin

lemma filter_rules_keeps: "keeps inv (filter_rules u m rs)"
proof (induction rs)
  case (Cons r rs)
  have "keeps inv (condition_evaluate (br_condition r) u m)"
    by (cases "br_condition r") (auto intro!: keeps_rules tickless_inv)
  with Cons show ?case by (auto intro!: keeps_rules)
qed (unfold filter_rules.simps, rule keeps_ok)

lemma evaluate_rules_keeps: "keeps inv (re_evaluate_rules R u m)"
  unfolding re_evaluate_rules_def by (intro keeps_andthen list_active_rules_keeps filter_rules_keeps)

lemma evaluate_package_keeps: "keeps inv (re_evaluate_package D P R i u m)"
  unfolding re_evaluate_package_def Let_def
  by (intro keeps_andthen safe_keeps [OF get_package_safe] evaluate_rules_keeps keeps_ok)

text \<open>With no rule in force the price is the package's.\<close>

lemma evaluate_package_no_rules:
  assumes "rust_decimal D" "gpu_hours u \<le> 10 ^ 4" "inv s"
    and "repo_get_package P i s = (Inr p, t)" "repo_list_active_rules R t = (Inr [], t')"
  shows "re_evaluate_package D P R i u m s = (Inr (calculate_cost D p u), t')"
proof -
  have p: "rate_ok (pkg_hourly_rate p)"
    using safeD [OF get_package_safe assms(3,4)] by blast
  have "total_cost (apply_rule_actions D (calculate_cost D p u) []) = base_cost (calculate_cost D p u)"
    using rust_decimal.price_of_rules(1,4) [OF assms(1) rust_decimal.package_cost_in_range [OF assms(1) p assms(2)], of "[]"]
    by (simp add: apply_rule_actions_def Let_def calculate_cost_def cb_zero_def)
  then have "apply_rule_actions D (calculate_cost D p u) [] = calculate_cost D p u"
    by (simp add: apply_rule_actions_def Let_def calculate_cost_def)
  with assms(4,5) show ?thesis
    by (simp add: re_evaluate_package_def re_evaluate_rules_def andthen_def Let_def)
qed

end

lemma keeps_sql_list_active_rules: "tickless I \<Longrightarrow> keeps I (sql_list_active_rules D)"
  unfolding sql_list_active_rules_def by (intro keeps_rules)

sublocale billing_platform \<subseteq> sql_engine: rules_engine "sql_package_repository D" "package_db_ok D" "sql_rules_repository D"
  by unfold_locales (simp_all add: sql_rules_repository_def keeps_sql_list_active_rules)

context billing_platform
begin

lemma engine_price_no_rules:
  assumes "package_db_ok D s" "reliable s" "row_of pk_id i (packages s) = Some r"
    and "rows_where rl_is_active (billing_rules s) = []" "gpu_hours u \<le> 10 ^ 4"
  shows "\<exists>t. re_evaluate_package D (sql_package_repository D) (sql_rules_repository D) i u m s =
    (Inr (calculate_cost D (package_from_row D r) u), t) \<and> package_db_ok D t"
proof -
  have ok: "acked s" "coherent D (reliable s) (packages s) (package_cache s)"
    using assms(1) by (simp_all add: package_db_ok_def)
  have cached: "p = package_from_row D r" if "package_cache s i = Some p" for p
    using coherent_exact [of D "packages s" "package_cache s" i p r] that ok(2) assms(2,3) by simp
  obtain t where get: "sql_get_package D i s = (Inr (package_from_row D r), t)"
      and t: "billing_rules t = billing_rules s" "reliable t"
  proof (cases "package_cache s i")
    case None
    then show ?thesis
      using that [of "package_cache_update (\<lambda>c. c(i \<mapsto> package_from_row D r)) (s\<lparr>tick := Suc (tick s)\<rparr>)"] assms(2,3) ok(1)
      by (simp add: get_package_run Let_def)
  next
    case (Some p)
    then show ?thesis using that [of s] cached [OF Some] assms(2) ok(1) by (simp add: get_package_run)
  qed
  have rules: "sql_list_active_rules D t = (Inr [], t\<lparr>tick := Suc (tick t)\<rparr>)"
    using t assms(4) by (simp add: sql_list_active_rules_def reliable_sql andthen_def rules_order_def)
  have run: "re_evaluate_package D (sql_package_repository D) (sql_rules_repository D) i u m s =
      (Inr (calculate_cost D (package_from_row D r) u), t\<lparr>tick := Suc (tick t)\<rparr>)"
    using sql_engine.evaluate_package_no_rules [OF rust_decimal_axioms assms(5,1), of i "package_from_row D r" t] get rules
    by (simp add: sql_package_repository_def sql_rules_repository_def)
  with keepsD [OF sql_engine.evaluate_package_keeps assms(1) run] show ?thesis by blast
qed

end

text \<open>With no active rule, evaluating a package charges exactly the price of the package that is in the
  table, whether it is read from the cache or not.\<close>

theorem evaluate_package_without_rules:
  assumes "billing_platform D" "package_db_ok D s" "reliable s" "row_of pk_id i (packages s) = Some r"
    and "rows_where rl_is_active (billing_rules s) = []" "gpu_hours u \<le> 10 ^ 4"
  shows "\<exists>t. re_evaluate_package D (sql_package_repository D) (sql_rules_repository D) i u m s =
    (Inr (calculate_cost D (package_from_row D r) u), t) \<and> package_db_ok D t"
  by (rule billing_platform.engine_price_no_rules [OF assms])

lemma demo_rules_db_more:
  "package_db_ok D demo_rules_db" "row_of pk_id ''h200'' (packages demo_rules_db) = Some (default_packages ! 1)"
  by (simp_all add: demo_rules_db_def package_db.defs demo_package_db_def package_db_ok_def acked_def coherent_empty
      default_rates default_unique default_h200)

theorem evaluate_package_without_rules_witness:
  "\<exists>t. re_evaluate_package bankers_pg (sql_package_repository bankers_pg) (sql_rules_repository bankers_pg) ''h200''
       usage_zero [] demo_rules_db = (Inr (calculate_cost bankers_pg (package_from_row bankers_pg (default_packages ! 1)) usage_zero), t)"
  using evaluate_package_without_rules [OF bankers_pg.billing_platform_axioms demo_rules_db_more(1) demo_rules_db_facts(1)
      demo_rules_db_more(2) _ demo_pricing(2), of "[]"]
  by (auto simp: demo_rules_db_facts rows_where_def)

end
