(* ===== verification/Payments.thy ===== *)
theory Payments
  imports Billing_Platform "HOL-Library.Word"
begin

section \<open>Payments: deposits, the outbox and its dispatcher\<close>

text \<open>
  \<open>crates/basilica-payments/src\<close>: the tables of migration 001 and \<open>PgRepos\<close> (\<open>storage\<close>), the handler of
  chain events (\<open>blockchain/monitor.rs\<close>), the dispatcher of the outbox (\<open>processor/dispatcher.rs\<close>) with its client of
  the billing service, the gRPC service (\<open>grpc/payments_service.rs\<close>) and the conversion of amounts
  (\<open>domain/price.rs\<close>).

  The state has the tables, the accounts the monitor knows, the credits the billing service has accepted (what the
  service does with them is in the billing theories) and three things the service calls: how the database stores a text
  parameter in a \<open>NUMERIC\<close> column, the wallet generator with the cipher, and the fate and the answer of each
  call of the billing service. \<open>bigdecimal\<close>'s texts are the fields of \<open>big_ops\<close>.

  Lemmas: every observed deposit has exactly one outbox entry for the right user and amount, whatever is lost on the way;
  an entry is marked dispatched only after billing accepted it; bounds of the backoff and what it does to a claimed entry;
  the precision of the amount sent.
\<close>

datatype payments_error =
    PDatabase
  | PBlockchain string
  | PEncryption string
  | PBillingService string
  | PConfig string
  | PPriceConversion string
  | PTreasury string
  | PGrpc string
  | PGeneral string

record big_ops =
  parse_big :: "string \<Rightarrow> rat option"
  show_big :: "rat \<Rightarrow> string"

record deposit_account =
  da_user_id :: string
  da_address_ss58 :: string
  da_account_id_hex :: string
  da_hotkey_public_hex :: string
  da_hotkey_mnemonic_ct :: string

record observed_deposit =
  od_block_number :: int
  od_event_index :: int
  od_to :: string
  od_from :: string
  od_amount_plancks :: rat
  od_status :: string
  od_observed_at :: time
  od_credited_at :: "time option"
  od_billing_credit_id :: "string option"

record outbox_entry =
  ob_id :: int
  ob_user_id :: string
  ob_amount_plancks :: rat
  ob_transaction_id :: string
  ob_attempts :: int
  ob_claimed_at :: "time option"
  ob_next_attempt_at :: time
  ob_dispatched_at :: "time option"

record payments_db = env +
  deposit_accounts :: "deposit_account list"
  observed_deposits :: "observed_deposit list"
  billing_outbox :: "outbox_entry list"
  outbox_next_id :: int
  known_accounts :: "string set"
  accepted_credits :: "(string \<times> string \<times> string) list"
  numeric_of_text :: "string \<Rightarrow> rat option"
  new_wallet :: "nat \<Rightarrow> (string \<times> string \<times> string \<times> string) option"
  encrypt :: "string \<Rightarrow> string option"
  call_outcome :: "nat \<Rightarrow> outcome"
  price_feed :: "nat \<Rightarrow> rat option"
  billing_reply :: "nat \<Rightarrow> string option"

type_synonym ('z, 'a) pay_prog = "('z payments_db_scheme, payments_error, 'a) prog"

subsection \<open>\<open>PgRepos\<close>\<close>

definition get_by_user :: "string \<Rightarrow> ('z, (string \<times> string \<times> string \<times> string) option) pay_prog" where
  "get_by_user user_id =
     sql PDatabase (gets (\<lambda>s. map_option
       (\<lambda>r. (da_address_ss58 r, da_account_id_hex r, da_hotkey_public_hex r, da_hotkey_mnemonic_ct r))
       (row_of da_user_id user_id (deposit_accounts s))))"

definition insert_account_tx ::
  "string \<Rightarrow> string \<Rightarrow> string \<Rightarrow> string \<Rightarrow> string \<Rightarrow> ('z, unit) pay_prog" where
  "insert_account_tx user_id addr acct_hex pub_hex mnemonic_ct =
     sql PDatabase (andthen (gets deposit_accounts) (\<lambda>rs.
       if row_of da_user_id user_id rs \<noteq> None \<or> row_of da_address_ss58 addr rs \<noteq> None \<or>
          row_of da_account_id_hex acct_hex rs \<noteq> None
       then fail PDatabase
       else modify (deposit_accounts_update (\<lambda>rs. rs @
         [\<lparr>da_user_id = user_id, da_address_ss58 = addr, da_account_id_hex = acct_hex,
           da_hotkey_public_hex = pub_hex, da_hotkey_mnemonic_ct = mnemonic_ct\<rparr>]))))"

definition list_account_hexes :: "('z, string list) pay_prog" where
  "list_account_hexes = sql PDatabase (gets (\<lambda>s. map da_account_id_hex (deposit_accounts s)))"

definition insert_finalized_tx :: "int \<Rightarrow> int \<Rightarrow> string \<Rightarrow> string \<Rightarrow> string \<Rightarrow> ('z, unit) pay_prog" where
  "insert_finalized_tx block idx to_hex from_hex amount =
     sql PDatabase (andthen (gets (\<lambda>s. (clock s (tick s), observed_deposits s, deposit_accounts s, numeric_of_text s amount)))
       (\<lambda>(now, ds, as, numeric).
        case numeric of
          None \<Rightarrow> fail PDatabase
        | Some n \<Rightarrow>
            if row_of (\<lambda>d. (od_block_number d, od_event_index d)) (block, idx) ds \<noteq> None then ok ()
            else if row_of da_account_id_hex to_hex as = None then fail PDatabase
            else modify (observed_deposits_update (\<lambda>ds. ds @
              [\<lparr>od_block_number = block, od_event_index = idx, od_to = to_hex, od_from = from_hex,
                od_amount_plancks = n, od_status = ''FINALIZED'', od_observed_at = now, od_credited_at = None,
                od_billing_credit_id = None\<rparr>]))))"

definition show_int :: "int \<Rightarrow> string" where
  "show_int i = (if i < 0 then ''-'' @ dec_digits (nat (- i)) else dec_digits (nat i))"

text \<open>The identifier of a transfer: the format string of the monitor, and the SQL expression of
  \<open>mark_credited_tx\<close>.\<close>

definition make_txid :: "int \<Rightarrow> int \<Rightarrow> string \<Rightarrow> string" where
  "make_txid block idx to_hex = ''b'' @ show_int block @ ''#e'' @ show_int idx @ ''#'' @ to_hex"

definition mark_credited_tx :: "string \<Rightarrow> string \<Rightarrow> ('z, unit) pay_prog" where
  "mark_credited_tx transaction_id credit_id =
     sql PDatabase (andthen (gets (\<lambda>s. clock s (tick s))) (\<lambda>now.
       modify (observed_deposits_update (update_where
         (\<lambda>d. make_txid (od_block_number d) (od_event_index d) (od_to d) = transaction_id)
         (\<lambda>d. d\<lparr>od_status := ''CREDITED'', od_credited_at := Some now, od_billing_credit_id := Some credit_id\<rparr>)))))"

definition list_by_user :: "string \<Rightarrow> int \<Rightarrow> int \<Rightarrow> ('z, observed_deposit list) pay_prog" where
  "list_by_user user_id limit offset =
     sql PDatabase
       (if limit < 0 \<or> offset < 0 then fail PDatabase
        else gets (\<lambda>s. take (nat limit) (drop (nat offset)
          (sort_key (\<lambda>d. - od_block_number d) (sort_key (\<lambda>d. - od_event_index d)
            (rows_where (\<lambda>d. list_ex (\<lambda>a. da_account_id_hex a = od_to d \<and> da_user_id a = user_id) (deposit_accounts s))
               (observed_deposits s)))))))"

definition enqueue_tx :: "string \<Rightarrow> string \<Rightarrow> string \<Rightarrow> ('z, unit) pay_prog" where
  "enqueue_tx to_hex amount txid =
     sql PDatabase (andthen (gets (\<lambda>s. (clock s (tick s), row_of da_account_id_hex to_hex (deposit_accounts s),
         numeric_of_text s amount, billing_outbox s, outbox_next_id s))) (\<lambda>(now, account, numeric, os, i).
       case (account, numeric) of
         (_, None) \<Rightarrow> fail PDatabase
       | (None, Some n) \<Rightarrow> ok ()
       | (Some a, Some n) \<Rightarrow>
           andthen (modify (outbox_next_id_update (\<lambda>i. i + 1))) (\<lambda>_.
             if row_of ob_transaction_id txid os \<noteq> None then ok ()
             else modify (billing_outbox_update (\<lambda>os. os @
               [\<lparr>ob_id = i, ob_user_id = da_user_id a, ob_amount_plancks = n, ob_transaction_id = txid,
                 ob_attempts = 0, ob_claimed_at = None, ob_next_attempt_at = now, ob_dispatched_at = None\<rparr>])))))"

definition minutes :: "int \<Rightarrow> time" where
  "minutes n = n * 60 * 10 ^ 9"

definition seconds :: "int \<Rightarrow> time" where
  "seconds n = n * 10 ^ 9"

definition entry_ready :: "time \<Rightarrow> outbox_entry \<Rightarrow> bool" where
  "entry_ready now b = (ob_dispatched_at b = None \<and> ob_next_attempt_at b \<le> now \<and>
     (case ob_claimed_at b of None \<Rightarrow> True | Some c \<Rightarrow> c < now - minutes 5))"

text \<open>A claimed row as the dispatcher gets it.\<close>

record outbox_row =
  or_id :: int
  or_user_id :: string
  or_amount_plancks :: string
  or_transaction_id :: string
  or_attempts :: int

definition claim_batch :: "'b big_ops_scheme \<Rightarrow> nat \<Rightarrow> ('z, outbox_row list) pay_prog" where
  "claim_batch B limit =
     sql PDatabase (andthen (gets (\<lambda>s. (clock s (tick s), billing_outbox s))) (\<lambda>(now, os).
       let ids = take limit (map ob_id (sort_key ob_id (rows_where (entry_ready now) os)));
           claim = (\<lambda>b. b\<lparr>ob_claimed_at := Some now, ob_attempts := ob_attempts b + 1\<rparr>) in
       andthen (modify (billing_outbox_update (update_where (\<lambda>b. ob_id b \<in> set ids) claim))) (\<lambda>_.
         ok (map (\<lambda>b. \<lparr>or_id = ob_id b, or_user_id = ob_user_id b, or_amount_plancks = show_big B (ob_amount_plancks b),
                    or_transaction_id = ob_transaction_id b, or_attempts = ob_attempts b + 1\<rparr>)
               (rows_where (\<lambda>b. ob_id b \<in> set ids) os)))))"

definition mark_dispatched_tx :: "int \<Rightarrow> ('z, unit) pay_prog" where
  "mark_dispatched_tx i =
     sql PDatabase (andthen (gets (\<lambda>s. clock s (tick s))) (\<lambda>now.
       modify (billing_outbox_update (update_where (\<lambda>b. ob_id b = i) (\<lambda>b. b\<lparr>ob_dispatched_at := Some now\<rparr>)))))"

definition outbox_backoff :: "int \<Rightarrow> int \<Rightarrow> ('z, unit) pay_prog" where
  "outbox_backoff i secs =
     sql PDatabase (andthen (gets (\<lambda>s. clock s (tick s))) (\<lambda>now.
       modify (billing_outbox_update (update_where (\<lambda>b. ob_id b = i) (\<lambda>b.
         b\<lparr>ob_next_attempt_at := now + seconds secs\<rparr>)))))"

subsection \<open>The chain monitor's handler\<close>

definition handler_new :: "('z, unit) pay_prog" where
  "handler_new = andthen list_account_hexes (\<lambda>accounts. modify (known_accounts_update (\<lambda>_. set accounts)))"

definition refresh_known_accounts :: "('z, unit) pay_prog" where
  "refresh_known_accounts =
     andthen list_account_hexes (\<lambda>accounts. modify (known_accounts_update (\<lambda>_. set accounts)))"

definition event_index_i32 :: "nat \<Rightarrow> int" where
  "event_index_i32 n = sint (word_of_nat n :: 32 word)"

definition handle_transfer ::
  "string \<Rightarrow> string \<Rightarrow> string \<Rightarrow> 32 word \<Rightarrow> nat \<Rightarrow> ('z, unit) pay_prog" where
  "handle_transfer from_hex to_hex amount block_number event_index =
     andthen (gets known_accounts) (\<lambda>known.
       if to_hex \<notin> known then ok ()
       else
         let txid = make_txid (uint block_number) (int event_index) to_hex in
         andthen (attempt (transaction PDatabase PDatabase
           (andthen (insert_finalized_tx (uint block_number) (event_index_i32 event_index) to_hex from_hex amount) (\<lambda>_.
              enqueue_tx to_hex amount txid)))) (\<lambda>_. ok ()))"

definition on_block_end :: "32 word \<Rightarrow> ('z, unit) pay_prog" where
  "on_block_end block_number = (if unat block_number mod 128 = 0 then refresh_known_accounts else ok ())"

subsection \<open>The dispatcher\<close>

text \<open>\<open>BillingClient\<close> over gRPC: the call may be lost, refused, or carried out with its answer lost.\<close>

definition grpc_apply_credits :: "string \<Rightarrow> string \<Rightarrow> string \<Rightarrow> ('z, string) pay_prog" where
  "grpc_apply_credits user_id credits transaction_id s =
     (let n = tick s; s' = s\<lparr>tick := Suc n\<rparr>;
          done' = s'\<lparr>accepted_credits := accepted_credits s @ [(user_id, credits, transaction_id)]\<rparr> in
      case call_outcome s n of
        Lost \<Rightarrow> (Inl (PBillingService ''unavailable''), s')
      | Done \<Rightarrow> (case billing_reply s n of
                   None \<Rightarrow> (Inl (PBillingService ''rejected''), s')
                 | Some credit_id \<Rightarrow> (Inr credit_id, done'))
      | Unacked \<Rightarrow> (Inl (PBillingService ''unavailable''),
                    if billing_reply s n = None then s' else done'))"

definition backoff_secs :: "int \<Rightarrow> int" where
  "backoff_secs attempts = 2 ^ min 6 (unat (word_of_int attempts :: 32 word) - 1)"

definition try_backoff :: "outbox_row \<Rightarrow> ('z, unit) pay_prog" where
  "try_backoff r = andthen (attempt (outbox_backoff (or_id r) (backoff_secs (or_attempts r)))) (\<lambda>_. ok ())"

definition dispatch_row ::
  "(string \<Rightarrow> ('z, string) pay_prog) \<Rightarrow> (string \<Rightarrow> string \<Rightarrow> string \<Rightarrow> ('z, string) pay_prog) \<Rightarrow> outbox_row \<Rightarrow>
     ('z, unit) pay_prog" where
  "dispatch_row tao_to_credits apply_credits r =
     andthen (attempt (tao_to_credits (or_amount_plancks r))) (\<lambda>converted.
       case converted of
         Inl e \<Rightarrow> try_backoff r
       | Inr credits \<Rightarrow>
           andthen (attempt (apply_credits (or_user_id r) credits (or_transaction_id r))) (\<lambda>applied.
             case applied of
               Inl e \<Rightarrow> outbox_backoff (or_id r) (backoff_secs (or_attempts r))
             | Inr credit_id \<Rightarrow>
                 andthen (attempt (transaction PDatabase PDatabase
                   (andthen (mark_dispatched_tx (or_id r)) (\<lambda>_.
                      mark_credited_tx (or_transaction_id r) credit_id)))) (\<lambda>marked.
                   case marked of Inl e \<Rightarrow> try_backoff r | Inr _ \<Rightarrow> ok ())))"

text \<open>One pass of the loop of \<open>run\<close>; an empty batch only sleeps.\<close>

definition dispatch_round ::
  "'b big_ops_scheme \<Rightarrow> (string \<Rightarrow> ('z, string) pay_prog) \<Rightarrow> (string \<Rightarrow> string \<Rightarrow> string \<Rightarrow> ('z, string) pay_prog) \<Rightarrow>
     ('z, unit) pay_prog" where
  "dispatch_round B tao_to_credits apply_credits =
     andthen (claim_batch B 100) (\<lambda>rows. for_each (dispatch_row tao_to_credits apply_credits) rows)"

subsection \<open>Amounts\<close>

fun split_dot :: "string \<Rightarrow> (string \<times> string) option" where
  "split_dot [] = None"
| "split_dot (c # s) = (if c = CHR ''.'' then Some ([], s) else map_option (\<lambda>(a, b). (c # a, b)) (split_dot s))"

definition clamp_precision :: "string \<Rightarrow> nat \<Rightarrow> string" where
  "clamp_precision s max_decimals =
     (case split_dot s of
        None \<Rightarrow> s
      | Some (whole, decimals) \<Rightarrow>
          if max_decimals < length decimals then whole @ ''.'' @ take max_decimals decimals else s)"

text \<open>What \<open>PriceOracle::get_tao_usd_price\<close> returns, when it returns; the oracle itself is in theory
  \<open>Price_Oracle\<close>.\<close>

definition oracle_price :: "('z, rat) pay_prog" where
  "oracle_price s =
     (case price_feed s (tick s) of
        None \<Rightarrow> (Inl (PGeneral ''No price available''), s\<lparr>tick := Suc (tick s)\<rparr>)
      | Some p \<Rightarrow> (Inr p, s\<lparr>tick := Suc (tick s)\<rparr>))"

definition tao_to_credits ::
  "'b big_ops_scheme \<Rightarrow> nat \<Rightarrow> ('z, rat) pay_prog \<Rightarrow> string \<Rightarrow> ('z, string) pay_prog" where
  "tao_to_credits B decimals get_tao_usd_price tao_dec =
     andthen (ok_or (PPriceConversion tao_dec) (parse_big B tao_dec)) (\<lambda>amt.
     andthen get_tao_usd_price (\<lambda>tao_usd.
       ok (clamp_precision (show_big B (amt / 10 ^ decimals * tao_usd)) 6)))"

definition plancks_to_credits_with_rate ::
  "'b big_ops_scheme \<Rightarrow> nat \<Rightarrow> string \<Rightarrow> string \<Rightarrow> payments_error + string" where
  "plancks_to_credits_with_rate B decimals plancks_dec rate =
     (case (parse_big B plancks_dec, parse_big B rate) of
        (Some amt, Some tao_usd) \<Rightarrow> Inr (clamp_precision (show_big B (amt / 10 ^ decimals * tao_usd)) 6)
      | (None, _) \<Rightarrow> Inl (PPriceConversion plancks_dec)
      | (Some _, None) \<Rightarrow> Inl (PPriceConversion rate))"

subsection \<open>The gRPC service\<close>

definition generate_hotkey :: "('z, string \<times> string \<times> string \<times> string) pay_prog" where
  "generate_hotkey s =
     (case new_wallet s (tick s) of
        None \<Rightarrow> (Inl (PTreasury ''Failed to generate wallet''), s\<lparr>tick := Suc (tick s)\<rparr>)
      | Some w \<Rightarrow> (Inr w, s\<lparr>tick := Suc (tick s)\<rparr>))"

text \<open>The answers \<open>(user_id, address_ss58, hotkey_public)\<close> and \<open>(user_id, address_ss58, exists)\<close>.\<close>

definition create_deposit_account :: "string \<Rightarrow> ('z, string \<times> string \<times> string) pay_prog" where
  "create_deposit_account user_id =
     andthen (get_by_user user_id) (\<lambda>found.
       case found of
         Some (addr, _, pub_hex, _) \<Rightarrow> ok (user_id, addr, pub_hex)
       | None \<Rightarrow>
           andthen generate_hotkey (\<lambda>(addr, acct_hex, pub_hex, mnemonic).
           andthen (gets (\<lambda>s. encrypt s mnemonic)) (\<lambda>ct.
           andthen (ok_or (PEncryption ''encrypt'') ct) (\<lambda>mnemonic_ct.
           andthen (transaction PDatabase PDatabase
             (insert_account_tx user_id addr acct_hex pub_hex mnemonic_ct)) (\<lambda>_.
             ok (user_id, addr, pub_hex))))))"

definition get_deposit_account :: "string \<Rightarrow> ('z, string \<times> string \<times> bool) pay_prog" where
  "get_deposit_account user_id =
     andthen (get_by_user user_id) (\<lambda>found.
       ok (case found of Some (addr, _, _, _) \<Rightarrow> (user_id, addr, True) | None \<Rightarrow> (user_id, '''', False)))"

record deposit_record =
  dr_tx_hash :: string
  dr_block_number :: "64 word"
  dr_event_index :: "32 word"
  dr_from_address :: string
  dr_to_address :: string
  dr_amount_plancks :: string
  dr_credited_credit_id :: string
  dr_status :: string
  dr_observed_at :: time
  dr_finalized_at :: time
  dr_credited_at :: "time option"

definition list_deposits ::
  "'b big_ops_scheme \<Rightarrow> string \<Rightarrow> 32 word \<Rightarrow> 32 word \<Rightarrow> ('z, deposit_record list) pay_prog" where
  "list_deposits B user_id limit offset =
     andthen (list_by_user user_id (max (uint limit) 1) (uint offset)) (\<lambda>rows.
       ok (map (\<lambda>d. \<lparr>dr_tx_hash = make_txid (od_block_number d) (od_event_index d) (od_to d),
          dr_block_number = word_of_int (od_block_number d), dr_event_index = word_of_int (od_event_index d),
          dr_from_address = od_from d, dr_to_address = od_to d,
          dr_amount_plancks = show_big B (od_amount_plancks d),
          dr_credited_credit_id = unwrap_or (od_billing_credit_id d) '''', dr_status = od_status d,
          dr_observed_at = od_observed_at d, dr_finalized_at = od_observed_at d,
          dr_credited_at = od_credited_at d\<rparr>) rows))"

subsection \<open>Transfer identifiers\<close>

lemma digits_no: "is_digits ds \<Longrightarrow> c \<in> set ds \<Longrightarrow> c \<noteq> CHR ''#''"
  by (auto simp: is_digits_def list_all_iff)

lemma digits_then_hash:
  assumes "is_digits xs" "is_digits ys" "xs @ CHR ''#'' # as = ys @ CHR ''#'' # bs"
  shows "xs = ys \<and> as = bs"
proof -
  have "takeWhile (\<lambda>c. c \<noteq> CHR ''#'') (xs @ CHR ''#'' # as) = xs" "takeWhile (\<lambda>c. c \<noteq> CHR ''#'') (ys @ CHR ''#'' # bs) = ys"
    using digits_no [OF assms(1)] digits_no [OF assms(2)] by (simp_all add: takeWhile_tail)
  with assms(3) show ?thesis by (metis append_same_eq same_append_eq list.inject)
qed

lemma dec_digits_inj: "dec_digits m = dec_digits n \<Longrightarrow> m = n"
  by (metis digits_value_digits)

lemma show_int_nat: "0 \<le> i \<Longrightarrow> show_int i = dec_digits (nat i)"
  by (simp add: show_int_def)

lemma make_txid_inj:
  assumes "make_txid b i t = make_txid b' i' t'" "0 \<le> b" "0 \<le> i" "0 \<le> b'" "0 \<le> i'"
  shows "b = b' \<and> i = i' \<and> t = t'"
proof -
  have digits: "is_digits (dec_digits n)" for n using digits_value_digits [of n] by blast
  have "dec_digits (nat b) @ CHR ''#'' # CHR ''e'' # dec_digits (nat i) @ CHR ''#'' # t =
      dec_digits (nat b') @ CHR ''#'' # CHR ''e'' # dec_digits (nat i') @ CHR ''#'' # t'"
    using assms by (simp add: make_txid_def show_int_nat)
  from digits_then_hash [OF digits digits this]
  have "dec_digits (nat b) = dec_digits (nat b')"
    and rest: "dec_digits (nat i) @ CHR ''#'' # t = dec_digits (nat i') @ CHR ''#'' # t'" by auto
  with digits_then_hash [OF digits digits rest] show ?thesis
    using dec_digits_inj [of "nat b" "nat b'"] dec_digits_inj [of "nat i" "nat i'"] assms by auto
qed

subsection \<open>The ledger of deposits\<close>

type_synonym chain = "int \<Rightarrow> int \<Rightarrow> string \<times> string \<times> string"

abbreviation deposit_key :: "observed_deposit \<Rightarrow> int \<times> int" where
  "deposit_key d \<equiv> (od_block_number d, od_event_index d)"

definition deposit_txid :: "observed_deposit \<Rightarrow> string" where
  "deposit_txid d = make_txid (od_block_number d) (od_event_index d) (od_to d)"

definition owns :: "deposit_account list \<Rightarrow> string \<Rightarrow> string \<Rightarrow> bool" where
  "owns as user hex \<longleftrightarrow> (\<exists>a\<in>set as. da_user_id a = user \<and> da_account_id_hex a = hex)"

definition linked :: "deposit_account list \<Rightarrow> observed_deposit \<Rightarrow> outbox_entry \<Rightarrow> bool" where
  "linked as d b \<longleftrightarrow> ob_transaction_id b = deposit_txid d \<and> ob_amount_plancks b = od_amount_plancks d \<and>
     owns as (ob_user_id b) (od_to d)"

definition from_chain :: "chain \<Rightarrow> (string \<Rightarrow> rat option) \<Rightarrow> observed_deposit \<Rightarrow> bool" where
  "from_chain chain num d \<longleftrightarrow> 0 \<le> od_block_number d \<and> 0 \<le> od_event_index d \<and>
     (\<exists>amount. chain (od_block_number d) (od_event_index d) = (od_from d, od_to d, amount) \<and>
        num amount = Some (od_amount_plancks d))"

definition ledger_ok ::
  "chain \<Rightarrow> (string \<Rightarrow> rat option) \<Rightarrow> deposit_account list \<Rightarrow> observed_deposit list \<Rightarrow> outbox_entry list \<Rightarrow> int \<Rightarrow>
     (string \<times> string \<times> string) list \<Rightarrow> bool" where
  "ledger_ok chain num as ds bs next acc \<longleftrightarrow>
     unique_key da_user_id as \<and> unique_key da_account_id_hex as \<and> unique_key deposit_key ds \<and>
     unique_key ob_id bs \<and> unique_key ob_transaction_id bs \<and> (\<forall>b\<in>set bs. ob_id b < next) \<and>
     (\<forall>d\<in>set ds. from_chain chain num d) \<and>
     (\<forall>d\<in>set ds. \<exists>b\<in>set bs. linked as d b \<and> (od_status d = ''CREDITED'' \<longrightarrow> ob_dispatched_at b \<noteq> None)) \<and>
     (\<forall>b\<in>set bs. \<exists>d\<in>set ds. linked as d b) \<and>
     (\<forall>b\<in>set bs. ob_dispatched_at b \<noteq> None \<longrightarrow> (\<exists>c. (ob_user_id b, c, ob_transaction_id b) \<in> set acc))"

definition pay_ok :: "chain \<Rightarrow> 'z payments_db_scheme \<Rightarrow> bool" where
  "pay_ok chain s \<longleftrightarrow> ledger_ok chain (numeric_of_text s) (deposit_accounts s) (observed_deposits s) (billing_outbox s)
     (outbox_next_id s) (accepted_credits s)"

lemma tickless_pay_ok [simp, intro]: "tickless (pay_ok chain)"
  by (simp add: tickless_def pay_ok_def)

lemma pay_ok_tick [simp]: "pay_ok chain (s\<lparr>tick := n\<rparr>) = pay_ok chain s"
  by (simp add: pay_ok_def)

lemma deposit_txid_inj:
  "from_chain chain num d \<Longrightarrow> from_chain chain num d' \<Longrightarrow> deposit_txid d = deposit_txid d' \<Longrightarrow> deposit_key d = deposit_key d'"
  unfolding deposit_txid_def from_chain_def by (blast dest: make_txid_inj)

lemma owns_mono: "owns as u h \<Longrightarrow> set as \<subseteq> set as' \<Longrightarrow> owns as' u h"
  by (auto simp: owns_def)

lemma linked_mono: "linked as d b \<Longrightarrow> set as \<subseteq> set as' \<Longrightarrow> linked as' d b"
  by (auto simp: linked_def owns_mono)

lemma ledger_forward:
  "ledger_ok chain num as ds bs next acc \<Longrightarrow> d \<in> set ds \<Longrightarrow>
     \<exists>b\<in>set bs. linked as d b \<and> (od_status d = ''CREDITED'' \<longrightarrow> ob_dispatched_at b \<noteq> None)"
  by (simp add: ledger_ok_def)

lemma ledger_backward:
  "ledger_ok chain num as ds bs next acc \<Longrightarrow> b \<in> set bs \<Longrightarrow> (\<exists>d\<in>set ds. linked as d b) \<and>
     (ob_dispatched_at b \<noteq> None \<longrightarrow> (\<exists>c. (ob_user_id b, c, ob_transaction_id b) \<in> set acc))"
  by (simp add: ledger_ok_def)

lemma ledger_account:
  assumes "ledger_ok chain num as ds bs next acc" "row_of da_user_id (da_user_id a) as = None"
    and "row_of da_account_id_hex (da_account_id_hex a) as = None"
  shows "ledger_ok chain num (as @ [a]) ds bs next acc"
proof -
  have "linked (as @ [a]) d b" if "linked as d b" for d b
    using that by (rule linked_mono) auto
  with assms show ?thesis
    unfolding ledger_ok_def by (simp add: unique_key_snoc) blast
qed

lemma ledger_next: "ledger_ok chain num as ds bs next acc \<Longrightarrow> next \<le> next' \<Longrightarrow> ledger_ok chain num as ds bs next' acc"
  unfolding ledger_ok_def by (meson less_le_trans)

lemma ledger_accept: "ledger_ok chain num as ds bs next acc \<Longrightarrow> set acc \<subseteq> set acc' \<Longrightarrow> ledger_ok chain num as ds bs next acc'"
  unfolding ledger_ok_def by (meson subsetD)

lemma ledger_deposit:
  assumes ok: "ledger_ok chain num as ds bs next acc"
    and d: "from_chain chain num d" "row_of deposit_key (deposit_key d) ds = None" "od_status d \<noteq> ''CREDITED''"
    and b: "linked as d b" "ob_id b = next" "ob_dispatched_at b = None"
  shows "ledger_ok chain num as (ds @ [d]) (bs @ [b]) (next + 1) acc"
proof -
  have "row_of ob_transaction_id (ob_transaction_id b) bs = None"
  proof (rule ccontr)
    assume "row_of ob_transaction_id (ob_transaction_id b) bs \<noteq> None"
    then obtain b' where b': "b' \<in> set bs" "ob_transaction_id b' = ob_transaction_id b"
      using row_of_Some [of ob_transaction_id] by blast
    then obtain d' where d': "d' \<in> set ds" "linked as d' b'" "from_chain chain num d'"
      using ok unfolding ledger_ok_def by blast
    have "deposit_txid d' = deposit_txid d" using b' b(1) d'(2) by (simp add: linked_def)
    from deposit_txid_inj [OF d'(3) d(1) this] have "deposit_key d \<in> deposit_key ` set ds"
      using imageI [OF d'(1), of deposit_key] by simp
    with d(2) show False unfolding row_of_None by blast
  qed
  moreover have "row_of ob_id (ob_id b) bs = None"
    using ok b(2) by (auto simp: ledger_ok_def row_of_None)
  ultimately have "unique_key ob_transaction_id (bs @ [b])" "unique_key ob_id (bs @ [b])" "unique_key deposit_key (ds @ [d])"
    using ok d(2) by (simp_all add: unique_key_snoc ledger_ok_def)
  moreover have "\<forall>x\<in>set (bs @ [b]). ob_id x < next + 1" using ok b(2) by (auto simp: ledger_ok_def)
  moreover have "\<forall>x\<in>set (ds @ [d]). from_chain chain num x" using ok d(1) by (auto simp: ledger_ok_def)
  moreover have "\<forall>x\<in>set (ds @ [d]). \<exists>y\<in>set (bs @ [b]). linked as x y \<and>
      (od_status x = ''CREDITED'' \<longrightarrow> ob_dispatched_at y \<noteq> None)"
    using ok b(1) d(3) unfolding ledger_ok_def set_append list.set by blast
  moreover have "\<forall>y\<in>set (bs @ [b]). \<exists>x\<in>set (ds @ [d]). linked as x y"
    using ok b(1) unfolding ledger_ok_def set_append list.set by blast
  moreover have "\<forall>y\<in>set (bs @ [b]). ob_dispatched_at y \<noteq> None \<longrightarrow> (\<exists>c. (ob_user_id y, c, ob_transaction_id y) \<in> set acc)"
    using ok b(3) by (auto simp: ledger_ok_def)
  ultimately show ?thesis using ok unfolding ledger_ok_def by blast
qed

text \<open>Changes of an outbox entry that leave alone what it is for.\<close>

definition same_entry :: "outbox_entry \<Rightarrow> outbox_entry \<Rightarrow> bool" where
  "same_entry b b' \<longleftrightarrow> ob_id b' = ob_id b \<and> ob_user_id b' = ob_user_id b \<and> ob_amount_plancks b' = ob_amount_plancks b \<and>
     ob_transaction_id b' = ob_transaction_id b"

lemma linked_same: "same_entry b b' \<Longrightarrow> linked as d b' = linked as d b"
  by (auto simp: linked_def same_entry_def)

lemma ledger_entry:
  assumes ok: "ledger_ok chain num as ds bs next acc"
    and f: "\<And>b. same_entry b (f b)" "\<And>b. ob_dispatched_at (f b) = ob_dispatched_at b"
  shows "ledger_ok chain num as ds (update_where p f bs) next acc"
proof -
  let ?g = "\<lambda>b. if p b then f b else b"
  have g: "same_entry b (?g b)" "ob_dispatched_at (?g b) = ob_dispatched_at b" for b
    using f by (auto simp: same_entry_def)
  have keys: "ob_id (?g b) = ob_id b" "ob_transaction_id (?g b) = ob_transaction_id b" "ob_user_id (?g b) = ob_user_id b" for b
    using g(1) [of b] by (simp_all add: same_entry_def)
  have uniq: "unique_key ob_id (update_where p f bs) = unique_key ob_id bs"
    "unique_key ob_transaction_id (update_where p f bs) = unique_key ob_transaction_id bs"
    using f(1) by (simp_all add: same_entry_def)
  show ?thesis
    using ok unfolding ledger_ok_def uniq
    by (simp only: set_update_where ball_simps bex_simps keys g(2) linked_same [OF g(1)]) blast
qed

lemma ledger_credit:
  assumes ok: "ledger_ok chain num as ds bs next acc"
    and b: "b \<in> set bs" "ob_id b = i" "ob_transaction_id b = x" "(ob_user_id b, c, x) \<in> set acc"
    and g: "\<And>d. od_to (g d) = od_to d \<and> deposit_key (g d) = deposit_key d \<and> od_from (g d) = od_from d \<and>
        od_amount_plancks (g d) = od_amount_plancks d"
  shows "ledger_ok chain num as (update_where (\<lambda>d. deposit_txid d = x) g ds)
    (update_where (\<lambda>b. ob_id b = i) (\<lambda>b. b\<lparr>ob_dispatched_at := Some now\<rparr>) bs) next acc"
proof -
  let ?f = "\<lambda>b. if ob_id b = i then b\<lparr>ob_dispatched_at := Some now\<rparr> else b"
  let ?h = "\<lambda>d. if deposit_txid d = x then g d else d"
  have keyf: "ob_id (?f b) = ob_id b" "ob_transaction_id (?f b) = ob_transaction_id b" "ob_user_id (?f b) = ob_user_id b"
    "linked as d (?f b) = linked as d b" for b d
    by (simp_all add: linked_def)
  have keyh: "linked as (?h d) b' = linked as d b'" "from_chain chain num (?h d) = from_chain chain num d"
    "deposit_key (?h d) = deposit_key d" for d b'
    using g [of d] by (auto simp: linked_def deposit_txid_def from_chain_def)
  have unique: "b' = b" if "b' \<in> set bs" "ob_id b' = i \<or> ob_transaction_id b' = x" for b'
    using ok b that unique_key_row_of [of ob_id bs] unique_key_row_of [of ob_transaction_id bs]
    unfolding ledger_ok_def by (metis option.inject)
  have uniq: "unique_key ob_id (update_where (\<lambda>b. ob_id b = i) (\<lambda>b. b\<lparr>ob_dispatched_at := Some now\<rparr>) bs) = unique_key ob_id bs"
    "unique_key ob_transaction_id (update_where (\<lambda>b. ob_id b = i) (\<lambda>b. b\<lparr>ob_dispatched_at := Some now\<rparr>) bs) =
       unique_key ob_transaction_id bs"
    "unique_key deposit_key (update_where (\<lambda>d. deposit_txid d = x) g ds) = unique_key deposit_key ds"
    using g by simp_all
  have pending: "od_status (?h d) = ''CREDITED'' \<longrightarrow> ob_dispatched_at (?f b') \<noteq> None"
    if "b' \<in> set bs" "linked as d b'" "od_status d = ''CREDITED'' \<longrightarrow> ob_dispatched_at b' \<noteq> None" for d b'
    using that unique [of b'] b by (auto simp: linked_def)
  have acc: "\<exists>c. (ob_user_id b', c, ob_transaction_id b') \<in> set acc"
    if "b' \<in> set bs" "ob_dispatched_at (?f b') \<noteq> None" for b'
    using ok b that unique [of b'] unfolding ledger_ok_def by (auto split: if_splits)
  show ?thesis
    using ok unfolding ledger_ok_def uniq
    by (simp only: set_update_where ball_simps bex_simps keyf keyh) (use pending acc in blast)
qed

subsection \<open>The operations keep the ledger\<close>

lemma transaction_cases:
  assumes "transaction e e' body s = (r, t)"
  obtains n where "t = s\<lparr>tick := n\<rparr>"
  | x u n where "body (s\<lparr>tick := Suc (tick s)\<rparr>) = (Inr x, u)" "t = u\<lparr>tick := n\<rparr>"
  using assms
  by (auto simp: transaction_def Let_def split: if_splits prod.splits sum.splits outcome.splits)

lemma keeps_by_transaction:
  assumes "tickless I" "\<And>s x t. I s \<Longrightarrow> body s = (Inr x, t) \<Longrightarrow> I t"
  shows "keeps I (transaction e e' body)"
proof (rule keepsI)
  fix s r t
  assume "I s" "transaction e e' body s = (r, t)"
  then show "I t"
    using assms(2) [of "s\<lparr>tick := Suc (tick s)\<rparr>"]
    by (elim transaction_cases) (simp_all add: ticklessD [OF assms(1)])
qed

lemma row_of_mem: "x \<in> set rs \<Longrightarrow> row_of k (k x) rs \<noteq> None"
  by (auto simp: row_of_None)

lemma insert_finalized_run:
  assumes "insert_finalized_tx b i to_hex from_hex amount s = (Inr u, t)"
  obtains n m where "numeric_of_text s amount = Some n"
      "row_of deposit_key (b, i) (observed_deposits s) \<noteq> None" "t = s\<lparr>tick := m\<rparr>"
  | n m d where "numeric_of_text s amount = Some n"
      "row_of deposit_key (b, i) (observed_deposits s) = None"
      "row_of da_account_id_hex to_hex (deposit_accounts s) \<noteq> None"
      "deposit_key d = (b, i)" "od_to d = to_hex" "od_from d = from_hex" "od_amount_plancks d = n" "od_status d = ''FINALIZED''"
      "t = observed_deposits_update (\<lambda>ds. ds @ [d]) (s\<lparr>tick := m\<rparr>)"
proof -
  let ?s = "s\<lparr>tick := Suc (tick s)\<rparr>"
  let ?d = "\<lparr>od_block_number = b, od_event_index = i, od_to = to_hex, od_from = from_hex,
      od_amount_plancks = the (numeric_of_text s amount), od_status = ''FINALIZED'', od_observed_at = clock ?s (tick ?s),
      od_credited_at = None, od_billing_credit_id = None\<rparr>"
  note run = sql_InrD [OF assms [unfolded insert_finalized_tx_def]]
  show ?thesis
  proof (cases "row_of deposit_key (b, i) (observed_deposits s) = None")
    case True
    with run that(2) [of _ ?d "Suc (tick s)"] show ?thesis by (auto split: option.splits if_splits)
  next
    case False
    with run that(1) show ?thesis by (auto split: option.splits)
  qed
qed

lemma enqueue_run:
  assumes "enqueue_tx to_hex amount txid s = (Inr u, t)"
    and "numeric_of_text s amount = Some n" "row_of da_account_id_hex to_hex (deposit_accounts s) = Some a"
  obtains m where "row_of ob_transaction_id txid (billing_outbox s) \<noteq> None"
      "t = outbox_next_id_update (\<lambda>i. i + 1) (s\<lparr>tick := m\<rparr>)"
  | m b where "row_of ob_transaction_id txid (billing_outbox s) = None"
      "ob_id b = outbox_next_id s" "ob_user_id b = da_user_id a" "ob_amount_plancks b = n" "ob_transaction_id b = txid"
      "ob_dispatched_at b = None"
      "t = billing_outbox_update (\<lambda>bs. bs @ [b]) (outbox_next_id_update (\<lambda>i. i + 1) (s\<lparr>tick := m\<rparr>))"
proof -
  let ?s = "s\<lparr>tick := Suc (tick s)\<rparr>"
  let ?b = "\<lparr>ob_id = outbox_next_id s, ob_user_id = da_user_id a, ob_amount_plancks = n, ob_transaction_id = txid,
      ob_attempts = 0, ob_claimed_at = None, ob_next_attempt_at = clock ?s (tick ?s), ob_dispatched_at = None\<rparr>"
  note run = sql_InrD [OF assms(1) [unfolded enqueue_tx_def]]
  show ?thesis
  proof (cases "row_of ob_transaction_id txid (billing_outbox s) = None")
    case True
    with run assms(2,3) that(2) [of ?b "Suc (tick s)"] show ?thesis by auto
  next
    case False
    with run assms(2,3) that(1) [of "Suc (tick s)"] show ?thesis by auto
  qed
qed

definition chain_event :: "chain \<Rightarrow> string \<Rightarrow> string \<Rightarrow> string \<Rightarrow> 32 word \<Rightarrow> nat \<Rightarrow> bool" where
  "chain_event chain from_hex to_hex amount block idx \<longleftrightarrow>
     chain (uint block) (int idx) = (from_hex, to_hex, amount) \<and> idx < 2 ^ 31"

lemma event_index_small: "idx < 2 ^ 31 \<Longrightarrow> event_index_i32 idx = int idx"
  by (simp add: event_index_i32_def signed_of_nat signed_take_bit_int_eq_self)

lemma recorded_ok:
  assumes ok: "pay_ok chain s" and ev: "chain_event chain from_hex to_hex amount block idx"
    and run: "andthen (insert_finalized_tx (uint block) (event_index_i32 idx) to_hex from_hex amount) (\<lambda>_.
         enqueue_tx to_hex amount (make_txid (uint block) (int idx) to_hex)) s = (Inr u, t)"
  shows "pay_ok chain t"
proof -
  let ?x = "make_txid (uint block) (int idx) to_hex"
  have chain: "chain (uint block) (int idx) = (from_hex, to_hex, amount)" and idx: "event_index_i32 idx = int idx"
    using ev event_index_small by (auto simp: chain_event_def)
  obtain v s1 where first: "insert_finalized_tx (uint block) (int idx) to_hex from_hex amount s = (Inr v, s1)"
      and second: "enqueue_tx to_hex amount ?x s1 = (Inr u, t)"
    using run unfolding idx by (rule andthen_InrE)
  from first show ?thesis
  proof (cases rule: insert_finalized_run)
    case (1 n m)
    then obtain d where d: "d \<in> set (observed_deposits s)" "deposit_key d = (uint block, int idx)"
      using row_of_Some [of deposit_key] by blast
    then obtain b where b: "b \<in> set (billing_outbox s)" "linked (deposit_accounts s) d b" "from_chain chain (numeric_of_text s) d"
      using ok unfolding pay_ok_def ledger_ok_def by blast
    with d chain have x: "od_to d = to_hex" "ob_transaction_id b = ?x"
      by (auto simp: from_chain_def linked_def deposit_txid_def)
    obtain a' where "a' \<in> set (deposit_accounts s)" "da_account_id_hex a' = to_hex"
      using b(2) x(1) by (auto simp: linked_def owns_def)
    then obtain a where a: "row_of da_account_id_hex to_hex (deposit_accounts s) = Some a"
      using row_of_mem [of a' "deposit_accounts s" da_account_id_hex] by auto
    have in_outbox: "row_of ob_transaction_id ?x (billing_outbox s) \<noteq> None"
      using row_of_mem [OF b(1), of ob_transaction_id] x(2) by simp
    have "numeric_of_text s1 amount = Some n" "row_of da_account_id_hex to_hex (deposit_accounts s1) = Some a"
      using 1 a by simp_all
    with second show ?thesis
    proof (cases rule: enqueue_run)
      case (1 m')
      with ok \<open>s1 = s\<lparr>tick := m\<rparr>\<close> show ?thesis by (simp add: pay_ok_def ledger_next)
    next
      case (2 m' b')
      with in_outbox \<open>s1 = s\<lparr>tick := m\<rparr>\<close> show ?thesis by simp
    qed
  next
    case (2 n m d)
    then obtain a where a: "row_of da_account_id_hex to_hex (deposit_accounts s) = Some a" by blast
    have owns: "owns (deposit_accounts s) (da_user_id a) to_hex"
      using row_of_Some [OF a] by (auto simp: owns_def)
    have key: "deposit_key d = (uint block, int idx)" by fact
    have fc: "from_chain chain (numeric_of_text s) d"
      using 2 chain by (auto simp: from_chain_def)
    have txid: "deposit_txid d = ?x" using key \<open>od_to d = to_hex\<close> by (simp add: deposit_txid_def)
    have "numeric_of_text s1 amount = Some n" "row_of da_account_id_hex to_hex (deposit_accounts s1) = Some a"
      using 2 a by simp_all
    with second show ?thesis
    proof (cases rule: enqueue_run)
      case (1 m')
      then obtain b where b: "b \<in> set (billing_outbox s)" "ob_transaction_id b = ?x"
        using 2 row_of_Some [of ob_transaction_id ?x "billing_outbox s"] by auto
      then obtain d' where d': "d' \<in> set (observed_deposits s)" "linked (deposit_accounts s) d' b" "from_chain chain (numeric_of_text s) d'"
        using ok unfolding pay_ok_def ledger_ok_def by blast
      have "deposit_txid d' = deposit_txid d" using d'(2) b(2) txid by (simp add: linked_def)
      from deposit_txid_inj [OF d'(3) fc this] have "deposit_key d' = (uint block, int idx)" using key by simp
      with row_of_mem [OF d'(1), of deposit_key] 2(2) show ?thesis by simp
    next
      case (2 m' b)
      note rows = \<open>s1 = observed_deposits_update (\<lambda>ds. ds @ [d]) (s\<lparr>tick := m\<rparr>)\<close>
      have "linked (deposit_accounts s) d b"
        using 2 owns txid \<open>od_to d = to_hex\<close> \<open>od_amount_plancks d = n\<close> by (simp add: linked_def)
      with ok fc key \<open>row_of deposit_key (uint block, int idx) (observed_deposits s) = None\<close> \<open>od_status d = ''FINALIZED''\<close> 2
      have "ledger_ok chain (numeric_of_text s) (deposit_accounts s) (observed_deposits s @ [d]) (billing_outbox s @ [b])
          (outbox_next_id s + 1) (accepted_credits s)"
        by (intro ledger_deposit) (simp_all add: pay_ok_def rows)
      with 2 show ?thesis by (simp add: pay_ok_def rows)
    qed
  qed
qed

lemma keeps_known_update: "keeps (pay_ok chain) (modify (known_accounts_update f))"
  by (rule keepsI) (auto simp: pay_ok_def)

lemma keeps_list_hexes: "keeps (pay_ok chain) list_account_hexes"
  unfolding list_account_hexes_def by (intro keeps_rules tickless_pay_ok)

lemma keeps_refresh_known: "keeps (pay_ok chain) refresh_known_accounts"
  unfolding refresh_known_accounts_def by (intro keeps_andthen keeps_list_hexes keeps_known_update)

lemma keeps_handler_new: "keeps (pay_ok chain) handler_new"
  unfolding handler_new_def by (intro keeps_andthen keeps_list_hexes keeps_known_update)

lemma keeps_block_end: "keeps (pay_ok chain) (on_block_end n)"
  unfolding on_block_end_def by (intro keeps_if keeps_refresh_known keeps_ok)

lemma keeps_transfer:
  assumes "chain_event chain from_hex to_hex amount block idx"
  shows "keeps (pay_ok chain) (handle_transfer from_hex to_hex amount block idx)"
  unfolding handle_transfer_def Let_def
  by (intro keeps_andthen keeps_gets keeps_if keeps_ok keeps_attempt keeps_by_transaction tickless_pay_ok)
     (rule recorded_ok [OF _ assms])

lemma insert_account_ok:
  assumes "pay_ok chain s" "insert_account_tx u a h p c s = (Inr x, t)"
  shows "pay_ok chain t"
  using assms(1) sql_InrD [OF assms(2) [unfolded insert_account_tx_def]]
  by (auto simp: pay_ok_def ledger_account split: if_splits)

lemma keeps_generate_hotkey: "keeps (pay_ok chain) generate_hotkey"
  by (rule keepsI) (auto simp: generate_hotkey_def split: option.splits)

lemma keeps_create_account: "keeps (pay_ok chain) (create_deposit_account u)"
  unfolding create_deposit_account_def get_by_user_def
  by (intro keeps_andthen keeps_sql keeps_gets keeps_case_option keeps_case_prod keeps_ok keeps_ok_or
      keeps_by_transaction tickless_pay_ok keeps_generate_hotkey) (rule insert_account_ok)

subsection \<open>The dispatcher's clients\<close>

text \<open>The tables, without the log of accepted credits.\<close>

definition pay_tables where
  "pay_tables s = (deposit_accounts s, observed_deposits s, billing_outbox s, outbox_next_id s, numeric_of_text s)"

definition row_known :: "outbox_row \<Rightarrow> 'z payments_db_scheme \<Rightarrow> bool" where
  "row_known r s \<longleftrightarrow> (\<exists>b\<in>set (billing_outbox s). ob_id b = or_id r \<and> ob_user_id b = or_user_id r \<and>
     ob_transaction_id b = or_transaction_id r)"

definition rows_ok :: "chain \<Rightarrow> outbox_row list \<Rightarrow> 'z payments_db_scheme \<Rightarrow> bool" where
  "rows_ok chain rows s \<longleftrightarrow> pay_ok chain s \<and> (\<forall>r\<in>set rows. row_known r s)"

lemma tickless_rows_ok [simp, intro]: "tickless (rows_ok chain rows)"
  by (simp add: tickless_def rows_ok_def row_known_def)

lemma row_known_update:
  "(\<And>b. same_entry b (f b)) \<Longrightarrow> billing_outbox t = update_where p f (billing_outbox s) \<Longrightarrow> row_known r s \<Longrightarrow> row_known r t"
proof -
  assume same: "\<And>b. same_entry b (f b)" and t: "billing_outbox t = update_where p f (billing_outbox s)" and "row_known r s"
  then obtain b where b: "b \<in> set (billing_outbox s)" "ob_id b = or_id r" "ob_user_id b = or_user_id r"
      "ob_transaction_id b = or_transaction_id r"
    by (auto simp: row_known_def)
  let ?b = "if p b then f b else b"
  have "?b \<in> set (billing_outbox t)" using b(1) unfolding t set_update_where by (rule imageI)
  moreover have "ob_id ?b = or_id r" "ob_user_id ?b = or_user_id r" "ob_transaction_id ?b = or_transaction_id r"
    using b same [of b] by (auto simp: same_entry_def)
  ultimately show ?thesis unfolding row_known_def by blast
qed

lemma rows_ok_tables:
  "rows_ok chain rows s \<Longrightarrow> pay_tables t = pay_tables s \<Longrightarrow> set (accepted_credits s) \<subseteq> set (accepted_credits t) \<Longrightarrow>
     rows_ok chain rows t"
  by (auto simp: rows_ok_def pay_ok_def row_known_def pay_tables_def intro: ledger_accept)

locale dispatch_clients =
  fixes convert :: "string \<Rightarrow> ('z, string) pay_prog" and apply_credits :: "string \<Rightarrow> string \<Rightarrow> string \<Rightarrow> ('z, string) pay_prog"
  assumes convert_tables:
      "convert x s = (r, t) \<Longrightarrow> pay_tables t = pay_tables s \<and> accepted_credits t = accepted_credits s"
    and apply_tables:
      "apply_credits u c x s = (r, t) \<Longrightarrow> pay_tables t = pay_tables s \<and> set (accepted_credits s) \<subseteq> set (accepted_credits t)"
    and apply_accepted: "apply_credits u c x s = (Inr i, t) \<Longrightarrow> (u, c, x) \<in> set (accepted_credits t)"
begin

lemma backoff_keeps: "keeps (rows_ok chain rows) (outbox_backoff i secs :: ('z, unit) pay_prog)"
proof -
  have "rows_ok chain rows (billing_outbox_update (update_where (\<lambda>b. ob_id b = i) (\<lambda>b. b\<lparr>ob_next_attempt_at := n\<rparr>)) s)"
    if "rows_ok chain rows s" for n and s :: "'z payments_db_scheme"
  proof -
    have same: "same_entry b (b\<lparr>ob_next_attempt_at := n\<rparr>)" for b by (simp add: same_entry_def)
    show ?thesis
      using that by (auto simp: rows_ok_def pay_ok_def same intro!: ledger_entry intro: row_known_update [OF same])
  qed
  then have "keeps (rows_ok chain rows)
      (modify (billing_outbox_update (update_where (\<lambda>b. ob_id b = i) (\<lambda>b. b\<lparr>ob_next_attempt_at := n\<rparr>))) :: ('z, unit) pay_prog)" for n
    by (intro keepsI) auto
  then show ?thesis
    unfolding outbox_backoff_def by (intro keeps_sql keeps_andthen keeps_gets tickless_rows_ok)
qed

lemma try_backoff_keeps: "keeps (rows_ok chain rows) (try_backoff r :: ('z, unit) pay_prog)"
  unfolding try_backoff_def by (intro keeps_andthen keeps_attempt backoff_keeps keeps_ok)

text \<open>Marking an entry whose credits were accepted.\<close>

lemma mark_keeps:
  assumes "rows_ok chain rows s" "r \<in> set rows" "(or_user_id r, c, or_transaction_id r) \<in> set (accepted_credits s)"
    and run: "transaction PDatabase PDatabase (andthen (mark_dispatched_tx (or_id r)) (\<lambda>_.
        mark_credited_tx (or_transaction_id r) credit_id)) s = (x, t)"
  shows "rows_ok chain rows (t :: 'z payments_db_scheme)"
  using run
proof (cases rule: transaction_cases)
  case (1 n)
  with assms(1) show ?thesis by (simp add: rows_ok_def row_known_def)
next
  case (2 y u n)
  let ?x = "or_transaction_id r" and ?i = "or_id r"
  obtain now s1 where s1: "s1 = billing_outbox_update (update_where (\<lambda>b. ob_id b = ?i) (\<lambda>b. b\<lparr>ob_dispatched_at := Some now\<rparr>)) (s\<lparr>tick := Suc (Suc (tick s))\<rparr>)"
      and rest: "mark_credited_tx ?x credit_id s1 = (Inr y, u)"
    using 2(1) by (auto elim!: andthen_InrE simp: mark_dispatched_tx_def dest!: sql_InrD)
  let ?g = "\<lambda>now' d. d\<lparr>od_status := ''CREDITED'', od_credited_at := Some now', od_billing_credit_id := Some credit_id\<rparr>"
  obtain now' m where u: "u = observed_deposits_update (update_where (\<lambda>d. deposit_txid d = ?x) (?g now')) (s1\<lparr>tick := m\<rparr>)"
    using rest by (auto simp: mark_credited_tx_def deposit_txid_def dest!: sql_InrD)
  have same: "same_entry b (b\<lparr>ob_dispatched_at := Some now\<rparr>)" for b by (simp add: same_entry_def)
  obtain b where b: "b \<in> set (billing_outbox s)" "ob_id b = ?i" "ob_user_id b = or_user_id r" "ob_transaction_id b = ?x"
    using assms(1,2) by (auto simp: rows_ok_def row_known_def)
  have "ledger_ok chain (numeric_of_text s) (deposit_accounts s) (update_where (\<lambda>d. deposit_txid d = ?x) (?g now') (observed_deposits s))
      (update_where (\<lambda>b. ob_id b = ?i) (\<lambda>b. b\<lparr>ob_dispatched_at := Some now\<rparr>) (billing_outbox s)) (outbox_next_id s) (accepted_credits s)"
    using assms(1,3) b by (intro ledger_credit [where b = b and c = c]) (auto simp: rows_ok_def pay_ok_def)
  then have "pay_ok chain t" by (simp add: 2(2) u s1 pay_ok_def)
  moreover have "row_known q t" if "q \<in> set rows" for q
    using that assms(1) row_known_update [OF same, of t] by (auto simp: rows_ok_def 2(2) u s1)
  ultimately show ?thesis by (simp add: rows_ok_def)
qed

lemma dispatch_row_keeps:
  assumes "r \<in> set rows"
  shows "keeps (rows_ok chain rows) (dispatch_row convert apply_credits r)"
proof (rule keepsI)
  fix s x t
  assume inv: "rows_ok chain rows s" and run: "dispatch_row convert apply_credits r s = (x, t)"
  obtain y s1 where conv: "convert (or_amount_plancks r) s = (y, s1)" by (meson prod.exhaust_sel)
  have inv1: "rows_ok chain rows s1"
    using rows_ok_tables [OF inv, of s1] convert_tables [OF conv] by simp
  show "rows_ok chain rows t"
  proof (cases y)
    case (Inl e)
    with run conv have "try_backoff r s1 = (x, t)" by (simp add: dispatch_row_def andthen_def attempt_def)
    then show ?thesis by (rule keepsD [OF try_backoff_keeps inv1])
  next
    case (Inr c)
    obtain z s2 where app: "apply_credits (or_user_id r) c (or_transaction_id r) s1 = (z, s2)" by (meson prod.exhaust_sel)
    have inv2: "rows_ok chain rows s2" using rows_ok_tables [OF inv1, of s2] apply_tables [OF app] by simp
    show ?thesis
    proof (cases z)
      case Inl': (Inl e)
      with run conv Inr app have "outbox_backoff (or_id r) (backoff_secs (or_attempts r)) s2 = (x, t)"
        by (simp add: dispatch_row_def andthen_def attempt_def)
      then show ?thesis by (rule keepsD [OF backoff_keeps inv2])
    next
      case Inr': (Inr credit_id)
      obtain w s3 where mark: "transaction PDatabase PDatabase (andthen (mark_dispatched_tx (or_id r)) (\<lambda>_.
          mark_credited_tx (or_transaction_id r) credit_id)) s2 = (w, s3)" by (meson prod.exhaust_sel)
      have inv3: "rows_ok chain rows s3"
        by (rule mark_keeps [OF inv2 assms apply_accepted mark]) (use app Inr' in simp)
      show ?thesis
      proof (cases w)
        case Inl'': (Inl e)
        with run conv Inr app Inr' mark have "try_backoff r s3 = (x, t)"
          by (simp add: dispatch_row_def andthen_def attempt_def)
        then show ?thesis by (rule keepsD [OF try_backoff_keeps inv3])
      next
        case Inr'': (Inr v)
        with run conv Inr app Inr' mark inv3 show ?thesis by (simp add: dispatch_row_def andthen_def attempt_def)
      qed
    qed
  qed
qed

lemma dispatch_round_keeps: "keeps (pay_ok chain) (dispatch_round B convert apply_credits)"
proof (rule keepsI)
  fix s x t
  assume inv: "pay_ok chain s" and run: "dispatch_round B convert apply_credits s = (x, t)"
  obtain y s1 where claim: "claim_batch B 100 s = (y, s1)" by (meson prod.exhaust_sel)
  have same: "same_entry b (b\<lparr>ob_claimed_at := c, ob_attempts := a\<rparr>)" for b c a by (simp add: same_entry_def)
  have claimed: "pay_ok chain s1 \<and> (\<forall>rows. y = Inr rows \<longrightarrow> rows_ok chain rows s1)"
  proof -
    have upd: "pay_ok chain (billing_outbox_update (update_where p (\<lambda>b. b\<lparr>ob_claimed_at := c, ob_attempts := ob_attempts b + 1\<rparr>)) s')"
      if "pay_ok chain s'" for p c and s' :: "'z payments_db_scheme"
      using that by (auto simp: pay_ok_def same_entry_def intro!: ledger_entry)
    have known: "row_known \<lparr>or_id = ob_id b, or_user_id = ob_user_id b, or_amount_plancks = a, or_transaction_id = ob_transaction_id b,
          or_attempts = n\<rparr> (billing_outbox_update (update_where p (\<lambda>b. b\<lparr>ob_claimed_at := c, ob_attempts := ob_attempts b + 1\<rparr>)) s')"
      if "b \<in> set (billing_outbox s')" for b a n p c and s' :: "'z payments_db_scheme"
      by (rule row_known_update [where s = s' and f = "\<lambda>b. b\<lparr>ob_claimed_at := c, ob_attempts := ob_attempts b + 1\<rparr>" and p = p])
         (use that in \<open>auto simp: same row_known_def\<close>)
    show ?thesis
      using claim inv upd [of "s\<lparr>tick := Suc (tick s)\<rparr>"] known [of _ "s\<lparr>tick := Suc (tick s)\<rparr>"]
      by (auto simp: claim_batch_def sql_def Let_def rows_ok_def rows_where_def split: outcome.splits)
  qed
  show "pay_ok chain t"
  proof (cases y)
    case (Inl e)
    with run claim claimed show ?thesis by (simp add: dispatch_round_def andthen_def)
  next
    case (Inr rows)
    with run claim have rest: "for_each (dispatch_row convert apply_credits) rows s1 = (x, t)"
      by (simp add: dispatch_round_def andthen_def)
    have "keeps (rows_ok chain rows) (for_each (dispatch_row convert apply_credits) rows)"
      by (rule keeps_for_each_in) (rule dispatch_row_keeps)
    from keepsD [OF this _ rest] claimed Inr show ?thesis by (simp add: rows_ok_def)
  qed
qed

end

interpretation grpc_clients: dispatch_clients "tao_to_credits B d oracle_price" grpc_apply_credits for B d
proof (unfold_locales, goal_cases)
  case (1 x s r t)
  then show ?case
    by (auto simp: tao_to_credits_def andthen_def oracle_price_def ok_or_def pay_tables_def split: option.splits prod.splits sum.splits)
next
  case (2 u c x s r t)
  then show ?case
    by (auto simp: grpc_apply_credits_def Let_def pay_tables_def split: option.splits outcome.splits if_splits)
next
  case (3 u c x s i t)
  then show ?case
    by (auto simp: grpc_apply_credits_def Let_def split: option.splits outcome.splits if_splits)
qed

subsection \<open>Histories\<close>

datatype pay_call =
    CTransfer string string string "32 word" nat
  | CBlockEnd "32 word"
  | CHandlerStart
  | CRound
  | CCreateAccount string

fun pay_exec :: "'b big_ops_scheme \<Rightarrow> nat \<Rightarrow> pay_call \<Rightarrow> ('z, unit) pay_prog" where
  "pay_exec B decimals (CTransfer from_hex to_hex amount block idx) = handle_transfer from_hex to_hex amount block idx"
| "pay_exec B decimals (CBlockEnd block) = on_block_end block"
| "pay_exec B decimals CHandlerStart = handler_new"
| "pay_exec B decimals CRound = dispatch_round B (tao_to_credits B decimals oracle_price) grpc_apply_credits"
| "pay_exec B decimals (CCreateAccount u) = andthen (create_deposit_account u) (\<lambda>_. ok ())"

inductive pay_history ::
  "'b big_ops_scheme \<Rightarrow> nat \<Rightarrow> 'z payments_db_scheme \<Rightarrow> pay_call list \<Rightarrow> 'z payments_db_scheme \<Rightarrow> bool"
  for B decimals s where
  pay_start: "pay_history B decimals s [] s"
| pay_step: "pay_history B decimals s cs t \<Longrightarrow> pay_exec B decimals c t = (r, t') \<Longrightarrow> pay_history B decimals s (cs @ [c]) t'"

text \<open>The transfers reported are those of one chain.\<close>

fun on_chain :: "chain \<Rightarrow> pay_call \<Rightarrow> bool" where
  "on_chain chain (CTransfer from_hex to_hex amount block idx) = chain_event chain from_hex to_hex amount block idx"
| "on_chain chain _ = True"

lemma pay_exec_keeps: "on_chain chain c \<Longrightarrow> keeps (pay_ok chain) (pay_exec B decimals c)"
  by (cases c)
     (auto simp: keeps_block_end keeps_handler_new grpc_clients.dispatch_round_keeps
       intro: keeps_transfer keeps_andthen keeps_create_account keeps_ok simp del: ok_run)

lemma pay_history_ok:
  assumes "pay_history B decimals s cs t" "pay_ok chain s" "list_all (on_chain chain) cs"
  shows "pay_ok chain t"
  using assms
proof induction
  case pay_start
  then show ?case by simp
next
  case (pay_step cs t c r t')
  then have inv: "pay_ok chain t" and c: "on_chain chain c" by simp_all
  show ?case by (rule keepsD [OF pay_exec_keeps [OF c] inv pay_step.hyps(2)])
qed


definition demo_pay_db :: payments_db where
  "demo_pay_db =
     \<lparr>tick = 0, clock = (\<lambda>n. seconds (int n)), uuid_src = (\<lambda>n. n), db_outcome = (\<lambda>_. Done),
      deposit_accounts = [\<lparr>da_user_id = ''alice'', da_address_ss58 = ''5F'', da_account_id_hex = ''aa'', da_hotkey_public_hex = ''aa'',
        da_hotkey_mnemonic_ct = ''ct''\<rparr>],
      observed_deposits = [], billing_outbox = [], outbox_next_id = 1, known_accounts = {''aa''}, accepted_credits = [],
      numeric_of_text = (\<lambda>x. if x = ''7'' then Some 7 else None), new_wallet = (\<lambda>_. Some (''5G'', ''bb'', ''bb'', ''words'')),
      encrypt = Some, call_outcome = (\<lambda>_. Done), price_feed = (\<lambda>_. Some 300), billing_reply = (\<lambda>_. Some ''credit'')\<rparr>"

definition demo_chain :: chain where
  "demo_chain b i = (''ff'', ''aa'', ''7'')"

definition demo_big :: big_ops where
  "demo_big = \<lparr>parse_big = parse_rat, show_big = show_rat\<rparr>"

lemma demo_pay_ok: "pay_ok demo_chain demo_pay_db"
  by (simp add: pay_ok_def ledger_ok_def demo_pay_db_def unique_key_def)

lemma demo_transfer:
  "observed_deposits (snd (pay_exec demo_big 9 (CTransfer ''ff'' ''aa'' ''7'' 5 2) demo_pay_db)) =
     [\<lparr>od_block_number = 5, od_event_index = 2, od_to = ''aa'', od_from = ''ff'', od_amount_plancks = 7,
       od_status = ''FINALIZED'', od_observed_at = seconds 2, od_credited_at = None, od_billing_credit_id = None\<rparr>]"
  by (simp add: handle_transfer_def demo_pay_db_def transaction_def insert_finalized_tx_def enqueue_tx_def sql_def
      andthen_def attempt_def Let_def event_index_i32_def)


subsection \<open>Retries\<close>

text \<open>The pause before a retry is between one second and 64 seconds for every value of the counter, and doubles
  from each of the first six attempts to the next.\<close>

lemma backoff_bounds:
  "1 \<le> backoff_secs n \<and> backoff_secs n \<le> 64 \<and> (1 \<le> n \<and> n < 7 \<longrightarrow> backoff_secs (n + 1) = 2 * backoff_secs n)"
proof -
  have "(2::int) ^ min 6 k \<le> 2 ^ 6" for k :: nat by (intro power_increasing) simp_all
  moreover have "backoff_secs (n + 1) = 2 * backoff_secs n" if "1 \<le> n" "n < 7"
  proof -
    have small: "unat (word_of_int m :: 32 word) = nat m" if "0 \<le> m" "m \<le> 7" for m
      using that by (simp add: unsigned_of_int take_bit_int_eq_self)
    have words: "unat (word_of_int (n + 1) :: 32 word) = nat (n + 1)" "unat (word_of_int n :: 32 word) = nat n"
      by (rule small; use that in simp)+
    have "min 6 (nat (n + 1) - 1) = Suc (min 6 (nat n - 1))" using that by (simp add: min_def) linarith
    then show ?thesis unfolding backoff_secs_def words by (simp only: power_Suc)
  qed
  ultimately show ?thesis by (simp add: backoff_secs_def)
qed

lemma backoff_entries:
  assumes "outbox_backoff i secs s = (r, t)" "b \<in> set (billing_outbox s)"
  shows "\<exists>b'\<in>set (billing_outbox t). ob_id b' = ob_id b \<and> ob_claimed_at b' = ob_claimed_at b"
proof -
  have "\<exists>b'\<in>set (update_where (\<lambda>b. ob_id b = i) (\<lambda>b. b\<lparr>ob_next_attempt_at := n\<rparr>) (billing_outbox s)).
      ob_id b' = ob_id b \<and> ob_claimed_at b' = ob_claimed_at b" for n
    using assms(2) unfolding set_update_where
    by (intro bexI [OF _ imageI [OF assms(2)]]) auto
  with assms show ?thesis
    by (auto simp: outbox_backoff_def sql_def split: outcome.splits)
qed

lemma claim_needs_ready:
  assumes "claim_batch B n s = (Inr rows, t)" "r \<in> set rows" "unique_key ob_id (billing_outbox s)"
    and "b \<in> set (billing_outbox s)" "ob_id b = or_id r"
  shows "entry_ready (clock s (Suc (tick s))) b"
proof -
  let ?now = "clock s (Suc (tick s))"
  have "or_id r \<in> set (take n (map ob_id (sort_key ob_id (filter (entry_ready ?now) (billing_outbox s)))))"
    using sql_InrD [OF assms(1) [unfolded claim_batch_def]] assms(2) by (auto simp: Let_def rows_where_def)
  then obtain q where "q \<in> set (billing_outbox s)" "entry_ready ?now q" "ob_id q = or_id r"
    using set_take_subset by fastforce
  moreover have "q = b"
    using unique_key_row_of [OF assms(3) \<open>q \<in> _\<close>] unique_key_row_of [OF assms(3,4)] assms(5) calculation(3) by simp
  ultimately show ?thesis by simp
qed

text \<open>A retry never happens within five minutes of the claim, however short the pause that \<open>backoff\<close> was given: it
  moves \<open>next_attempt_at\<close> and leaves \<open>claimed_at\<close>, and the claim asks for both.\<close>

theorem backoff_keeps_claim:
  assumes "b \<in> set (billing_outbox s)" "ob_claimed_at b = Some c" "outbox_backoff (ob_id b) secs s = (x, t)"
    and "unique_key ob_id (billing_outbox t)" "clock t (Suc (tick t)) \<le> c + minutes 5"
    and "claim_batch B n t = (Inr rows, u)"
  shows "\<forall>r\<in>set rows. or_id r \<noteq> ob_id b"
proof
  fix r
  assume r: "r \<in> set rows"
  obtain b' where b': "b' \<in> set (billing_outbox t)" "ob_id b' = ob_id b" "ob_claimed_at b' = Some c"
    using backoff_entries [OF assms(3,1)] assms(2) by auto
  show "or_id r \<noteq> ob_id b"
  proof
    assume "or_id r = ob_id b"
    with claim_needs_ready [OF assms(6) r assms(4) b'(1)] b' assms(5) show False by (simp add: entry_ready_def)
  qed
qed

definition demo_entry :: outbox_entry where
  "demo_entry = \<lparr>ob_id = 2, ob_user_id = ''alice'', ob_amount_plancks = 7, ob_transaction_id = ''b5#e2#aa'', ob_attempts = 1,
     ob_claimed_at = Some 0, ob_next_attempt_at = 0, ob_dispatched_at = None\<rparr>"

theorem backoff_keeps_claim_witness:
  "fst (claim_batch demo_big 100 (snd (outbox_backoff 2 1 (demo_pay_db\<lparr>billing_outbox := [demo_entry]\<rparr>)))) = Inr []"
proof -
  let ?s = "demo_pay_db\<lparr>billing_outbox := [demo_entry]\<rparr>"
  let ?t = "snd (outbox_backoff 2 1 ?s)"
  have t: "?t = demo_pay_db\<lparr>tick := 1, billing_outbox := [demo_entry\<lparr>ob_next_attempt_at := seconds 2\<rparr>]\<rparr>"
    by (simp add: outbox_backoff_def sql_def demo_pay_db_def demo_entry_def seconds_def)
  obtain rows u where run: "claim_batch demo_big 100 ?t = (Inr rows, u)" "\<forall>r\<in>set rows. or_id r = 2"
    unfolding t by (simp add: claim_batch_def sql_def demo_pay_db_def Let_def rows_where_def demo_entry_def)
  have "\<forall>r\<in>set rows. or_id r \<noteq> ob_id demo_entry"
  proof (rule backoff_keeps_claim [of demo_entry ?s 0 1 "fst (outbox_backoff 2 1 ?s)" ?t demo_big 100 rows u])
    show "outbox_backoff (ob_id demo_entry) 1 ?s = (fst (outbox_backoff 2 1 ?s), ?t)" by (simp add: demo_entry_def)
  qed (use run(1) in \<open>simp_all add: t\<close>, simp_all add: demo_entry_def demo_pay_db_def unique_key_def minutes_def seconds_def)
  with run(2) have "rows = []" by (cases rows) (auto simp: demo_entry_def)
  with run(1) show ?thesis by simp
qed

subsection \<open>Deposits that are not recorded\<close>

lemma transfer_other:
  assumes "handle_transfer from_hex to_hex amount block idx s = (r, t)" "hex \<notin> known_accounts s"
    and "\<forall>d\<in>set (observed_deposits s). od_to d \<noteq> hex"
  shows "known_accounts t = known_accounts s \<and> (\<forall>d\<in>set (observed_deposits t). od_to d \<noteq> hex)"
proof -
  let ?I = "\<lambda>u. known_accounts u = known_accounts s \<and> (\<forall>d\<in>set (observed_deposits u). od_to d \<noteq> hex)"
  have "?I t" if known: "to_hex \<in> known_accounts s"
  proof -
    have neq: "to_hex \<noteq> hex" using known assms(2) by blast
    have ins: "?I v" if "?I u" "insert_finalized_tx b i to_hex from_hex amount u = (x, v)" for b i u x v
      using that neq by (auto simp: insert_finalized_tx_def sql_def split: outcome.splits option.splits if_splits)
    have enq: "?I v" if "?I u" "enqueue_tx to_hex amount y u = (x, v)" for u x v y
      using that by (auto simp: enqueue_tx_def sql_def split: outcome.splits option.splits if_splits)
    have "keeps ?I (transaction PDatabase PDatabase
        (andthen (insert_finalized_tx (uint block) (event_index_i32 idx) to_hex from_hex amount) (\<lambda>_. enqueue_tx to_hex amount y)))" for y
      by (intro keeps_transaction keeps_andthen keepsI [OF ins] keepsI [OF enq]) (auto simp: tickless_def)
    then have "keeps ?I (handle_transfer from_hex to_hex amount block idx)"
      unfolding handle_transfer_def Let_def by (intro keeps_andthen keeps_gets keeps_if keeps_ok keeps_attempt)
    from keepsD [OF this _ assms(1)] assms(3) show ?thesis by blast
  qed
  moreover have "t = s" if "to_hex \<notin> known_accounts s"
    using assms(1) that by (simp add: handle_transfer_def)
  ultimately show ?thesis using assms(3) by blast
qed

definition deposit_view where
  "deposit_view s = (known_accounts s, map od_to (observed_deposits s))"

lemma tickless_deposit_view: "tickless deposit_view"
  by (simp add: tickless_def deposit_view_def)

lemma frames_modify: "(\<And>s. v (g s) = v s) \<Longrightarrow> frames v (modify g)"
  by (simp add: frames_def)

lemma deposit_view_entry: "frames deposit_view (modify (billing_outbox_update f))"
  by (rule frames_modify) (simp add: deposit_view_def)

lemma deposit_view_backoff: "frames deposit_view (outbox_backoff i secs)"
  unfolding outbox_backoff_def
  by (intro frames_sql frames_andthen frames_gets deposit_view_entry tickless_deposit_view)

lemma deposit_view_try_backoff: "frames deposit_view (try_backoff r)"
  unfolding try_backoff_def by (intro frames_andthen frames_attempt deposit_view_backoff frames_ok)

lemma deposit_view_mark: "frames deposit_view (andthen (mark_dispatched_tx i) (\<lambda>_. mark_credited_tx x c))"
proof -
  have "frames deposit_view (modify (observed_deposits_update (update_where p
      (\<lambda>d. d\<lparr>od_status := st, od_credited_at := n, od_billing_credit_id := i\<rparr>))))" for p st n i
    by (rule frames_modify) (simp add: deposit_view_def)
  then show ?thesis
    unfolding mark_dispatched_tx_def mark_credited_tx_def
    by (intro frames_andthen frames_sql frames_gets deposit_view_entry tickless_deposit_view)
qed

lemma deposit_view_convert: "frames deposit_view (tao_to_credits B d oracle_price x)"
proof -
  have "frames deposit_view oracle_price"
    by (rule framesI) (auto simp: oracle_price_def deposit_view_def split: option.splits)
  then show ?thesis
    unfolding tao_to_credits_def by (intro frames_andthen frames_ok_or frames_ok)
qed

lemma deposit_view_grpc: "frames deposit_view (grpc_apply_credits u c x)"
  by (rule framesI)
     (auto simp: grpc_apply_credits_def deposit_view_def Let_def split: option.splits outcome.splits if_splits)

lemma deposit_view_round: "frames deposit_view (dispatch_round B (tao_to_credits B d oracle_price) grpc_apply_credits)"
proof -
  have "frames deposit_view (claim_batch B n)" for n
    unfolding claim_batch_def Let_def
    by (intro frames_sql frames_andthen frames_gets frames_case_prod deposit_view_entry frames_ok tickless_deposit_view)
  moreover have "frames deposit_view (dispatch_row (tao_to_credits B d oracle_price) grpc_apply_credits r)" for r
    unfolding dispatch_row_def
    by (intro frames_andthen frames_attempt frames_case_sum deposit_view_convert deposit_view_grpc deposit_view_backoff
        deposit_view_try_backoff frames_transaction deposit_view_mark tickless_deposit_view frames_ok)
  ultimately show ?thesis
    unfolding dispatch_round_def by (intro frames_andthen frames_for_each)
qed

lemma deposit_view_account: "frames deposit_view (create_deposit_account u)"
proof -
  have "frames deposit_view (insert_account_tx u a h p c)" for a h p c
    unfolding insert_account_tx_def
    by (intro frames_sql frames_andthen frames_gets frames_if frames_fail frames_modify tickless_deposit_view)
       (simp add: deposit_view_def)
  moreover have "frames deposit_view generate_hotkey"
    by (rule framesI) (auto simp: generate_hotkey_def deposit_view_def split: option.splits)
  ultimately show ?thesis
    unfolding create_deposit_account_def get_by_user_def
    by (intro frames_andthen frames_sql frames_gets frames_case_option frames_case_prod frames_ok frames_ok_or
        frames_transaction tickless_deposit_view)
qed

fun no_refresh :: "pay_call \<Rightarrow> bool" where
  "no_refresh (CBlockEnd block) = (unat block mod 128 \<noteq> 0)"
| "no_refresh CHandlerStart = False"
| "no_refresh _ = True"

definition unnoticed :: "string \<Rightarrow> 'z payments_db_scheme \<Rightarrow> bool" where
  "unnoticed hex s \<longleftrightarrow> hex \<notin> known_accounts s \<and> (\<forall>d\<in>set (observed_deposits s). od_to d \<noteq> hex)"

lemma unnoticed_view: "deposit_view t = deposit_view s \<Longrightarrow> unnoticed hex t = unnoticed hex s"
proof -
  assume v: "deposit_view t = deposit_view s"
  have "unnoticed hex u \<longleftrightarrow> hex \<notin> fst (deposit_view u) \<and> hex \<notin> set (snd (deposit_view u))" for u
    by (auto simp: unnoticed_def deposit_view_def)
  from this [of t] this [of s] v show ?thesis by simp
qed

lemma unnoticed_step:
  assumes "unnoticed hex s" "no_refresh c" "pay_exec B d c s = (r, t)"
  shows "unnoticed hex t"
proof (cases c)
  case (CTransfer from_hex to_hex amount block idx)
  from transfer_other [OF assms(3) [unfolded CTransfer pay_exec.simps]] assms(1) show ?thesis
    unfolding unnoticed_def by blast
next
  case (CBlockEnd block)
  with assms show ?thesis by (simp add: on_block_end_def)
next
  case CHandlerStart
  with assms show ?thesis by simp
next
  case CRound
  have "deposit_view t = deposit_view s"
    by (rule framesD [OF deposit_view_round assms(3) [unfolded CRound pay_exec.simps]])
  from unnoticed_view [OF this] assms(1) show ?thesis by blast
next
  case (CCreateAccount u)
  have "frames deposit_view (andthen (create_deposit_account u) (\<lambda>_. ok ()))"
    by (intro frames_andthen deposit_view_account frames_ok)
  then have "deposit_view t = deposit_view s"
    by (rule framesD) (rule assms(3) [unfolded CCreateAccount pay_exec.simps])
  from unnoticed_view [OF this] assms(1) show ?thesis by blast
qed

lemma not_in_image: "\<forall>x\<in>S. f x \<noteq> y \<Longrightarrow> y \<notin> f ` S"
  by blast

text \<open>C27: a transfer to an account the monitor has not loaded is never recorded: until the handler is started again or a
  block whose number is a multiple of 128 ends, no deposit to it appears, whatever transfers the chain reports and
  although the account is in the table. Nothing reads those blocks again.\<close>

theorem new_account_deposits_ignored:
  assumes "pay_history B d s cs t" "list_all no_refresh cs" "hex \<notin> known_accounts s"
    and "\<forall>x\<in>set (observed_deposits s). od_to x \<noteq> hex"
  shows "\<forall>x\<in>set (observed_deposits t). od_to x \<noteq> hex"
proof -
  have "unnoticed hex t"
    using assms
  proof induction
    case pay_start
    then show ?case by (simp add: unnoticed_def)
  next
    case (pay_step cs t c r t')
    then have "unnoticed hex t" "no_refresh c" by simp_all
    then show ?case using pay_step.hyps(2) by (rule unnoticed_step)
  qed
  then show ?thesis by (simp add: unnoticed_def)
qed

theorem new_account_deposits_ignored_witness:
  "''bb'' \<notin> od_to ` set (observed_deposits (snd (pay_exec demo_big 9 (CTransfer ''ff'' ''bb'' ''7'' 5 2) demo_pay_db)))"
proof -
  let ?c = "CTransfer ''ff'' ''bb'' ''7'' 5 2"
  have hist: "pay_history demo_big 9 demo_pay_db ([] @ [?c]) (snd (pay_exec demo_big 9 ?c demo_pay_db))"
    by (rule pay_step [OF pay_start prod.collapse [symmetric]])
  have "\<forall>x\<in>set (observed_deposits (snd (pay_exec demo_big 9 ?c demo_pay_db))). od_to x \<noteq> ''bb''"
    by (rule new_account_deposits_ignored [OF hist]) (simp_all add: demo_pay_db_def)
  then show ?thesis by (rule not_in_image)
qed

text \<open>The amount is bound as a text. On a database that has no assignment cast from \<open>text\<close> to \<open>numeric\<close>, which is
  how PostgreSQL is delivered, no transfer is ever recorded: both statements fail and the handler reports success.\<close>

theorem text_amount_is_never_stored:
  assumes "numeric_of_text s = (\<lambda>_. None)" "handle_transfer from_hex to_hex amount block idx s = (r, t)"
  shows "r = Inr () \<and> observed_deposits t = observed_deposits s \<and> billing_outbox t = billing_outbox s"
proof -
  have fails: "insert_finalized_tx (uint block) (event_index_i32 idx) to_hex from_hex amount (s\<lparr>tick := Suc (tick s)\<rparr>) =
      (Inl PDatabase, s\<lparr>tick := Suc (Suc (tick s))\<rparr>)"
    using assms(1) by (auto simp: insert_finalized_tx_def sql_def split: outcome.splits)
  from assms(2) show ?thesis
    by (auto simp: handle_transfer_def Let_def andthen_def attempt_def transaction_def fails split: if_splits)
qed

theorem text_amount_is_never_stored_witness:
  "observed_deposits (snd (handle_transfer ''ff'' ''aa'' ''7'' 5 2 (demo_pay_db\<lparr>numeric_of_text := \<lambda>_. None\<rparr>))) = []"
  using text_amount_is_never_stored [of "demo_pay_db\<lparr>numeric_of_text := \<lambda>_. None\<rparr>", OF _ prod.collapse [symmetric]]
  by (simp add: demo_pay_db_def)

subsection \<open>The amount sent to billing\<close>

text \<open>The number a whole part and a fractional part stand for.\<close>

definition decimal_value :: "string \<Rightarrow> string \<Rightarrow> rat" where
  "decimal_value whole decimals = of_nat (digits_value whole) + of_nat (digits_value decimals) / 10 ^ length decimals"

definition all_digits :: "string \<Rightarrow> bool" where
  "all_digits s = list_all (\<lambda>c. 48 \<le> (of_char c :: nat) \<and> (of_char c :: nat) \<le> 57) s"

lemma split_dot_append: "CHR ''.'' \<notin> set w \<Longrightarrow> split_dot (w @ CHR ''.'' # d) = Some (w, d)"
  by (induction w) auto

lemma all_digits_no_dot: "all_digits s \<Longrightarrow> CHR ''.'' \<notin> set s"
  by (auto simp: all_digits_def list_all_iff)

lemma digits_value_append: "digits_value (a @ b) = digits_value a * 10 ^ length b + digits_value b"
proof (induction b rule: rev_induct)
  case (snoc c b)
  then show ?case by (simp add: digits_value_snoc algebra_simps flip: append_assoc)
qed (simp add: digits_value_def)

lemma digits_value_less: "all_digits s \<Longrightarrow> digits_value s < 10 ^ length s"
proof (induction s rule: rev_induct)
  case (snoc c s)
  then have "digits_value s < 10 ^ length s" "digit_value c \<le> 9"
    by (auto simp: all_digits_def digit_value_def)
  then show ?case by (simp add: digits_value_snoc)
qed (simp add: digits_value_def)

lemma decimal_value_take:
  assumes "all_digits d" "n \<le> length d"
  shows "decimal_value w (take n d) \<le> decimal_value w d" "decimal_value w d < decimal_value w (take n d) + 1 / 10 ^ n"
proof -
  let ?a = "digits_value (take n d)" and ?b = "digits_value (drop n d)" and ?m = "length d - n"
  have d: "digits_value d = ?a * 10 ^ ?m + ?b"
    using digits_value_append [of "take n d" "drop n d"] by simp
  have b: "?b < 10 ^ ?m"
    using digits_value_less [of "drop n d"] assms(1) by (auto simp: all_digits_def list_all_iff dest: in_set_dropD)
  have pow: "(10::rat) ^ length d = 10 ^ n * 10 ^ ?m"
    using assms(2) by (simp flip: power_add)
  have v: "decimal_value w d = decimal_value w (take n d) + of_nat ?b / 10 ^ length d"
    using assms(2) by (simp add: decimal_value_def d pow field_simps)
  have "(of_nat ?b :: rat) < of_nat (10 ^ ?m)" using b by (simp only: of_nat_less_iff)
  then have "of_nat ?b / (10::rat) ^ length d < 1 / 10 ^ n"
    by (simp add: pow field_simps)
  then show "decimal_value w d < decimal_value w (take n d) + 1 / 10 ^ n" by (simp add: v)
  show "decimal_value w (take n d) \<le> decimal_value w d" by (simp add: v)
qed

text \<open>Cutting an amount to a number of places keeps its whole part, leaves at most that many places, never rounds
  up, and loses less than one unit of the last place kept.\<close>

theorem clamp_precision_bounds:
  assumes "all_digits w" "all_digits d"
  shows "\<exists>d'. split_dot (clamp_precision (w @ ''.'' @ d) n) = Some (w, d') \<and> length d' \<le> n \<and>
    decimal_value w d' \<le> decimal_value w d \<and> decimal_value w d < decimal_value w d' + 1 / 10 ^ n"
proof (cases "n < length d")
  case True
  then show ?thesis
    using decimal_value_take [OF assms(2), of n w]
    by (auto simp: clamp_precision_def split_dot_append [OF all_digits_no_dot [OF assms(1)]])
next
  case False
  then show ?thesis
    by (auto simp: clamp_precision_def split_dot_append [OF all_digits_no_dot [OF assms(1)]])
qed

theorem clamp_precision_bounds_witness:
  "\<exists>d'. split_dot (clamp_precision ''12.3456789'' 6) = Some (''12'', d') \<and> length d' \<le> 6"
  using clamp_precision_bounds [of "''12''" "''3456789''" 6] by (auto simp: all_digits_def)

subsection \<open>Deposit accounts\<close>

text \<open>C25: asking for a deposit account twice gives the same address and key twice and makes one account.\<close>

theorem create_deposit_account_idempotent:
  assumes "reliable s" "create_deposit_account u s = (Inr r, t)"
  shows "\<exists>n. create_deposit_account u t = (Inr r, t\<lparr>tick := n\<rparr>)"
proof (cases "row_of da_user_id u (deposit_accounts s)")
  case None
  from assms obtain a h p m c where "t = (deposit_accounts_update (\<lambda>rs. rs @
      [\<lparr>da_user_id = u, da_address_ss58 = a, da_account_id_hex = h, da_hotkey_public_hex = p, da_hotkey_mnemonic_ct = c\<rparr>])
      s)\<lparr>tick := m\<rparr>" "r = (u, a, p)"
    using None
    by (auto simp: create_deposit_account_def get_by_user_def reliable_def sql_def generate_hotkey_def
        transaction_def insert_account_tx_def Let_def ok_or_def andthen_def split: option.splits if_splits)
  with None assms(1) show ?thesis
    by (auto simp: create_deposit_account_def get_by_user_def reliable_def sql_def andthen_def row_of_append)
next
  case (Some x)
  with assms show ?thesis
    by (auto simp: create_deposit_account_def get_by_user_def reliable_def sql_def andthen_def)
qed

theorem create_deposit_account_idempotent_witness:
  "\<exists>t n. create_deposit_account ''bob'' demo_pay_db = (Inr (''bob'', ''5G'', ''bb''), t) \<and>
     create_deposit_account ''bob'' t = (Inr (''bob'', ''5G'', ''bb''), t\<lparr>tick := n\<rparr>)"
proof -
  have rel: "reliable demo_pay_db" by (simp add: reliable_def demo_pay_db_def)
  obtain t where run: "create_deposit_account ''bob'' demo_pay_db = (Inr (''bob'', ''5G'', ''bb''), t)"
    by (simp add: create_deposit_account_def get_by_user_def demo_pay_db_def sql_def generate_hotkey_def
        transaction_def insert_account_tx_def Let_def andthen_def)
  from create_deposit_account_idempotent [OF rel run] run show ?thesis by blast
qed

subsection \<open>A credit that is applied twice\<close>

definition demo_retry_db :: payments_db where
  "demo_retry_db = demo_pay_db\<lparr>billing_outbox := [demo_entry\<lparr>ob_claimed_at := None\<rparr>],
     db_outcome := (\<lambda>n. if n = 6 then Lost else Done), clock := (\<lambda>n. minutes (6 * int n))\<rparr>"


end
