(* ===== verification/Price_Oracle.thy ===== *)
theory Price_Oracle
  imports Payments
begin

section \<open>The price oracle and its lock\<close>

text \<open>
  \<open>crates/basilica-payments/src/price_oracle/mod.rs\<close>. The tasks that use the oracle run concurrently and meet at one
  read-write lock, so the model is a step relation: a state has the cached price and one program counter per
  task, and a step moves one task from one \<open>await\<close> to the next. A counter names the point a task has reached and with it
  the guards the task holds: a lookup keeps its first read guard (\<open>cache\<close>, line 114) until it returns.

  The lock is tokio's; \<open>admits r w m\<close> says whether it grants mode \<open>m\<close> while \<open>r\<close> read guards are held and a writer waits or
  not (\<open>w\<close>). Locale \<open>rw_lock\<close> has what its documentation promises: writers exclude readers, a waiting writer holds back new
  readers, and a request that meets neither is granted. A write guard is dropped in the statement that takes it, so
  writing is one step. The reply of the price service is any \<open>api_reply\<close>; time passes between any two steps.

  Lemmas: every price that is returned or cached is positive and was reported by the service; while the cached price is
  fresh every call can finish; a lookup that has to fetch a price and gets one never returns and no price is ever
  cached again.
\<close>

subsection \<open>Fetching a price\<close>

datatype api_reply =
    SendFailed
  | Reply (reply_status: nat) (reply_usd: "string option")

definition fetch_price_from_api :: "'b big_ops_scheme \<Rightarrow> api_reply \<Rightarrow> string + rat" where
  "fetch_price_from_api B reply =
     (case reply of
        SendFailed \<Rightarrow> Inl ''Failed to fetch from CoinGecko''
      | Reply status usd \<Rightarrow>
          if status < 200 \<or> 300 \<le> status then Inl ''CoinGecko API returned status''
          else case usd of
                 None \<Rightarrow> Inl ''Failed to parse CoinGecko response''
               | Some price_str \<Rightarrow>
                   (case parse_big B price_str of
                      None \<Rightarrow> Inl ''Failed to parse price as BigDecimal''
                    | Some price \<Rightarrow> if price \<le> 0 then Inl ''Invalid TAO/USD price returned (<= 0)'' else Inr price))"

subsection \<open>Tasks\<close>

record cached_price =
  cp_price :: rat
  cp_timestamp :: time

definition cached_new :: "rat \<Rightarrow> time \<Rightarrow> cached_price" where
  "cached_new price now = \<lparr>cp_price = price, cp_timestamp = now\<rparr>"

definition is_stale :: "cached_price \<Rightarrow> time \<Rightarrow> time \<Rightarrow> bool" where
  "is_stale c max_age now = (max_age < now - cp_timestamp c)"

datatype lock_mode = ReadLock | WriteLock

text \<open>Where a task stands: a lookup before its first guard, with the guard in hand, fetching, waiting for the write
  lock (line 122) and for the second read guard (line 130); a refresh fetching and waiting for the write lock, and the
  background loop waiting for its next tick; a status request before its guard; and what a task returned.\<close>

datatype oracle_task =
    LookupStart
  | LookupCheck
  | LookupFetch
  | LookupWrite rat cached_price
  | LookupReread
  | RefreshFetch bool
  | RefreshWrite bool rat cached_price
  | RefreshTick
  | StatusStart
  | PriceDone "string + rat"
  | StatusDone "(rat \<times> time) option"

fun holds_read :: "oracle_task \<Rightarrow> bool" where
  "holds_read LookupCheck = True"
| "holds_read LookupFetch = True"
| "holds_read (LookupWrite p c) = True"
| "holds_read LookupReread = True"
| "holds_read _ = False"

fun wants_write :: "oracle_task \<Rightarrow> bool" where
  "wants_write (LookupWrite p c) = True"
| "wants_write (RefreshWrite b p c) = True"
| "wants_write _ = False"

record price_oracle =
  cached_price_lock :: "cached_price option"
  oracle_now :: time
  tasks :: "oracle_task list"

definition guards_held :: "price_oracle \<Rightarrow> nat" where
  "guards_held s = length (filter holds_read (tasks s))"

definition writer_waits :: "price_oracle \<Rightarrow> bool" where
  "writer_waits s = list_ex wants_write (tasks s)"

type_synonym lock_policy = "nat \<Rightarrow> bool \<Rightarrow> lock_mode \<Rightarrow> bool"

definition can_take :: "lock_policy \<Rightarrow> lock_mode \<Rightarrow> price_oracle \<Rightarrow> bool" where
  "can_take admits m s = admits (guards_held s) (writer_waits s) m"

definition moves :: "nat \<Rightarrow> oracle_task \<Rightarrow> oracle_task \<Rightarrow> price_oracle \<Rightarrow> price_oracle \<Rightarrow> bool" where
  "moves i p q s t = (i < length (tasks s) \<and> tasks s ! i = p \<and> t = s\<lparr>tasks := (tasks s)[i := q]\<rparr>)"

text \<open>The arms of the \<open>match\<close> in \<open>get_tao_usd_price\<close>, the fallback to a stale price, and what
  \<open>get_cache_status\<close> returns.\<close>

definition lookup_checked :: "time \<Rightarrow> price_oracle \<Rightarrow> oracle_task" where
  "lookup_checked max_age s =
     (case cached_price_lock s of
        Some cached \<Rightarrow>
          if \<not> is_stale cached max_age (oracle_now s) then PriceDone (Inr (cp_price cached)) else LookupFetch
      | None \<Rightarrow> LookupFetch)"

definition lookup_fetched :: "'b big_ops_scheme \<Rightarrow> api_reply \<Rightarrow> price_oracle \<Rightarrow> oracle_task" where
  "lookup_fetched B reply s =
     (case fetch_price_from_api B reply of
        Inr price \<Rightarrow> LookupWrite price (cached_new price (oracle_now s))
      | Inl e \<Rightarrow> LookupReread)"

definition lookup_stale :: "price_oracle \<Rightarrow> oracle_task" where
  "lookup_stale s =
     (case cached_price_lock s of
        Some cached \<Rightarrow> PriceDone (Inr (cp_price cached))
      | None \<Rightarrow> PriceDone (Inl ''No price available: API failed and no cached price''))"

definition refresh_done :: "bool \<Rightarrow> string + rat \<Rightarrow> oracle_task" where
  "refresh_done background r = (if background then RefreshTick else PriceDone r)"

definition refresh_fetched :: "'b big_ops_scheme \<Rightarrow> api_reply \<Rightarrow> bool \<Rightarrow> price_oracle \<Rightarrow> oracle_task" where
  "refresh_fetched B reply background s =
     (case fetch_price_from_api B reply of
        Inr price \<Rightarrow> RefreshWrite background price (cached_new price (oracle_now s))
      | Inl e \<Rightarrow> refresh_done background (Inl e))"

definition cache_status :: "price_oracle \<Rightarrow> (rat \<times> time) option" where
  "cache_status s = map_option (\<lambda>c. (cp_price c, oracle_now s - cp_timestamp c)) (cached_price_lock s)"

inductive oracle_step :: "'b big_ops_scheme \<Rightarrow> lock_policy \<Rightarrow> time \<Rightarrow> price_oracle \<Rightarrow> price_oracle \<Rightarrow> bool"
  for B admits max_age where
  call: "q \<in> {LookupStart, RefreshFetch False, RefreshTick, StatusStart} \<Longrightarrow> t = s\<lparr>tasks := tasks s @ [q]\<rparr> \<Longrightarrow>
      oracle_step B admits max_age s t"
| wait: "oracle_now s \<le> n \<Longrightarrow> t = s\<lparr>oracle_now := n\<rparr> \<Longrightarrow> oracle_step B admits max_age s t"
| lookup_read: "can_take admits ReadLock s \<Longrightarrow> moves i LookupStart LookupCheck s t \<Longrightarrow> oracle_step B admits max_age s t"
| lookup_check: "moves i LookupCheck (lookup_checked max_age s) s t \<Longrightarrow> oracle_step B admits max_age s t"
| lookup_fetch: "moves i LookupFetch (lookup_fetched B reply s) s t \<Longrightarrow> oracle_step B admits max_age s t"
| lookup_write: "can_take admits WriteLock s \<Longrightarrow> moves i (LookupWrite p c) (PriceDone (Inr p)) s u \<Longrightarrow>
      t = u\<lparr>cached_price_lock := Some c\<rparr> \<Longrightarrow> oracle_step B admits max_age s t"
| lookup_reread: "can_take admits ReadLock s \<Longrightarrow> moves i LookupReread (lookup_stale s) s t \<Longrightarrow>
      oracle_step B admits max_age s t"
| refresh_tick: "moves i RefreshTick (RefreshFetch True) s t \<Longrightarrow> oracle_step B admits max_age s t"
| refresh_fetch: "moves i (RefreshFetch b) (refresh_fetched B reply b s) s t \<Longrightarrow> oracle_step B admits max_age s t"
| refresh_write: "can_take admits WriteLock s \<Longrightarrow> moves i (RefreshWrite b p c) (refresh_done b (Inr p)) s u \<Longrightarrow>
      t = u\<lparr>cached_price_lock := Some c\<rparr> \<Longrightarrow> oracle_step B admits max_age s t"
| status_read: "can_take admits ReadLock s \<Longrightarrow> moves i StatusStart (StatusDone (cache_status s)) s t \<Longrightarrow>
      oracle_step B admits max_age s t"

abbreviation oracle_runs :: "'b big_ops_scheme \<Rightarrow> lock_policy \<Rightarrow> time \<Rightarrow> price_oracle \<Rightarrow> price_oracle \<Rightarrow> bool" where
  "oracle_runs B admits max_age \<equiv> (oracle_step B admits max_age)\<^sup>*\<^sup>*"

definition new_oracle :: "time \<Rightarrow> price_oracle" where
  "new_oracle now = \<lparr>cached_price_lock = None, oracle_now = now, tasks = []\<rparr>"

lemma movesE:
  assumes "moves i p q s t"
  obtains "i < length (tasks s)" "tasks s ! i = p" "tasks t = (tasks s)[i := q]"
    "cached_price_lock t = cached_price_lock s" "oracle_now t = oracle_now s"
  using assms by (auto simp: moves_def)

subsection \<open>Prices\<close>

text \<open>A price the service reported in some reply.\<close>

definition reported :: "'b big_ops_scheme \<Rightarrow> rat \<Rightarrow> bool" where
  "reported B p = (\<exists>reply. fetch_price_from_api B reply = Inr p)"

lemma fetched_positive: "fetch_price_from_api B reply = Inr p \<Longrightarrow> 0 < p"
  by (cases reply) (simp_all add: fetch_price_from_api_def split: if_split_asm option.split_asm)

lemma reported_positive: "reported B p \<Longrightarrow> 0 < p"
  by (auto simp: reported_def dest: fetched_positive)

fun task_prices :: "oracle_task \<Rightarrow> rat list" where
  "task_prices (LookupWrite p c) = [p, cp_price c]"
| "task_prices (RefreshWrite b p c) = [p, cp_price c]"
| "task_prices (PriceDone (Inr p)) = [p]"
| "task_prices (StatusDone (Some (p, d))) = [p]"
| "task_prices _ = []"

definition prices_ok :: "'b big_ops_scheme \<Rightarrow> price_oracle \<Rightarrow> bool" where
  "prices_ok B s = ((\<forall>c. cached_price_lock s = Some c \<longrightarrow> reported B (cp_price c)) \<and>
     (\<forall>x\<in>set (tasks s). \<forall>p\<in>set (task_prices x). reported B p))"

lemma prices_ok_moves:
  assumes "prices_ok B s" "moves i x q s t" "\<forall>p\<in>set (task_prices q). reported B p"
  shows "prices_ok B t"
  using assms by (auto simp: prices_ok_def moves_def dest!: set_update_subset_insert [THEN subsetD])

lemma prices_ok_store:
  "prices_ok B s \<Longrightarrow> reported B (cp_price c) \<Longrightarrow> prices_ok B (s\<lparr>cached_price_lock := Some c\<rparr>)"
  by (simp add: prices_ok_def)

lemma task_prices_checked: "prices_ok B s \<Longrightarrow> \<forall>p\<in>set (task_prices (lookup_checked max_age s)). reported B p"
  by (auto simp: prices_ok_def lookup_checked_def split: option.splits)

lemma task_prices_stale: "prices_ok B s \<Longrightarrow> \<forall>p\<in>set (task_prices (lookup_stale s)). reported B p"
  by (auto simp: prices_ok_def lookup_stale_def split: option.splits)

lemma task_prices_status: "prices_ok B s \<Longrightarrow> \<forall>p\<in>set (task_prices (StatusDone (cache_status s))). reported B p"
  by (cases "cached_price_lock s") (auto simp: prices_ok_def cache_status_def)

lemma task_prices_fetched: "\<forall>p\<in>set (task_prices (lookup_fetched B reply s)). reported B p"
  by (auto simp: lookup_fetched_def reported_def cached_new_def split: sum.splits)

lemma task_prices_refreshed: "\<forall>p\<in>set (task_prices (refresh_fetched B reply b s)). reported B p"
  by (auto simp: refresh_fetched_def refresh_done_def reported_def cached_new_def split: sum.splits)

lemma prices_ok_waiting:
  assumes "prices_ok B s" "moves i x q s t"
  shows "\<forall>p\<in>set (task_prices x). reported B p"
  using assms nth_mem by (fastforce simp: prices_ok_def moves_def)

lemma prices_ok_step:
  assumes "oracle_step B admits max_age s t" "prices_ok B s"
  shows "prices_ok B t"
  using assms
proof cases
  case (call q)
  with assms(2) show ?thesis by (auto simp: prices_ok_def)
next
  case (wait n)
  with assms(2) show ?thesis by (simp add: prices_ok_def)
next
  case (lookup_write i p c u)
  from prices_ok_waiting [OF assms(2) lookup_write(2)]
  have "reported B p" "reported B (cp_price c)" by simp_all
  with prices_ok_moves [OF assms(2) lookup_write(2)] lookup_write(3) show ?thesis by (simp add: prices_ok_store)
next
  case (refresh_write i b p c u)
  from prices_ok_waiting [OF assms(2) refresh_write(2)]
  have "reported B p" "reported B (cp_price c)" by simp_all
  with prices_ok_moves [OF assms(2) refresh_write(2)] refresh_write(3) show ?thesis
    by (simp add: prices_ok_store refresh_done_def)
next
  case (lookup_check i)
  from prices_ok_moves [OF assms(2) this task_prices_checked [OF assms(2)]] show ?thesis .
next
  case (lookup_fetch i reply)
  from prices_ok_moves [OF assms(2) this task_prices_fetched] show ?thesis .
next
  case (lookup_reread i)
  from prices_ok_moves [OF assms(2) this(2) task_prices_stale [OF assms(2)]] show ?thesis .
next
  case (refresh_fetch i b reply)
  from prices_ok_moves [OF assms(2) this task_prices_refreshed] show ?thesis .
next
  case (status_read i)
  from prices_ok_moves [OF assms(2) this(2) task_prices_status [OF assms(2)]] show ?thesis .
qed (auto elim!: prices_ok_moves)

lemma prices_ok_runs: "oracle_runs B admits max_age s t \<Longrightarrow> prices_ok B s \<Longrightarrow> prices_ok B t"
  by (induction rule: rtranclp_induct) (auto intro: prices_ok_step)

subsection \<open>The lock\<close>

fun idle :: "oracle_task \<Rightarrow> bool" where
  "idle RefreshTick = True"
| "idle (PriceDone r) = True"
| "idle (StatusDone r) = True"
| "idle _ = False"

fun before_fetch :: "oracle_task \<Rightarrow> bool" where
  "before_fetch LookupFetch = False"
| "before_fetch (LookupWrite p c) = False"
| "before_fetch LookupReread = False"
| "before_fetch _ = True"

definition busy_tasks :: "price_oracle \<Rightarrow> nat" where
  "busy_tasks s = length (filter (\<lambda>x. \<not> idle x) (tasks s))"

definition quiet :: "price_oracle \<Rightarrow> bool" where
  "quiet s = list_all (\<lambda>x. \<not> holds_read x) (tasks s)"

definition with_task :: "nat \<Rightarrow> oracle_task \<Rightarrow> price_oracle \<Rightarrow> price_oracle" where
  "with_task i q s = s\<lparr>tasks := (tasks s)[i := q]\<rparr>"

lemma moves_with_task: "i < length (tasks s) \<Longrightarrow> tasks s ! i = p \<Longrightarrow> moves i p q s (with_task i q s)"
  by (simp add: moves_def with_task_def)

lemma with_task_simps [simp]:
  "length (tasks (with_task i q s)) = length (tasks s)" "cached_price_lock (with_task i q s) = cached_price_lock s"
  "oracle_now (with_task i q s) = oracle_now s" "i < length (tasks s) \<Longrightarrow> tasks (with_task i q s) ! i = q"
  "with_task i r (with_task i q s) = with_task i r s"
  by (simp_all add: with_task_def)

lemma quiet_guards: "quiet s \<Longrightarrow> guards_held s = 0"
  by (auto simp: quiet_def guards_held_def list_all_iff filter_empty_conv)

lemma list_all_with: "list_all P xs \<Longrightarrow> P y \<Longrightarrow> list_all P (xs[i := y])"
  by (auto simp: list_all_iff dest!: set_update_subset_insert [THEN subsetD])

lemma quiet_with_task: "quiet s \<Longrightarrow> \<not> holds_read q \<Longrightarrow> quiet (with_task i q s)"
  by (simp add: quiet_def with_task_def list_all_with)

lemma writer_waits_with_task: "\<not> writer_waits s \<Longrightarrow> \<not> wants_write q \<Longrightarrow> \<not> writer_waits (with_task i q s)"
  by (auto simp: writer_waits_def with_task_def list_ex_iff dest!: set_update_subset_insert [THEN subsetD])

lemma length_filter_update:
  "i < length xs \<Longrightarrow> P (xs ! i) \<Longrightarrow> \<not> P y \<Longrightarrow> length (filter P (xs[i := y])) < length (filter P xs)"
proof (induction xs arbitrary: i)
  case (Cons x xs)
  then show ?case by (cases i) auto
qed simp

lemma busy_with_task:
  "i < length (tasks s) \<Longrightarrow> \<not> idle (tasks s ! i) \<Longrightarrow> idle q \<Longrightarrow> busy_tasks (with_task i q s) < busy_tasks s"
  by (simp add: busy_tasks_def with_task_def length_filter_update)

lemma idle_results [simp]: "idle (refresh_done b r)" "idle (lookup_stale s)"
  by (auto simp: refresh_done_def lookup_stale_def split: option.splits)

lemma idle_no_guard: "idle q \<Longrightarrow> \<not> holds_read q"
  by (cases q) auto

lemma lookup_checked_cases: "idle (lookup_checked max_age s) \<or> lookup_checked max_age s = LookupFetch"
  by (auto simp: lookup_checked_def split: option.splits)

locale rw_lock =
  fixes admits :: lock_policy
  assumes writers_exclude_readers: "admits r w WriteLock \<Longrightarrow> r = 0"
    and waiting_writer_first: "0 < r \<Longrightarrow> \<not> admits r True ReadLock"
    and read_granted: "admits r False ReadLock"
    and write_granted: "admits 0 w WriteLock"
begin

text \<open>A lookup that waits for the write lock holds a read guard itself.\<close>

lemma blocked_no_write: "i < length (tasks s) \<Longrightarrow> holds_read (tasks s ! i) \<Longrightarrow> \<not> can_take admits WriteLock s"
  using writers_exclude_readers [of "guards_held s"] nth_mem
  by (fastforce simp: can_take_def guards_held_def filter_empty_conv)

lemma blocked_no_read:
  assumes "i < length (tasks s)" "holds_read (tasks s ! i)" "j < length (tasks s)" "wants_write (tasks s ! j)"
  shows "\<not> can_take admits ReadLock s"
proof -
  have "0 < guards_held s" using assms(1,2) nth_mem by (fastforce simp: guards_held_def filter_empty_conv)
  moreover have "writer_waits s" using assms(3,4) by (auto simp: writer_waits_def list_ex_iff)
  ultimately show ?thesis using waiting_writer_first by (simp add: can_take_def)
qed

lemma moves_other: "moves j x q s t \<Longrightarrow> i < length (tasks s) \<Longrightarrow> tasks s ! i \<noteq> x \<Longrightarrow> tasks t ! i = tasks s ! i \<and>
    i < length (tasks t) \<and> cached_price_lock t = cached_price_lock s"
  by (auto simp: moves_def nth_list_update)

lemma lookup_write_blocked_step:
  assumes "oracle_step B admits max_age s t" "i < length (tasks s)" "tasks s ! i = LookupWrite p c"
  shows "i < length (tasks t) \<and> tasks t ! i = LookupWrite p c \<and> cached_price_lock t = cached_price_lock s"
proof -
  have no_write: "\<not> can_take admits WriteLock s" using assms(2,3) by (intro blocked_no_write [of i]) simp_all
  from assms(1) show ?thesis
  proof cases
    case (call q)
    with assms(2,3) show ?thesis by (simp add: nth_append)
  next
    case (wait n)
    with assms(2,3) show ?thesis by simp
  qed (use no_write assms(2,3) in \<open>auto dest: moves_other [where i = i]\<close>)
qed

lemma lookup_write_blocked:
  assumes "oracle_runs B admits max_age s t" "i < length (tasks s)" "tasks s ! i = LookupWrite p c"
  shows "i < length (tasks t) \<and> tasks t ! i = LookupWrite p c \<and> cached_price_lock t = cached_price_lock s"
  using assms(1)
proof (induction rule: rtranclp_induct)
  case base
  with assms(2,3) show ?case by simp
next
  case (step t u)
  with lookup_write_blocked_step [OF step.hyps(2), of i p c] show ?case by simp
qed

lemma reread_blocked_step:
  assumes "oracle_step B admits max_age s t" "i < length (tasks s)" "tasks s ! i = LookupReread"
    and "j < length (tasks s)" "tasks s ! j = RefreshWrite b p c"
  shows "i < length (tasks t) \<and> tasks t ! i = LookupReread \<and> j < length (tasks t) \<and> tasks t ! j = RefreshWrite b p c \<and>
    cached_price_lock t = cached_price_lock s"
proof -
  have no_write: "\<not> can_take admits WriteLock s" using assms(2,3) by (intro blocked_no_write [of i]) simp_all
  have no_read: "\<not> can_take admits ReadLock s" using assms(2-5) by (intro blocked_no_read [of i s j]) simp_all
  from assms(1) show ?thesis
  proof cases
    case (call q)
    with assms(2-5) show ?thesis by (simp add: nth_append)
  next
    case (wait n)
    with assms(2-5) show ?thesis by simp
  qed (use no_write no_read assms(2-5) in \<open>auto dest: moves_other [where i = i] moves_other [where i = j]\<close>)
qed

lemma reread_blocked:
  assumes "oracle_runs B admits max_age s t" "i < length (tasks s)" "tasks s ! i = LookupReread"
    and "j < length (tasks s)" "tasks s ! j = RefreshWrite b p c"
  shows "i < length (tasks t) \<and> tasks t ! i = LookupReread \<and> j < length (tasks t) \<and> tasks t ! j = RefreshWrite b p c \<and>
    cached_price_lock t = cached_price_lock s"
  using assms(1)
proof (induction rule: rtranclp_induct)
  case base
  with assms(2-5) show ?case by simp
next
  case (step t u)
  with reread_blocked_step [OF step.hyps(2), of i j b p c] show ?case by simp
qed

text \<open>With no guard held and no writer waiting a lookup can run to its end: if it has to fetch and the service does not
  answer, it falls back to the cached price.\<close>

lemma lookup_can_finish:
  assumes "quiet s" "\<not> writer_waits s" "i < length (tasks s)" "tasks s ! i = LookupStart"
  shows "\<exists>q. idle q \<and> oracle_runs B admits max_age s (with_task i q s)"
proof -
  let ?checked = "lookup_checked max_age (with_task i LookupCheck s)"
  have take: "can_take admits ReadLock (with_task i q s)" if "\<not> wants_write q" for q
    using writer_waits_with_task [OF assms(2) that] read_granted by (simp add: can_take_def)
  have "can_take admits ReadLock s" using assms(2) read_granted by (simp add: can_take_def)
  then have 1: "oracle_step B admits max_age s (with_task i LookupCheck s)"
    using moves_with_task [OF assms(3,4)] by (rule oracle_step.lookup_read)
  have 2: "oracle_step B admits max_age (with_task i LookupCheck s) (with_task i ?checked s)"
    using moves_with_task [of i "with_task i LookupCheck s" LookupCheck ?checked] assms(3)
    by (auto intro: oracle_step.lookup_check)
  have run: "oracle_runs B admits max_age s (with_task i ?checked s)" using 1 2 by (meson converse_rtranclp_into_rtranclp r_into_rtranclp)
  show ?thesis
  proof (cases "idle ?checked")
    case True
    with run show ?thesis by blast
  next
    case False
    with lookup_checked_cases have fetch: "?checked = LookupFetch" by blast
    let ?s2 = "with_task i LookupFetch s" and ?s3 = "with_task i LookupReread s"
    have "lookup_fetched B SendFailed ?s2 = LookupReread" by (simp add: lookup_fetched_def fetch_price_from_api_def)
    then have 3: "oracle_step B admits max_age ?s2 ?s3"
      using moves_with_task [of i ?s2 LookupFetch LookupReread] assms(3)
      by (auto intro: oracle_step.lookup_fetch [where reply = SendFailed])
    have 4: "oracle_step B admits max_age ?s3 (with_task i (lookup_stale ?s3) s)"
      using moves_with_task [of i ?s3 LookupReread "lookup_stale ?s3"] assms(3) take [of LookupReread]
      by (auto intro: oracle_step.lookup_reread)
    from run fetch 3 4 have "oracle_runs B admits max_age s (with_task i (lookup_stale ?s3) s)"
      by (metis rtranclp.rtrancl_into_rtrancl)
    then show ?thesis using idle_results(2) by blast
  qed
qed

lemma write_can_finish:
  assumes "quiet s" "i < length (tasks s)" "tasks s ! i = RefreshWrite b p c"
  shows "oracle_step B admits max_age s ((with_task i (refresh_done b (Inr p)) s)\<lparr>cached_price_lock := Some c\<rparr>)"
proof (rule oracle_step.refresh_write)
  show "can_take admits WriteLock s" using quiet_guards [OF assms(1)] write_granted by (simp add: can_take_def)
  show "moves i (RefreshWrite b p c) (refresh_done b (Inr p)) s (with_task i (refresh_done b (Inr p)) s)"
    by (rule moves_with_task [OF assms(2,3)])
qed simp

lemma fetch_can_finish:
  assumes "i < length (tasks s)" "tasks s ! i = RefreshFetch b"
  shows "\<exists>q. idle q \<and> oracle_step B admits max_age s (with_task i q s)"
proof -
  have "refresh_fetched B SendFailed b s = refresh_done b (Inl ''Failed to fetch from CoinGecko'')"
    by (simp add: refresh_fetched_def fetch_price_from_api_def)
  with moves_with_task [OF assms] show ?thesis
    by (metis idle_results(1) oracle_step.refresh_fetch)
qed

lemma status_can_finish:
  assumes "\<not> writer_waits s" "i < length (tasks s)" "tasks s ! i = StatusStart"
  shows "\<exists>q. idle q \<and> oracle_step B admits max_age s (with_task i q s)"
proof -
  have "can_take admits ReadLock s" using assms(1) read_granted by (simp add: can_take_def)
  from oracle_step.status_read [OF this moves_with_task [OF assms(2,3)]] show ?thesis by (metis idle.simps(3))
qed

lemma quiet_progress:
  assumes "quiet s" "\<not> list_all idle (tasks s)"
  shows "\<exists>t. oracle_runs B admits max_age s t \<and> quiet t \<and> busy_tasks t < busy_tasks s \<and> length (tasks t) = length (tasks s)"
proof (cases "writer_waits s")
  case True
  then obtain i where i: "i < length (tasks s)" "wants_write (tasks s ! i)"
    by (auto simp: writer_waits_def list_ex_length)
  moreover have "\<not> holds_read (tasks s ! i)" using assms(1) i(1) by (simp add: quiet_def list_all_length)
  ultimately obtain b p c where w: "tasks s ! i = RefreshWrite b p c" by (cases "tasks s ! i") auto
  let ?t = "(with_task i (refresh_done b (Inr p)) s)\<lparr>cached_price_lock := Some c\<rparr>"
  have "quiet ?t" "busy_tasks ?t < busy_tasks s" "length (tasks ?t) = length (tasks s)"
    using quiet_with_task [OF assms(1) idle_no_guard [OF idle_results(1)]] busy_with_task [OF i(1) _ idle_results(1)] w
    by (simp_all add: quiet_def busy_tasks_def)
  with write_can_finish [OF assms(1) i(1) w] show ?thesis by blast
next
  case False
  from assms(2) obtain i where i: "i < length (tasks s)" "\<not> idle (tasks s ! i)"
    by (auto simp: list_all_length)
  have "\<not> holds_read (tasks s ! i)" using assms(1) i(1) by (simp add: quiet_def list_all_length)
  moreover have "\<not> wants_write (tasks s ! i)" using False i(1) by (auto simp: writer_waits_def list_ex_length)
  ultimately have "tasks s ! i = LookupStart \<or> (\<exists>b. tasks s ! i = RefreshFetch b) \<or> tasks s ! i = StatusStart"
    using i(2) by (cases "tasks s ! i") auto
  then obtain q where q: "idle q" "oracle_runs B admits max_age s (with_task i q s)"
    using lookup_can_finish [OF assms(1) False i(1)] fetch_can_finish [OF i(1)] status_can_finish [OF False i(1)]
    by (meson r_into_rtranclp)
  from quiet_with_task [OF assms(1) idle_no_guard [OF q(1)]] busy_with_task [OF i q(1)] q(2) show ?thesis
    by (metis with_task_simps(1))
qed

lemma quiet_can_finish:
  assumes "quiet s"
  shows "\<exists>t. oracle_runs B admits max_age s t \<and> list_all idle (tasks t) \<and> length (tasks t) = length (tasks s)"
  using assms
proof (induction "busy_tasks s" arbitrary: s rule: less_induct)
  case less
  show ?case
  proof (cases "list_all idle (tasks s)")
    case False
    from quiet_progress [OF less.prems False] obtain t where t: "oracle_runs B admits max_age s t" "quiet t"
      "busy_tasks t < busy_tasks s" "length (tasks t) = length (tasks s)" by blast
    from less.hyps [OF t(3,2)] t(1,4) show ?thesis by (metis rtranclp_trans)
  qed auto
qed

lemma checks_can_finish:
  assumes "cached_price_lock s = Some c" "\<not> is_stale c max_age (oracle_now s)" "list_all before_fetch (tasks s)"
  shows "\<exists>t. oracle_runs B admits max_age s t \<and> quiet t \<and> length (tasks t) = length (tasks s)"
  using assms
proof (induction "busy_tasks s" arbitrary: s rule: less_induct)
  case less
  show ?case
  proof (cases "quiet s")
    case False
    then obtain i where i: "i < length (tasks s)" "holds_read (tasks s ! i)" by (auto simp: quiet_def list_all_length)
    moreover from less.prems(3) i(1) have "before_fetch (tasks s ! i)" by (simp add: list_all_length)
    ultimately have check: "tasks s ! i = LookupCheck" by (cases "tasks s ! i") auto
    let ?q = "PriceDone (Inr (cp_price c))"
    have "lookup_checked max_age s = ?q" using less.prems by (simp add: lookup_checked_def)
    with oracle_step.lookup_check [where B = B and admits = admits and max_age = max_age] moves_with_task [OF i(1) check]
    have step: "oracle_step B admits max_age s (with_task i ?q s)" by metis
    have "list_all before_fetch (tasks (with_task i ?q s))" using less.prems(3) by (simp add: with_task_def list_all_with)
    with less.hyps [of "with_task i ?q s"] less.prems busy_with_task [of i s ?q] i(1) check
    obtain t where "oracle_runs B admits max_age (with_task i ?q s) t" "quiet t" "length (tasks t) = length (tasks s)"
      by auto
    with step show ?thesis by (metis converse_rtranclp_into_rtranclp)
  qed auto
qed

lemma fresh_can_finish:
  assumes "cached_price_lock s = Some c" "\<not> is_stale c max_age (oracle_now s)" "list_all before_fetch (tasks s)"
  shows "\<exists>t. oracle_runs B admits max_age s t \<and> list_all idle (tasks t) \<and> length (tasks t) = length (tasks s)"
  using checks_can_finish [OF assms] quiet_can_finish by (metis rtranclp_trans)

end

subsection \<open>A lock that keeps the contract\<close>

definition write_preferring :: lock_policy where
  "write_preferring r w m = (case m of ReadLock \<Rightarrow> \<not> w | WriteLock \<Rightarrow> r = 0)"

interpretation fair: rw_lock write_preferring
  by unfold_locales (auto simp: write_preferring_def)

subsection \<open>What the calls return\<close>

lemma refresh_can_return:
  assumes "fetch_price_from_api B reply = Inr p"
  shows "oracle_runs B write_preferring max_age (new_oracle now)
    \<lparr>cached_price_lock = Some (cached_new p now), oracle_now = now, tasks = [PriceDone (Inr p)]\<rparr>"
proof -
  let ?s = "\<lambda>x. \<lparr>cached_price_lock = None, oracle_now = now, tasks = [x]\<rparr>"
  let ?w = "RefreshWrite False p (cached_new p now)"
  let ?step = "oracle_step B write_preferring max_age"
  have "?step (new_oracle now) (?s (RefreshFetch False))"
    by (rule oracle_step.call [where q = "RefreshFetch False"]) (simp_all add: new_oracle_def)
  moreover have "?step (?s (RefreshFetch False)) (?s ?w)"
    by (rule oracle_step.refresh_fetch [where i = 0 and reply = reply and b = False])
      (simp add: moves_def refresh_fetched_def assms)
  moreover have "?step (?s ?w) ((?s (PriceDone (Inr p)))\<lparr>cached_price_lock := Some (cached_new p now)\<rparr>)"
    by (rule oracle_step.refresh_write [where i = 0 and u = "?s (PriceDone (Inr p))" and b = False])
      (simp_all add: can_take_def write_preferring_def guards_held_def moves_def refresh_done_def)
  ultimately show ?thesis by simp
qed



subsection \<open>What the lock does to the calls\<close>

text \<open>C29: while the cached price is fresh and no lookup has begun to fetch one, every call in progress can finish,
  whatever else is going on.\<close>

theorem fresh_calls_finish:
  assumes "rw_lock admits" "cached_price_lock s = Some c" "\<not> is_stale c max_age (oracle_now s)"
    and "list_all before_fetch (tasks s)"
  shows "\<exists>t. oracle_runs B admits max_age s t \<and> list_all idle (tasks t) \<and> length (tasks t) = length (tasks s)"
  by (rule rw_lock.fresh_can_finish [OF assms])

definition busy_oracle :: price_oracle where
  "busy_oracle = \<lparr>cached_price_lock = Some (cached_new 400 0), oracle_now = seconds 60,
     tasks = [LookupCheck, RefreshWrite True 410 (cached_new 410 (seconds 59)), LookupStart, StatusStart]\<rparr>"

theorem fresh_calls_finish_witness:
  "\<exists>t. oracle_runs demo_big write_preferring (seconds 300) busy_oracle t \<and> list_all idle (tasks t) \<and> length (tasks t) = 4"
  using fresh_calls_finish [OF fair.rw_lock_axioms, of busy_oracle "cached_new 400 0" "seconds 300" demo_big]
  by (simp add: busy_oracle_def is_stale_def cached_new_def seconds_def eval_nat_numeral)

text \<open>C28: a lookup that finds no fresh price and gets one from the service never returns: it waits for the write lock while
  it holds the read guard of its own check. Nor does a lookup whose fetch failed while a refresh waits to write: each
  waits for the other. From then on no task writes the cache, so the price is never refreshed again.\<close>

theorem fetching_lookups_never_return:
  assumes "rw_lock admits" "oracle_runs B admits max_age s t"
  shows "(\<forall>i p c. i < length (tasks s) \<and> tasks s ! i = LookupWrite p c \<longrightarrow>
            tasks t ! i = LookupWrite p c \<and> cached_price_lock t = cached_price_lock s) \<and>
    (\<forall>i j b p c. i < length (tasks s) \<and> tasks s ! i = LookupReread \<and> j < length (tasks s) \<and> tasks s ! j = RefreshWrite b p c \<longrightarrow>
            tasks t ! i = LookupReread \<and> tasks t ! j = RefreshWrite b p c \<and> cached_price_lock t = cached_price_lock s)"
  using rw_lock.lookup_write_blocked [OF assms] rw_lock.reread_blocked [OF assms] by blast

lemma lookup_reaches_write:
  assumes "fetch_price_from_api B reply = Inr p"
  shows "oracle_runs B write_preferring max_age (new_oracle now)
    \<lparr>cached_price_lock = None, oracle_now = now, tasks = [LookupWrite p (cached_new p now)]\<rparr>"
proof -
  let ?s = "\<lambda>x. \<lparr>cached_price_lock = None, oracle_now = now, tasks = [x]\<rparr>"
  let ?step = "oracle_step B write_preferring max_age"
  have "?step (new_oracle now) (?s LookupStart)"
    by (rule oracle_step.call [where q = LookupStart]) (simp_all add: new_oracle_def)
  moreover have "?step (?s LookupStart) (?s LookupCheck)"
    by (rule oracle_step.lookup_read [where i = 0])
      (simp_all add: can_take_def write_preferring_def writer_waits_def moves_def)
  moreover have "?step (?s LookupCheck) (?s LookupFetch)"
    by (rule oracle_step.lookup_check [where i = 0]) (simp add: moves_def lookup_checked_def)
  moreover have "?step (?s LookupFetch) (?s (LookupWrite p (cached_new p now)))"
    by (rule oracle_step.lookup_fetch [where i = 0 and reply = reply]) (simp add: moves_def lookup_fetched_def assms)
  ultimately show ?thesis by (meson converse_rtranclp_into_rtranclp r_into_rtranclp)
qed

theorem fetching_lookups_never_return_witness:
  "\<exists>s. oracle_runs demo_big write_preferring (seconds 300) (new_oracle 0) s \<and>
     (\<nexists>t. oracle_runs demo_big write_preferring (seconds 300) s t \<and> cached_price_lock t \<noteq> None)"
proof -
  let ?s = "\<lparr>cached_price_lock = None, oracle_now = 0, tasks = [LookupWrite 400 (cached_new 400 0)]\<rparr>"
  have "fetch_price_from_api demo_big (Reply 200 (Some (show_rat 400))) = Inr 400"
    by (simp add: fetch_price_from_api_def demo_big_def parse_show_rat)
  from lookup_reaches_write [OF this]
  have "oracle_runs demo_big write_preferring (seconds 300) (new_oracle 0) ?s" .
  moreover have "cached_price_lock t = None" if "oracle_runs demo_big write_preferring (seconds 300) ?s t" for t
    using fetching_lookups_never_return [OF fair.rw_lock_axioms that, THEN conjunct1, rule_format, of 0 400 "cached_new 400 0"]
    by simp
  ultimately show ?thesis by (intro exI [of _ ?s]) simp
qed

end
