(* ===== verification/Events.thy ===== *)
theory Events
  imports Rules
begin

section \<open>Billing: the event store\<close>

text \<open>
  \<open>storage/events.rs\<close> (the tables of migrations 003 and 004, \<open>SqlEventRepository\<close> and \<open>SqlBatchRepository\<close>) and
  \<open>domain/events.rs\<close> (\<open>EventStore\<close>). Usage events are appended, read in the order of their timestamps and marked
  processed; billing events are the audit trail, whose table the credit repository shares. The width of the
  archive table is part of the state: migration 003 makes it like \<open>usage_events\<close>, migration 004 adds two columns to
  \<open>usage_events\<close> only.

  Lemmas: whatever the event store is asked to do and whatever is lost on the way, usage events are never removed or
  rewritten and an event that is processed stays so; the names of the enumerations round-trip; the archive
  statement cannot succeed on the tables the migrations make.
\<close>

subsection \<open>Events and batches\<close>

datatype event_type = Telemetry | StatusChange | CostUpdate | RentalStart | RentalEnd | ResourceUpdate

fun event_type_to_string :: "event_type \<Rightarrow> string" where
  "event_type_to_string Telemetry = ''telemetry''"
| "event_type_to_string StatusChange = ''status_change''"
| "event_type_to_string CostUpdate = ''cost_update''"
| "event_type_to_string RentalStart = ''rental_start''"
| "event_type_to_string RentalEnd = ''rental_end''"
| "event_type_to_string ResourceUpdate = ''resource_update''"

definition parse_event_type :: "string \<Rightarrow> event_type" where
  "parse_event_type s =
     (if s = ''telemetry'' then Telemetry
      else if s = ''status_change'' then StatusChange
      else if s = ''cost_update'' then CostUpdate
      else if s = ''rental_start'' then RentalStart
      else if s = ''rental_end'' then RentalEnd
      else if s = ''resource_update'' then ResourceUpdate
      else Telemetry)"

record usage_event =
  ue_id :: uuid
  ue_rental :: uuid
  ue_user :: string
  ue_executor :: string
  ue_validator :: string
  ue_type :: event_type
  ue_data :: json
  ue_timestamp :: time
  ue_processed :: bool
  ue_processed_at :: "time option"
  ue_batch :: "uuid option"

datatype batch_type = UsageAggregation | BillingCalculation | TelemetryProcessing

fun batch_type_to_string :: "batch_type \<Rightarrow> string" where
  "batch_type_to_string UsageAggregation = ''usage_aggregation''"
| "batch_type_to_string BillingCalculation = ''billing_calculation''"
| "batch_type_to_string TelemetryProcessing = ''telemetry_processing''"

definition batch_type_from_str :: "string \<Rightarrow> batch_type" where
  "batch_type_from_str s =
     (if s = ''usage_aggregation'' then UsageAggregation
      else if s = ''billing_calculation'' then BillingCalculation
      else if s = ''telemetry_processing'' then TelemetryProcessing
      else UsageAggregation)"

datatype batch_status = BatchPending | BatchProcessing | BatchCompleted | BatchFailed

fun batch_status_to_string :: "batch_status \<Rightarrow> string" where
  "batch_status_to_string BatchPending = ''pending''"
| "batch_status_to_string BatchProcessing = ''processing''"
| "batch_status_to_string BatchCompleted = ''completed''"
| "batch_status_to_string BatchFailed = ''failed''"

definition batch_status_from_str :: "string \<Rightarrow> batch_status" where
  "batch_status_from_str s =
     (if s = ''pending'' then BatchPending
      else if s = ''processing'' then BatchProcessing
      else if s = ''completed'' then BatchCompleted
      else if s = ''failed'' then BatchFailed
      else BatchPending)"

record processing_batch =
  pb_id :: uuid
  pb_type :: batch_type
  pb_status :: batch_status
  pb_events_count :: int
  pb_events_processed :: int
  pb_events_failed :: int
  pb_started_at :: "time option"
  pb_completed_at :: "time option"
  pb_error_message :: "string option"
  pb_metadata :: "json option"

record event_statistics =
  st_unprocessed :: nat
  st_processed :: nat
  st_total :: nat
  st_oldest :: "time option"
  st_newest :: "time option"

subsection \<open>Tables\<close>

record usage_event_row =
  uer_id :: uuid
  uer_rental :: uuid
  uer_user :: string
  uer_executor :: string
  uer_validator :: string
  uer_type :: string
  uer_data :: json
  uer_timestamp :: time
  uer_processed :: bool
  uer_processed_at :: "time option"
  uer_batch :: "uuid option"

record batch_row =
  bt_id :: uuid
  bt_type :: string
  bt_status :: string
  bt_events_count :: int
  bt_events_processed :: int
  bt_events_failed :: int
  bt_started_at :: "time option"
  bt_completed_at :: "time option"
  bt_error_message :: "string option"
  bt_metadata :: "json option"

record events_db = rules_db +
  usage_events :: "usage_event_row list"
  usage_events_archive :: "usage_event_row list"
  archive_columns :: "string list"
  processing_batches :: "batch_row list"

type_synonym ('z, 'a) events_prog = "('z events_db_scheme, billing_error, 'a) prog"

text \<open>The columns of \<open>usage_events\<close> after migration 004, and those the archive got in migration 003.\<close>

definition archive_columns_003 :: "string list" where
  "archive_columns_003 = [''event_id'', ''rental_id'', ''executor_id'', ''event_type'', ''event_data'', ''timestamp'',
     ''processed'', ''processed_at'', ''batch_id'', ''created_at'']"

definition usage_event_columns :: "string list" where
  "usage_event_columns = archive_columns_003 @ [''user_id'', ''validator_id'']"

definition blank :: "string \<Rightarrow> bool" where
  "blank s \<longleftrightarrow> list_all (\<lambda>c. c = CHR '' '') s"

definition event_to_row :: "usage_event \<Rightarrow> usage_event_row" where
  "event_to_row ev = \<lparr>uer_id = ue_id ev, uer_rental = ue_rental ev, uer_user = ue_user ev, uer_executor = ue_executor ev,
     uer_validator = ue_validator ev, uer_type = event_type_to_string (ue_type ev), uer_data = ue_data ev,
     uer_timestamp = ue_timestamp ev, uer_processed = False, uer_processed_at = None, uer_batch = None\<rparr>"

definition event_from_row :: "usage_event_row \<Rightarrow> usage_event" where
  "event_from_row r = \<lparr>ue_id = uer_id r, ue_rental = uer_rental r, ue_user = uer_user r, ue_executor = uer_executor r,
     ue_validator = uer_validator r, ue_type = parse_event_type (uer_type r), ue_data = uer_data r,
     ue_timestamp = uer_timestamp r, ue_processed = uer_processed r, ue_processed_at = uer_processed_at r,
     ue_batch = uer_batch r\<rparr>"

definition insert_usage_event :: "billing_error \<Rightarrow> usage_event \<Rightarrow> ('z, unit) events_prog" where
  "insert_usage_event e ev =
     andthen (gets usage_events) (\<lambda>rs.
       if row_of uer_id (ue_id ev) rs \<noteq> None then fail e
       else if blank (ue_user ev) \<or> blank (ue_validator ev) then fail e
       else if 255 < length (ue_user ev) \<or> 255 < length (ue_validator ev) \<or> 128 < length (ue_executor ev) then fail e
       else modify (usage_events_update (\<lambda>rs. rs @ [event_to_row ev])))"

subsection \<open>\<open>SqlEventRepository\<close>\<close>

definition validate_event_ids :: "usage_event \<Rightarrow> billing_error + unit" where
  "validate_event_ids ev =
     (if ue_id ev = 0 then Inl (ValidationError ''event_id'' ''event_id cannot be nil for usage event'')
      else if ue_user ev = [] then Inl (ValidationError ''user_id'' ''user_id cannot be empty for usage event'')
      else if ue_executor ev = [] then Inl (ValidationError ''executor_id'' ''executor_id cannot be empty for usage event'')
      else if ue_validator ev = [] then Inl (ValidationError ''validator_id'' ''validator_id cannot be empty for usage event'')
      else Inr ())"

definition sql_append_usage_event :: "usage_event \<Rightarrow> ('z, uuid) events_prog" where
  "sql_append_usage_event ev =
     andthen (of_result (validate_event_ids ev)) (\<lambda>_.
     andthen (sql (EventStoreError ''Failed to append usage event'')
       (insert_usage_event (EventStoreError ''Failed to append usage event'') ev)) (\<lambda>_.
       ok (ue_id ev)))"

definition sql_append_usage_events_batch :: "usage_event list \<Rightarrow> ('z, uuid list) events_prog" where
  "sql_append_usage_events_batch events =
     (if events = [] then ok []
      else
        andthen (transaction (EventStoreError ''Failed to begin transaction'')
            (EventStoreError ''Failed to commit batch transaction'')
          (for_each (\<lambda>ev.
             andthen (of_result (validate_event_ids ev)) (\<lambda>_.
               sql (EventStoreError ''Failed to insert event in batch'')
                 (insert_usage_event (EventStoreError ''Failed to insert event in batch'') ev))) events)) (\<lambda>_.
          ok (map ue_id events)))"

definition sql_get_unprocessed_events :: "int option \<Rightarrow> ('z, usage_event list) events_prog" where
  "sql_get_unprocessed_events limit =
     (let actual_limit = unwrap_or limit 1000; e = EventStoreError ''Failed to fetch unprocessed events'' in
      sql e (if actual_limit < 0 then fail e
             else gets (\<lambda>s. map event_from_row (take (nat actual_limit)
               (sort_key uer_timestamp (rows_where (\<lambda>r. \<not> uer_processed r) (usage_events s)))))))"

definition sql_mark_events_processed :: "uuid list \<Rightarrow> uuid \<Rightarrow> ('z, unit) events_prog" where
  "sql_mark_events_processed event_ids batch_id =
     (if event_ids = [] then ok ()
      else sql (EventStoreError ''Failed to mark events as processed'')
        (andthen db_now (\<lambda>now.
         modify (usage_events_update (update_where (\<lambda>r. uer_id r \<in> set event_ids)
           (\<lambda>r. r\<lparr>uer_processed := True, uer_processed_at := Some now, uer_batch := Some batch_id\<rparr>))))))"

definition sql_get_rental_events ::
  "uuid \<Rightarrow> time option \<Rightarrow> time option \<Rightarrow> ('z, usage_event list) events_prog" where
  "sql_get_rental_events rental_id start_time end_time =
     (let start = unwrap_or start_time 0 in
      andthen (case end_time of Some t \<Rightarrow> ok t | None \<Rightarrow> utc_now) (\<lambda>end'.
        sql (EventStoreError ''Failed to fetch events for rental'')
          (gets (\<lambda>s. map event_from_row (sort_key uer_timestamp
            (rows_where (\<lambda>r. uer_rental r = rental_id \<and> start \<le> uer_timestamp r \<and> uer_timestamp r \<le> end')
              (usage_events s)))))))"

definition sql_append_billing_event :: "billing_event_row \<Rightarrow> ('z, uuid) events_prog" where
  "sql_append_billing_event ev =
     andthen (sql (EventStoreError ''Failed to append billing event'')
       (andthen db_now (\<lambda>now.
        insert_billing_event (EventStoreError ''Failed to append billing event'') (ev\<lparr>be_created_at := now\<rparr>)))) (\<lambda>_.
       ok (be_id ev))"

definition sql_get_events_by_entity :: "string \<Rightarrow> nat option \<Rightarrow> ('z, billing_event_row list) events_prog" where
  "sql_get_events_by_entity entity_id limit =
     sql (DatabaseError ''database operation'')
       (gets (\<lambda>s. (case limit of None \<Rightarrow> (\<lambda>rs. rs) | Some n \<Rightarrow> take n)
         (sort_key (\<lambda>r. - be_created_at r) (rows_where (\<lambda>r. be_entity_id r = entity_id) (billing_events s)))))"

definition sql_get_event_statistics :: "('z, event_statistics) events_prog" where
  "sql_get_event_statistics =
     sql (EventStoreError ''Failed to get event statistics'')
       (gets (\<lambda>s. let rs = usage_events s; ts = map uer_timestamp rs in
          \<lparr>st_unprocessed = affected (\<lambda>r. \<not> uer_processed r) rs, st_processed = affected uer_processed rs,
           st_total = length rs, st_oldest = (if ts = [] then None else Some (Min (set ts))),
           st_newest = (if ts = [] then None else Some (Max (set ts)))\<rparr>))"

definition days :: "nat \<Rightarrow> time" where
  "days n = int n * 86400000000000"

text \<open>\<open>INSERT INTO usage_events_archive SELECT * FROM usage_events ...\<close>: a statement with more values than the target has
  columns is refused; the copied primary key admits an event once.\<close>

definition sql_cleanup_old_events :: "nat \<Rightarrow> ('z, nat) events_prog" where
  "sql_cleanup_old_events retention_days =
     andthen utc_now (\<lambda>now.
       let cutoff_date = now - days retention_days; e = EventStoreError ''Failed to archive old events'' in
       sql e (andthen (gets (\<lambda>s. s)) (\<lambda>s.
         let old = rows_where (\<lambda>r. uer_timestamp r < cutoff_date \<and> uer_processed r) (usage_events s) in
         if length (archive_columns s) < length usage_event_columns then fail e
         else if list_ex (\<lambda>r. row_of uer_id (uer_id r) (usage_events_archive s) \<noteq> None) old then fail e
         else andthen (modify (usage_events_archive_update (\<lambda>rs. rs @ old))) (\<lambda>_. ok (length old)))))"

subsection \<open>\<open>SqlBatchRepository\<close>\<close>

definition sql_create_batch :: "batch_type \<Rightarrow> ('z, processing_batch) events_prog" where
  "sql_create_batch bt =
     andthen uuid_new_v4 (\<lambda>batch_id.
     andthen (sql (DatabaseError ''create_batch'') (andthen (gets processing_batches) (\<lambda>rs.
        if row_of bt_id batch_id rs \<noteq> None then fail (DatabaseError ''create_batch'')
        else modify (processing_batches_update (\<lambda>rs. rs @
          [\<lparr>bt_id = batch_id, bt_type = batch_type_to_string bt, bt_status = batch_status_to_string BatchPending,
            bt_events_count = 0, bt_events_processed = 0, bt_events_failed = 0, bt_started_at = None,
            bt_completed_at = None, bt_error_message = None, bt_metadata = None\<rparr>]))))) (\<lambda>_.
       ok \<lparr>pb_id = batch_id, pb_type = bt, pb_status = BatchPending, pb_events_count = 0, pb_events_processed = 0,
           pb_events_failed = 0, pb_started_at = None, pb_completed_at = None, pb_error_message = None,
           pb_metadata = None\<rparr>))"

definition sql_update_batch_status :: "uuid \<Rightarrow> batch_status \<Rightarrow> int option \<Rightarrow> ('z, unit) events_prog" where
  "sql_update_batch_status batch_id status events_count =
     sql (DatabaseError ''update_batch_status'') (andthen db_now (\<lambda>now.
       modify (processing_batches_update (update_where (\<lambda>r. bt_id r = batch_id) (\<lambda>r.
         r\<lparr>bt_status := batch_status_to_string status, bt_events_count := unwrap_or events_count (bt_events_count r),
           bt_started_at := (if batch_status_to_string status = ''processing'' then Some now else bt_started_at r)\<rparr>)))))"

definition sql_complete_batch :: "uuid \<Rightarrow> int \<Rightarrow> int \<Rightarrow> ('z, unit) events_prog" where
  "sql_complete_batch batch_id processed_count failed_count =
     (let status = (if failed_count = 0 then BatchCompleted else BatchFailed) in
      sql (DatabaseError ''complete_batch'') (andthen db_now (\<lambda>now.
        modify (processing_batches_update (update_where (\<lambda>r. bt_id r = batch_id) (\<lambda>r.
          r\<lparr>bt_status := batch_status_to_string status, bt_events_processed := processed_count,
            bt_events_failed := failed_count, bt_completed_at := Some now\<rparr>))))))"

definition batch_from_row :: "batch_row \<Rightarrow> processing_batch" where
  "batch_from_row r = \<lparr>pb_id = bt_id r, pb_type = batch_type_from_str (bt_type r),
     pb_status = batch_status_from_str (bt_status r), pb_events_count = bt_events_count r,
     pb_events_processed = bt_events_processed r, pb_events_failed = bt_events_failed r,
     pb_started_at = bt_started_at r, pb_completed_at = bt_completed_at r, pb_error_message = bt_error_message r,
     pb_metadata = bt_metadata r\<rparr>"

definition sql_get_batch :: "uuid \<Rightarrow> ('z, processing_batch option) events_prog" where
  "sql_get_batch batch_id =
     sql (DatabaseError ''get_batch'')
       (gets (\<lambda>s. map_option batch_from_row (row_of bt_id batch_id (processing_batches s))))"

subsection \<open>\<open>EventStore\<close>\<close>

record event_store =
  es_batch_size :: nat
  es_retention_days :: nat

definition es_append_usage_event :: "usage_event \<Rightarrow> ('z, uuid) events_prog" where
  "es_append_usage_event = sql_append_usage_event"

definition es_append_usage_events_batch :: "usage_event list \<Rightarrow> ('z, uuid list) events_prog" where
  "es_append_usage_events_batch events = (if events = [] then ok [] else sql_append_usage_events_batch events)"

definition es_append_billing_event :: "billing_event_row \<Rightarrow> ('z, uuid) events_prog" where
  "es_append_billing_event = sql_append_billing_event"

definition es_get_unprocessed_events :: "event_store \<Rightarrow> int option \<Rightarrow> ('z, usage_event list) events_prog" where
  "es_get_unprocessed_events es limit =
     sql_get_unprocessed_events (case limit of Some n \<Rightarrow> Some n | None \<Rightarrow> Some (int (es_batch_size es)))"

definition es_mark_events_processed :: "uuid list \<Rightarrow> uuid \<Rightarrow> ('z, unit) events_prog" where
  "es_mark_events_processed = sql_mark_events_processed"

definition es_get_rental_events :: "uuid \<Rightarrow> time option \<Rightarrow> time option \<Rightarrow> ('z, usage_event list) events_prog" where
  "es_get_rental_events = sql_get_rental_events"

definition es_store_event :: "string \<Rightarrow> string \<Rightarrow> json \<Rightarrow> json option \<Rightarrow> ('z, uuid) events_prog" where
  "es_store_event entity_id event_type event_data metadata =
     andthen uuid_new_v4 (\<lambda>event_id.
     andthen utc_now (\<lambda>now.
       es_append_billing_event \<lparr>be_id = event_id, be_type = event_type, be_entity_type = ''rental'',
         be_entity_id = entity_id, be_user = None, be_data = event_data, be_metadata = metadata,
         be_created_by = ''telemetry'', be_created_at = now\<rparr>))"

definition es_get_events_by_entity :: "string \<Rightarrow> nat option \<Rightarrow> ('z, billing_event_row list) events_prog" where
  "es_get_events_by_entity = sql_get_events_by_entity"

definition es_get_event_statistics :: "('z, event_statistics) events_prog" where
  "es_get_event_statistics = sql_get_event_statistics"

definition es_cleanup_old_events :: "event_store \<Rightarrow> ('z, nat) events_prog" where
  "es_cleanup_old_events es = sql_cleanup_old_events (es_retention_days es)"

definition es_create_batch :: "batch_type \<Rightarrow> ('z, processing_batch) events_prog" where
  "es_create_batch = sql_create_batch"

definition es_update_batch_status :: "uuid \<Rightarrow> batch_status \<Rightarrow> int option \<Rightarrow> ('z, unit) events_prog" where
  "es_update_batch_status = sql_update_batch_status"

definition es_complete_batch :: "uuid \<Rightarrow> int \<Rightarrow> int \<Rightarrow> ('z, unit) events_prog" where
  "es_complete_batch = sql_complete_batch"

definition es_get_batch :: "uuid \<Rightarrow> ('z, processing_batch option) events_prog" where
  "es_get_batch = sql_get_batch"

subsection \<open>Names\<close>

lemma parse_event_type_to_string [simp]: "parse_event_type (event_type_to_string t) = t"
  by (cases t) (simp_all add: parse_event_type_def)

lemma batch_type_round_trip [simp]: "batch_type_from_str (batch_type_to_string t) = t"
  by (cases t) (simp_all add: batch_type_from_str_def)

lemma batch_status_round_trip [simp]: "batch_status_from_str (batch_status_to_string t) = t"
  by (cases t) (simp_all add: batch_status_from_str_def)

lemma event_row_round_trip:
  "event_from_row (event_to_row ev) = ev\<lparr>ue_processed := False, ue_processed_at := None, ue_batch := None\<rparr>"
  by (cases ev) (simp add: event_from_row_def event_to_row_def)

subsection \<open>The log\<close>

text \<open>An event as it may look later: only the marks of processing change, and an event that is processed stays so.\<close>

definition same_event :: "usage_event_row \<Rightarrow> usage_event_row \<Rightarrow> bool" where
  "same_event r r' \<longleftrightarrow>
     r' = r\<lparr>uer_processed := uer_processed r', uer_processed_at := uer_processed_at r', uer_batch := uer_batch r'\<rparr> \<and>
     (uer_processed r \<longrightarrow> uer_processed r')"

definition log_extends :: "usage_event_row list \<Rightarrow> usage_event_row list \<Rightarrow> bool" where
  "log_extends rs rs' \<longleftrightarrow> (\<exists>ys zs. rs' = ys @ zs \<and> list_all2 same_event rs ys)"

definition event_row_ok :: "usage_event_row \<Rightarrow> bool" where
  "event_row_ok r \<longleftrightarrow> uer_id r \<noteq> 0 \<and> \<not> blank (uer_user r) \<and> uer_executor r \<noteq> [] \<and> \<not> blank (uer_validator r)"

definition events_ok :: "'z events_db_scheme \<Rightarrow> bool" where
  "events_ok s \<longleftrightarrow> unique_key uer_id (usage_events s) \<and> list_all event_row_ok (usage_events s)"

lemma same_event_refl [simp]: "same_event r r"
  by (simp add: same_event_def)

lemma same_event_mark: "same_event r (r\<lparr>uer_processed := True, uer_processed_at := p, uer_batch := b\<rparr>)"
  by (simp add: same_event_def)

lemma same_event_trans: "same_event a b \<Longrightarrow> same_event b c \<Longrightarrow> same_event a c"
  by (cases a, cases b, cases c) (simp add: same_event_def)

lemma same_event_id: "same_event r r' \<Longrightarrow> uer_id r' = uer_id r"
  by (cases r, cases r') (simp add: same_event_def)

lemma log_extends_refl [simp]: "log_extends rs rs"
  unfolding log_extends_def by (intro exI [of _ rs] exI [of _ "[]"]) (simp add: list.rel_refl)

lemma log_extends_snoc: "log_extends rs rs' \<Longrightarrow> log_extends rs (rs' @ [r])"
  unfolding log_extends_def by (metis append.assoc)

lemma list_all2_same_trans:
  "list_all2 same_event as bs \<Longrightarrow> list_all2 same_event bs cs \<Longrightarrow> list_all2 same_event as cs"
  by (rule list_all2_trans [OF same_event_trans])

lemma log_extends_update:
  assumes "log_extends rs rs'" "\<And>r. same_event r (f r)"
  shows "log_extends rs (update_where p f rs')"
proof -
  from assms(1) obtain ys zs where split: "rs' = ys @ zs" "list_all2 same_event rs ys" by (auto simp: log_extends_def)
  have "list_all2 same_event ys (update_where p f ys)"
    using assms(2) by (simp add: update_where_def list_all2_conv_all_nth)
  with split(2) have "list_all2 same_event rs (update_where p f ys)" by (rule list_all2_same_trans)
  with split(1) show ?thesis by (auto simp: log_extends_def update_where_def)
qed

definition log_inv :: "usage_event_row list \<Rightarrow> 'z events_db_scheme \<Rightarrow> bool" where
  "log_inv L s \<longleftrightarrow> log_extends L (usage_events s) \<and> events_ok s"

lemma log_inv_tickless [simp]: "tickless (log_inv L)"
  by (simp add: tickless_def log_inv_def events_ok_def)

lemma usage_events_tickless [simp]: "tickless usage_events"
  by (simp add: tickless_def)

lemma log_inv_frames: "frames usage_events m \<Longrightarrow> keeps (log_inv L) m"
  using keeps_of_frames [where v = usage_events and
      P = "\<lambda>rs. log_extends L rs \<and> unique_key uer_id rs \<and> list_all event_row_ok rs"]
  by (simp add: log_inv_def [abs_def] events_ok_def)

lemma valid_event_row: "validate_event_ids ev = Inr () \<Longrightarrow> \<not> blank (ue_user ev) \<Longrightarrow> \<not> blank (ue_validator ev) \<Longrightarrow>
    event_row_ok (event_to_row ev)"
  by (auto simp: validate_event_ids_def event_row_ok_def event_to_row_def split: if_splits)

lemma insert_usage_event_keeps:
  assumes "validate_event_ids ev = Inr ()"
  shows "keeps (log_inv L) (insert_usage_event e ev)"
proof (rule keepsI)
  fix s r t
  assume inv: "log_inv L s" and run: "insert_usage_event e ev s = (r, t)"
  show "log_inv L t"
  proof (cases "t = s")
    case False
    with run have t: "t = usage_events_update (\<lambda>rs. rs @ [event_to_row ev]) s"
      and new: "row_of uer_id (ue_id ev) (usage_events s) = None" "\<not> blank (ue_user ev)" "\<not> blank (ue_validator ev)"
      by (auto simp: insert_usage_event_def split: if_splits)
    have "uer_id (event_to_row ev) = ue_id ev" by (simp add: event_to_row_def)
    with new(1) have "unique_key uer_id (usage_events s @ [event_to_row ev]) = unique_key uer_id (usage_events s)"
      by (auto simp: unique_key_def row_of_None)
    with inv t valid_event_row [OF assms new(2,3)] show ?thesis
      by (simp add: log_inv_def events_ok_def log_extends_snoc)
  qed (use inv in simp)
qed

lemma processing_mark_keeps:
  "keeps (log_inv L) (modify (usage_events_update (update_where p
     (\<lambda>r. r\<lparr>uer_processed := True, uer_processed_at := Some now, uer_batch := b\<rparr>))))"
proof (rule keepsI)
  fix s r t
  let ?f = "\<lambda>r. r\<lparr>uer_processed := True, uer_processed_at := Some now, uer_batch := b\<rparr>"
  assume inv: "log_inv L s" and run: "modify (usage_events_update (update_where p ?f)) s = (r, t)"
  have "list_all event_row_ok (update_where p ?f (usage_events s))"
    using inv by (auto simp: log_inv_def events_ok_def list_all_iff set_update_where event_row_ok_def)
  moreover have "unique_key uer_id (update_where p ?f (usage_events s))"
    using inv by (simp add: log_inv_def events_ok_def)
  ultimately show "log_inv L t"
    using inv run log_extends_update [OF _ same_event_mark] by (auto simp: log_inv_def events_ok_def)
qed

lemma keeps_validated:
  assumes "validate_event_ids ev = Inr () \<Longrightarrow> keeps (log_inv L) m"
  shows "keeps (log_inv L) (andthen (of_result (validate_event_ids ev)) (\<lambda>_. m))"
proof (cases "validate_event_ids ev")
  case (Inr u)
  then have "andthen (of_result (validate_event_ids ev)) (\<lambda>_. m) = m" by (simp add: fun_eq_iff)
  with assms Inr show ?thesis by simp
qed (simp add: keeps_def)

lemma sql_append_usage_event_keeps: "keeps (log_inv L) (sql_append_usage_event ev)"
  unfolding sql_append_usage_event_def by (intro keeps_validated keeps_rules insert_usage_event_keeps log_inv_tickless)

lemma sql_append_batch_keeps: "keeps (log_inv L) (sql_append_usage_events_batch evs)"
proof -
  have "keeps (log_inv L) (andthen (of_result (validate_event_ids ev)) (\<lambda>_. sql e (insert_usage_event e ev)))" for ev e
    by (intro keeps_validated keeps_sql insert_usage_event_keeps log_inv_tickless)
  from keeps_transaction [OF log_inv_tickless keeps_for_each [OF this]] show ?thesis
    unfolding sql_append_usage_events_batch_def by (intro keeps_if keeps_andthen keeps_ok)
qed

lemma es_append_batch_keeps: "keeps (log_inv L) (es_append_usage_events_batch evs)"
  unfolding es_append_usage_events_batch_def by (intro keeps_if keeps_ok sql_append_batch_keeps)

lemma sql_mark_keeps: "keeps (log_inv L) (sql_mark_events_processed ids b)"
  unfolding sql_mark_events_processed_def db_now_def by (intro keeps_rules processing_mark_keeps log_inv_tickless)

lemma frames_modify_other: "(\<And>s. v (f s) = v s) \<Longrightarrow> frames v (modify f)"
  by (simp add: frames_def)

lemma insert_billing_event_frames: "frames usage_events (insert_billing_event e r)"
  unfolding insert_billing_event_def by (intro frames_rules frames_modify_other) simp

lemmas event_store_defs = es_append_usage_event_def es_append_usage_events_batch_def es_append_billing_event_def
  es_get_unprocessed_events_def es_mark_events_processed_def es_get_rental_events_def es_store_event_def
  es_get_events_by_entity_def es_get_event_statistics_def es_cleanup_old_events_def es_create_batch_def
  es_update_batch_status_def es_complete_batch_def es_get_batch_def

lemmas event_read_defs = sql_get_unprocessed_events_def sql_get_rental_events_def sql_append_billing_event_def
  sql_get_events_by_entity_def sql_get_event_statistics_def sql_cleanup_old_events_def sql_create_batch_def
  sql_update_batch_status_def sql_complete_batch_def sql_get_batch_def db_now_def

text \<open>What a client of the event store can ask for.\<close>

datatype event_call =
    EAppend usage_event
  | EAppendBatch "usage_event list"
  | EAppendBilling billing_event_row
  | EUnprocessed "int option"
  | EMark "uuid list" uuid
  | ERental uuid "time option" "time option"
  | EStore string string json "json option"
  | EByEntity string "nat option"
  | EStatistics
  | ECleanup
  | ECreateBatch batch_type
  | EUpdateBatch uuid batch_status "int option"
  | ECompleteBatch uuid int int
  | EGetBatch uuid

fun event_exec :: "event_store \<Rightarrow> event_call \<Rightarrow> ('z, unit) events_prog" where
  "event_exec es (EAppend ev) = discard (es_append_usage_event ev)"
| "event_exec es (EAppendBatch evs) = discard (es_append_usage_events_batch evs)"
| "event_exec es (EAppendBilling ev) = discard (es_append_billing_event ev)"
| "event_exec es (EUnprocessed n) = discard (es_get_unprocessed_events es n)"
| "event_exec es (EMark ids b) = es_mark_events_processed ids b"
| "event_exec es (ERental i f u) = discard (es_get_rental_events i f u)"
| "event_exec es (EStore i ty d m) = discard (es_store_event i ty d m)"
| "event_exec es (EByEntity i n) = discard (es_get_events_by_entity i n)"
| "event_exec es EStatistics = discard es_get_event_statistics"
| "event_exec es ECleanup = discard (es_cleanup_old_events es)"
| "event_exec es (ECreateBatch b) = discard (es_create_batch b)"
| "event_exec es (EUpdateBatch i st n) = es_update_batch_status i st n"
| "event_exec es (ECompleteBatch i m n) = es_complete_batch i m n"
| "event_exec es (EGetBatch i) = discard (es_get_batch i)"

lemma event_reads_frame:
  "frames usage_events (sql_get_unprocessed_events n)" "frames usage_events (sql_get_rental_events i f u)"
  "frames usage_events (sql_append_billing_event ev)" "frames usage_events (sql_get_events_by_entity k m)"
  "frames usage_events sql_get_event_statistics" "frames usage_events (sql_cleanup_old_events d)"
  "frames usage_events (sql_create_batch b)" "frames usage_events (sql_update_batch_status i st c)"
  "frames usage_events (sql_complete_batch i x y)" "frames usage_events (sql_get_batch i)"
  unfolding event_read_defs Let_def
  by (intro frames_rules frames_modify_other insert_billing_event_frames usage_events_tickless; simp)+

lemma event_exec_keeps: "keeps (log_inv L) (event_exec es c)"
  by (cases c; simp only: event_exec.simps discard_def event_store_defs(1,3-14);
      intro keeps_rules sql_append_usage_event_keeps es_append_batch_keeps sql_mark_keeps log_inv_tickless
        event_reads_frame [THEN log_inv_frames])

inductive event_history ::
  "event_store \<Rightarrow> 'z events_db_scheme \<Rightarrow> event_call list \<Rightarrow> 'z events_db_scheme \<Rightarrow> bool"
  for es s where
  event_start: "event_history es s [] s"
| event_step: "event_history es s cs t \<Longrightarrow> event_exec es c t = (r, t') \<Longrightarrow> event_history es s (cs @ [c]) t'"

lemma event_history_keeps: "event_history es s cs t \<Longrightarrow> log_inv L s \<Longrightarrow> log_inv L t"
  by (induction rule: event_history.induct) (auto intro: keepsD [OF event_exec_keeps])

text \<open>C33: the usage events are an append-only log. Whatever the event store is asked to do and whichever statements are
  lost or unacknowledged, the events that were there keep their place and their content, new ones follow, only the
  marks of processing change, a processed event stays processed, and identifiers remain unique.\<close>

theorem events_append_only:
  assumes "event_history es s cs t" "events_ok s"
  shows "events_ok t \<and> (\<exists>ys zs. usage_events t = ys @ zs \<and> list_all2 same_event (usage_events s) ys)"
  using event_history_keeps [OF assms(1), of "usage_events s"] assms(2) by (simp add: log_inv_def log_extends_def)

definition demo_event :: usage_event where
  "demo_event = \<lparr>ue_id = 11, ue_rental = 4, ue_user = ''alice'', ue_executor = ''ex'', ue_validator = ''val'', ue_type = Telemetry,
     ue_data = JObj [], ue_timestamp = 5, ue_processed = False, ue_processed_at = None, ue_batch = None\<rparr>"

definition demo_events_db :: events_db where
  "demo_events_db = rules_db.extend demo_rules_db \<lparr>usage_events = [event_to_row demo_event], usage_events_archive = [],
     archive_columns = archive_columns_003, processing_batches = []\<rparr>"

lemma demo_events_ok: "events_ok demo_events_db"
  by (simp add: events_ok_def demo_events_db_def rules_db.defs unique_key_def event_row_ok_def event_to_row_def
      demo_event_def blank_def)

theorem events_append_only_witness:
  "\<exists>r. usage_events (snd (event_exec \<lparr>es_batch_size = 10, es_retention_days = 90\<rparr> (EMark [11] 3) demo_events_db)) = [r] \<and>
     uer_data r = JObj []"
proof -
  let ?t = "snd (event_exec \<lparr>es_batch_size = 10, es_retention_days = 90\<rparr> (EMark [11] 3) demo_events_db)"
  have hist: "event_history \<lparr>es_batch_size = 10, es_retention_days = 90\<rparr> demo_events_db ([] @ [EMark [11] 3]) ?t"
    by (rule event_step [OF event_start prod.collapse [symmetric]])
  from events_append_only [OF hist demo_events_ok]
  obtain ys zs where split: "usage_events ?t = ys @ zs" "list_all2 same_event (usage_events demo_events_db) ys" by blast
  have one: "usage_events demo_events_db = [event_to_row demo_event]"
    by (simp add: demo_events_db_def rules_db.defs)
  have "length (usage_events ?t) = 1"
    by (simp add: es_mark_events_processed_def sql_mark_events_processed_def demo_events_db_def rules_db.defs sql_def db_now_def
        update_where_def split: outcome.split)
  with split one obtain r where "ys = [r]" "zs = []" "same_event (event_to_row demo_event) r"
    by (auto simp: list_all2_Cons1)
  with split show ?thesis
    by (cases r) (auto simp: same_event_def event_to_row_def demo_event_def)
qed

subsection \<open>The archive\<close>

text \<open>On the tables the migrations make, archiving old events always fails: the statement copies twelve columns into
  ten. No event is archived and nothing changes but the clock.\<close>

theorem archiving_always_fails:
  assumes "archive_columns s = archive_columns_003"
  shows "\<exists>n. es_cleanup_old_events es s = (Inl (EventStoreError ''Failed to archive old events''), s\<lparr>tick := n\<rparr>)"
  using assms
  by (auto simp: es_cleanup_old_events_def sql_cleanup_old_events_def sql_def Let_def usage_event_columns_def
      split: outcome.split)

theorem archiving_always_fails_witness:
  "fst (es_cleanup_old_events \<lparr>es_batch_size = 10, es_retention_days = 90\<rparr> demo_events_db) =
     Inl (EventStoreError ''Failed to archive old events'')"
  using archiving_always_fails [of demo_events_db "\<lparr>es_batch_size = 10, es_retention_days = 90\<rparr>"]
  by (auto simp: demo_events_db_def rules_db.defs)

end
