(* ===== verification/Float64.thy ===== *)
theory Float64
  imports Decimal
begin

section \<open>Double-precision numbers\<close>

text \<open>
  Rust's \<open>f64\<close>: a finite number is the rational number it stands for (the two zeros are one), and an operation is the exact
  operation followed by rounding to the nearest double, ties to even. \<open>f64_round\<close> is that rounding: the unit in
  the last place of a number between \<open>2 ^ e\<close> and \<open>2 ^ (e + 1)\<close> is \<open>2 ^ (e - 52)\<close>, and never below \<open>2 ^ -1074\<close>.
\<close>

datatype f64 = Fin rat | Inf bool | NaN

fun bit_length :: "nat \<Rightarrow> nat" where
  "bit_length n = (if n = 0 then 0 else Suc (bit_length (n div 2)))"

declare bit_length.simps [simp del]

definition pow2 :: "int \<Rightarrow> rat" where
  "pow2 e = (if 0 \<le> e then 2 ^ nat e else 1 / 2 ^ nat (- e))"

text \<open>The exponent of the largest power of two that is at most a positive number.\<close>

definition f64_exponent :: "rat \<Rightarrow> int" where
  "f64_exponent x =
     (let (p, q) = quotient_of x; e = int (bit_length (nat p)) - int (bit_length (nat q)) in
      if pow2 e \<le> x then e else e - 1)"

definition f64_unit :: "rat \<Rightarrow> rat" where
  "f64_unit x = pow2 (max (f64_exponent \<bar>x\<bar> - 52) (- 1074))"

definition f64_round :: "rat \<Rightarrow> rat" where
  "f64_round x = (if x = 0 then 0 else of_int (half_even (x / f64_unit x)) * f64_unit x)"

definition f64_of_rat :: "rat \<Rightarrow> f64" where
  "f64_of_rat x = (let y = f64_round x in if \<bar>y\<bar> < pow2 1024 then Fin y else Inf (x < 0))"

definition f64_of_int :: "int \<Rightarrow> f64" where
  "f64_of_int i = f64_of_rat (of_int i)"

fun f64_divide :: "f64 \<Rightarrow> f64 \<Rightarrow> f64" where
  "f64_divide NaN y = NaN"
| "f64_divide x NaN = NaN"
| "f64_divide (Inf s) (Inf t) = NaN"
| "f64_divide (Inf s) (Fin y) = Inf (s \<noteq> (y < 0))"
| "f64_divide (Fin x) (Inf t) = Fin 0"
| "f64_divide (Fin x) (Fin y) = (if y = 0 then (if x = 0 then NaN else Inf (x < 0)) else f64_of_rat (x / y))"

fun f64_times :: "f64 \<Rightarrow> f64 \<Rightarrow> f64" where
  "f64_times NaN y = NaN"
| "f64_times x NaN = NaN"
| "f64_times (Inf s) (Inf t) = Inf (s \<noteq> t)"
| "f64_times (Inf s) (Fin y) = (if y = 0 then NaN else Inf (s \<noteq> (y < 0)))"
| "f64_times (Fin x) (Inf t) = (if x = 0 then NaN else Inf ((x < 0) \<noteq> t))"
| "f64_times (Fin x) (Fin y) = f64_of_rat (x * y)"

fun f64_plus :: "f64 \<Rightarrow> f64 \<Rightarrow> f64" where
  "f64_plus NaN y = NaN"
| "f64_plus x NaN = NaN"
| "f64_plus (Inf s) (Inf t) = (if s = t then Inf s else NaN)"
| "f64_plus (Inf s) (Fin y) = Inf s"
| "f64_plus (Fin x) (Inf t) = Inf t"
| "f64_plus (Fin x) (Fin y) = f64_of_rat (x + y)"

text \<open>\<open>x < y\<close>; false when one side is not a number.\<close>

fun f64_less :: "f64 \<Rightarrow> f64 \<Rightarrow> bool" where
  "f64_less (Fin x) (Fin y) = (x < y)"
| "f64_less (Fin x) (Inf t) = (\<not> t)"
| "f64_less (Inf s) (Fin y) = s"
| "f64_less (Inf s) (Inf t) = (s \<and> \<not> t)"
| "f64_less _ _ = False"

text \<open>\<open>x as u64\<close>: truncated towards zero and clamped; not a number becomes 0.\<close>

fun f64_to_u64 :: "f64 \<Rightarrow> nat" where
  "f64_to_u64 (Fin x) = min (nat \<lfloor>x\<rfloor>) (2 ^ 64 - 1)"
| "f64_to_u64 (Inf s) = (if s then 0 else 2 ^ 64 - 1)"
| "f64_to_u64 NaN = 0"

lemma f64_round_0 [simp]: "f64_round 0 = 0"
  by (simp add: f64_round_def)

lemma pow2_pos [simp]: "0 < pow2 e"
  by (simp add: pow2_def)

text \<open>An example: one tenth is not a double; its nearest one is.\<close>

lemma f64_one_tenth: "f64_round (1 / 10) = 3602879701896397 / 36028797018963968"
  by code_simp

end
