(* ===== verification/Telemetry.thy ===== *)
theory Telemetry
  imports Events Float64
begin

section \<open>Billing: telemetry and usage\<close>

text \<open>
  \<open>telemetry/ingester.rs\<close> (the bounded channel and its counters), \<open>telemetry/processor.rs\<close> (a telemetry message
  becomes a usage event), \<open>telemetry_consumer_loop\<close> of \<open>server.rs\<close>, and \<open>storage/usage.rs\<close> (usage of a rental summed
  from its events, hourly aggregates).

  The state gets the channel, its counters, and the table of aggregates, which may not exist:
  \<open>usage_aggregations\<close> is in none of the migrations. What a full channel does within the 100 ms a sender waits is
  an input (\<open>send_wait\<close>): the number of messages taken out of it before the message fits, or nothing in time.
  The conversions of \<open>rust_decimal\<close> from and to doubles, the \<open>serde\<close> form of decimals and times, and PostgreSQL's casts from
  JSON text are the fields of \<open>telemetry_ops\<close>. The aggregates are computed exactly, as no column type is known.

  Lemmas: the counters of the ingester account for every message; the events that telemetry writes have none of the
  keys that the usage of a rental is summed from, so that usage is zero.
\<close>

subsection \<open>Messages\<close>

record gpu_usage =
  gu_index :: "32 word"
  gu_utilization_percent :: f64
  gu_memory_used_mb :: "64 word"

record resource_usage =
  ru_cpu_percent :: f64
  ru_memory_mb :: "64 word"
  ru_network_rx_bytes :: "64 word"
  ru_network_tx_bytes :: "64 word"
  ru_disk_read_bytes :: "64 word"
  ru_disk_write_bytes :: "64 word"
  ru_gpu_usage :: "gpu_usage list"

record telemetry_data =
  td_rental_id :: string
  td_executor_id :: string
  td_resource_usage :: "resource_usage option"
  td_custom_metrics :: "(string \<times> f64) list"

record telemetry_ops = billing_ops +
  dec_from_f64 :: "f64 \<Rightarrow> rat option"
  dec_from_f64_retain :: "f64 \<Rightarrow> rat option"
  dec_to_f64 :: "rat \<Rightarrow> rat option"
  dec_of_json :: "json \<Rightarrow> rat option"
  time_of_json :: "json \<Rightarrow> time option"
  show_time :: "time \<Rightarrow> string"
  numeric_in :: "string \<Rightarrow> rat option"
  f64_numeric :: "rat \<Rightarrow> rat"
  dec_of_numeric :: "rat \<Rightarrow> rat"

subsection \<open>State\<close>

record ingester_metrics =
  im_total_received :: nat
  im_total_processed :: nat
  im_total_dropped :: nat
  im_current_queue_size :: nat

record usage_aggregation =
  ua_rental :: uuid
  ua_user :: uuid
  ua_hour_key :: int
  ua_date_key :: int
  ua_cpu_usage_avg :: rat
  ua_memory_usage_avg_gb :: rat
  ua_gpu_usage_avg :: rat
  ua_network_ingress_gb :: rat
  ua_network_egress_gb :: rat
  ua_disk_read_gb :: rat
  ua_disk_write_gb :: rat
  ua_cost_for_period :: rat
  ua_data_points_count :: int

record telemetry_db = events_db +
  usage_aggregations :: "usage_aggregation list option"
  channel :: "telemetry_data list"
  channel_capacity :: nat
  channel_open :: bool
  metrics :: ingester_metrics
  send_wait :: "nat \<Rightarrow> nat option"

type_synonym ('z, 'a) telemetry_prog = "('z telemetry_db_scheme, billing_error, 'a) prog"

subsection \<open>\<open>TelemetryIngester\<close>\<close>

definition metrics_default :: ingester_metrics where
  "metrics_default = \<lparr>im_total_received = 0, im_total_processed = 0, im_total_dropped = 0, im_current_queue_size = 0\<rparr>"

definition modify_metrics :: "(ingester_metrics \<Rightarrow> ingester_metrics) \<Rightarrow> ('z, unit) telemetry_prog" where
  "modify_metrics f = modify (metrics_update f)"

definition send_timeout :: "telemetry_data \<Rightarrow> ('z telemetry_db_scheme, unit, unit) prog" where
  "send_timeout data s =
     (case send_wait s (tick s) of
        Some k \<Rightarrow> if 0 < k \<and> k \<le> length (channel s) \<and> channel_open s
                  then (Inr (), s\<lparr>tick := Suc (tick s), channel := drop k (channel s) @ [data]\<rparr>)
                  else (Inl (), s\<lparr>tick := Suc (tick s)\<rparr>)
      | None \<Rightarrow> (Inl (), s\<lparr>tick := Suc (tick s)\<rparr>))"

definition ingest :: "telemetry_data \<Rightarrow> ('z, unit) telemetry_prog" where
  "ingest data =
     andthen (modify_metrics (\<lambda>m. m\<lparr>im_total_received := im_total_received m + 1\<rparr>)) (\<lambda>_.
     andthen (gets (\<lambda>s. s)) (\<lambda>s.
       if \<not> channel_open s then fail TelemetryError
       else if length (channel s) < channel_capacity s then
         andthen (modify (channel_update (\<lambda>q. q @ [data]))) (\<lambda>_.
         andthen (gets (\<lambda>s. length (channel s))) (\<lambda>size.
           modify_metrics (\<lambda>m. m\<lparr>im_total_processed := im_total_processed m + 1, im_current_queue_size := size\<rparr>)))
       else
         andthen (modify_metrics (\<lambda>m. m\<lparr>im_total_dropped := im_total_dropped m + 1\<rparr>)) (\<lambda>_.
         andthen (attempt (send_timeout data)) (\<lambda>r.
           case r of
             Inr _ \<Rightarrow> modify_metrics (\<lambda>m. m\<lparr>im_total_processed := im_total_processed m + 1,
                        im_total_dropped := im_total_dropped m - 1\<rparr>)
           | Inl _ \<Rightarrow> fail TelemetryError))))"

primrec ingest_batch_from :: "nat \<Rightarrow> telemetry_data list \<Rightarrow> ('z, nat) telemetry_prog" where
  "ingest_batch_from successful [] = ok successful"
| "ingest_batch_from successful (d # ds) =
     andthen (attempt (ingest d)) (\<lambda>r :: billing_error + unit.
       ingest_batch_from (case r of Inr _ \<Rightarrow> successful + 1 | Inl _ \<Rightarrow> successful) ds)"

definition ingest_batch :: "telemetry_data list \<Rightarrow> ('z, nat) telemetry_prog" where
  "ingest_batch batch = ingest_batch_from 0 batch"

definition get_metrics :: "('z, ingester_metrics) telemetry_prog" where
  "get_metrics = gets metrics"

definition reset_metrics :: "('z, unit) telemetry_prog" where
  "reset_metrics = modify_metrics (\<lambda>_. metrics_default)"

definition is_healthy :: "('z, bool) telemetry_prog" where
  "is_healthy = gets (\<lambda>s.
     let m = metrics s;
         drop_rate = (if 0 < im_total_received m
                      then f64_divide (f64_of_int (int (im_total_dropped m))) (f64_of_int (int (im_total_received m)))
                      else Fin 0) in
     f64_less drop_rate (f64_of_rat (5 / 100)) \<and> im_current_queue_size m < channel_capacity s * 9 div 10)"

subsection \<open>\<open>TelemetryProcessor\<close>\<close>

definition json_of_f64 :: "f64 \<Rightarrow> json" where
  "json_of_f64 x = (case x of Fin r \<Rightarrow> JFloat r | _ \<Rightarrow> JNull)"

definition json_of_u64 :: "64 word \<Rightarrow> json" where
  "json_of_u64 n = JInt (uint n)"

definition gib :: rat where
  "gib = 1073741824"

primrec dec_sum :: "'d decimal_ops_scheme \<Rightarrow> rat \<Rightarrow> rat list \<Rightarrow> rat" where
  "dec_sum D acc [] = acc"
| "dec_sum D acc (x # xs) = dec_sum D (dec_add D acc x) xs"

definition usage_of_message :: "'d telemetry_ops_scheme \<Rightarrow> telemetry_data \<Rightarrow> usage_metrics" where
  "usage_of_message D data =
     (case td_resource_usage data of
        Some u \<Rightarrow>
          \<lparr>gpu_hours = dec_sum D 0 (map (\<lambda>g. unwrap_or (dec_from_f64 D (f64_divide (gu_utilization_percent g) (Fin 100))) 0)
             (ru_gpu_usage u)),
           cpu_hours = unwrap_or (dec_from_f64 D (f64_divide (ru_cpu_percent u) (Fin 100))) 0,
           memory_gb_hours = dec_div D (of_int (uint (ru_memory_mb u))) 1024,
           storage_gb_hours = 0,
           network_gb = dec_div D (of_int (uint (ru_network_rx_bytes u + ru_network_tx_bytes u))) gib,
           disk_io_gb = dec_div D (of_int (uint (ru_disk_read_bytes u + ru_disk_write_bytes u))) gib\<rparr>
      | None \<Rightarrow> usage_zero)"

definition gpu_metrics_json :: "resource_usage \<Rightarrow> json" where
  "gpu_metrics_json u = JObj [(''gpu_count'', JInt (int (length (ru_gpu_usage u)))),
     (''utilization'', JArr (map (\<lambda>g. json_of_f64 (gu_utilization_percent g)) (ru_gpu_usage u))),
     (''memory_used'', JArr (map (\<lambda>g. json_of_u64 (gu_memory_used_mb g)) (ru_gpu_usage u)))]"

definition telemetry_json :: "'d telemetry_ops_scheme \<Rightarrow> telemetry_data \<Rightarrow> json" where
  "telemetry_json D data =
     (let u64 = (\<lambda>f. case td_resource_usage data of Some u \<Rightarrow> json_of_u64 (f u) | None \<Rightarrow> JInt 0) in
      JObj [(''cpu_percent'', case dec_to_f64 D (cpu_hours (usage_of_message D data)) of Some x \<Rightarrow> JFloat x | None \<Rightarrow> JNull),
            (''memory_mb'', u64 ru_memory_mb),
            (''network_rx_bytes'', u64 ru_network_rx_bytes),
            (''network_tx_bytes'', u64 ru_network_tx_bytes),
            (''disk_read_bytes'', u64 ru_disk_read_bytes),
            (''disk_write_bytes'', u64 ru_disk_write_bytes),
            (''gpu_metrics'', case td_resource_usage data of Some u \<Rightarrow> gpu_metrics_json u | None \<Rightarrow> JNull),
            (''custom_metrics'', JObj (map (\<lambda>(k, x). (k, json_of_f64 x)) (td_custom_metrics data)))])"

definition process_telemetry :: "'d telemetry_ops_scheme \<Rightarrow> telemetry_data \<Rightarrow> ('z, unit) telemetry_prog" where
  "process_telemetry D data =
     andthen (ok_or (ValidationError ''rental_id'' ''Invalid rental ID'') (parse_uuid D (td_rental_id data))) (\<lambda>rental_id.
     andthen (map_err (\<lambda>_. ValidationError ''rental_id'' ''Failed to fetch rental'') (sql_get_rental D rental_id)) (\<lambda>found.
     andthen (ok_or (ValidationError ''rental_id'' ''Rental not found'') found) (\<lambda>rental.
     andthen uuid_new_v4 (\<lambda>event_id.
     andthen utc_now (\<lambda>now.
     andthen (map_err (\<lambda>_. TelemetryError) (es_append_usage_event
        \<lparr>ue_id = event_id, ue_rental = rental_id, ue_user = rn_user_id rental, ue_executor = td_executor_id data,
         ue_validator = rn_validator_id rental, ue_type = Telemetry, ue_data = telemetry_json D data,
         ue_timestamp = now, ue_processed = False, ue_processed_at = None, ue_batch = None\<rparr>)) (\<lambda>_.
       ok ()))))))"

primrec process_telemetry_batch ::
  "'d telemetry_ops_scheme \<Rightarrow> telemetry_data list \<Rightarrow> ('z, (billing_error + unit) list) telemetry_prog" where
  "process_telemetry_batch D [] = ok []"
| "process_telemetry_batch D (d # ds) =
     andthen (attempt (process_telemetry D d)) (\<lambda>r.
     andthen (process_telemetry_batch D ds) (\<lambda>rs. ok (r # rs)))"

fun json_as_f64 :: "json \<Rightarrow> rat option" where
  "json_as_f64 (JInt i) = (case f64_of_int i of Fin x \<Rightarrow> Some x | _ \<Rightarrow> None)"
| "json_as_f64 (JFloat x) = Some x"
| "json_as_f64 _ = None"

definition f64_key :: "json \<Rightarrow> string \<Rightarrow> rat option" where
  "f64_key j k = Option.bind (json_get j k) json_as_f64"

definition metrics_step :: "'d telemetry_ops_scheme \<Rightarrow> usage_metrics \<Rightarrow> billing_event_row \<Rightarrow> usage_metrics" where
  "metrics_step D acc ev =
     (if be_type ev = ''telemetry_update'' then
        let part = (\<lambda>k. unwrap_or (dec_from_f64 D (Fin (unwrap_or (f64_key (be_data ev) k) 0))) 0) in
        acc\<lparr>cpu_hours := dec_add D (cpu_hours acc) (part ''cpu_percent''),
              memory_gb_hours := dec_add D (memory_gb_hours acc) (part ''memory_gb''),
              gpu_hours := dec_add D (gpu_hours acc) (part ''gpu_hours''),
              network_gb := dec_add D (network_gb acc) (part ''network_gb'')\<rparr>
      else acc)"

definition get_rental_metrics :: "'d telemetry_ops_scheme \<Rightarrow> rental_id \<Rightarrow> ('z, usage_metrics) telemetry_prog" where
  "get_rental_metrics D rental_id =
     andthen (map_err (\<lambda>_. EventStoreError ''Failed to get events for rental'')
        (es_get_events_by_entity (show_uuid D rental_id) None)) (\<lambda>events.
       ok (foldl (metrics_step D) usage_zero events))"

text \<open>\<open>telemetry_consumer_loop\<close>: each message that is received is processed, and a failure is only logged.\<close>

definition consume_one :: "'d telemetry_ops_scheme \<Rightarrow> ('z, unit) telemetry_prog" where
  "consume_one D =
     andthen (gets channel) (\<lambda>q.
       case q of
         [] \<Rightarrow> ok ()
       | d # ds \<Rightarrow>
           andthen (modify (channel_update (\<lambda>_. ds))) (\<lambda>_.
           andthen (attempt (process_telemetry D d)) (\<lambda>_ :: billing_error + unit. ok ())))"

subsection \<open>\<open>SqlUsageRepository\<close>\<close>

text \<open>\<open>(event_data->>'k')::decimal\<close>: an absent key is \<open>NULL\<close>, a value that is no number is an error.\<close>

definition numeric_key :: "'d telemetry_ops_scheme \<Rightarrow> json \<Rightarrow> string \<Rightarrow> rat option option" where
  "numeric_key D j k =
     (case json_get j k of
        None \<Rightarrow> Some None
      | Some JNull \<Rightarrow> Some None
      | Some (JInt i) \<Rightarrow> Some (Some (of_int i))
      | Some (JFloat x) \<Rightarrow> Some (Some (f64_numeric D x))
      | Some (JStr t) \<Rightarrow> map_option Some (numeric_in D t)
      | Some _ \<Rightarrow> None)"

text \<open>\<open>COALESCE(SUM(...), 0)\<close>.\<close>

fun numeric_sum :: "'d telemetry_ops_scheme \<Rightarrow> string \<Rightarrow> json list \<Rightarrow> rat option" where
  "numeric_sum D k [] = Some 0"
| "numeric_sum D k (j # js) =
     (case (numeric_key D j k, numeric_sum D k js) of
        (Some x, Some y) \<Rightarrow> Some (unwrap_or x 0 + y)
      | _ \<Rightarrow> None)"

definition sql_get_usage_for_rental ::
  "'d telemetry_ops_scheme \<Rightarrow> rental_id \<Rightarrow> ('z, usage_metrics) telemetry_prog" where
  "sql_get_usage_for_rental D rental_id =
     sql (DatabaseError ''get_usage_for_rental'') (andthen (gets usage_events) (\<lambda>rs.
       let js = map uer_data (rows_where (\<lambda>r. uer_rental r = rental_id \<and> uer_type r = ''telemetry'') rs);
           sum_of = (\<lambda>k. map_option (dec_of_numeric D) (numeric_sum D k js)) in
       case (sum_of ''gpu_hours'', sum_of ''cpu_hours'', sum_of ''memory_gb_hours'', sum_of ''storage_gb_hours'', sum_of ''network_gb'') of
         (Some g, Some c, Some m, Some st, Some n) \<Rightarrow>
           ok \<lparr>gpu_hours = g, cpu_hours = c, memory_gb_hours = m, storage_gb_hours = st, network_gb = n, disk_io_gb = 0\<rparr>
       | _ \<Rightarrow> fail (DatabaseError ''get_usage_for_rental'')))"

definition hour_of :: "time \<Rightarrow> int" where
  "hour_of t = t div 3600000000000 mod 24"

definition day_start_secs :: "time \<Rightarrow> int" where
  "day_start_secs t = t div 86400000000000 * 86400"

definition aggregation_key :: "usage_aggregation \<Rightarrow> uuid \<times> int \<times> int" where
  "aggregation_key a = (ua_rental a, ua_hour_key a, ua_date_key a)"

definition upsert_aggregation ::
  "billing_error \<Rightarrow> usage_aggregation \<Rightarrow> (usage_aggregation \<Rightarrow> usage_aggregation) \<Rightarrow> ('z, unit) telemetry_prog" where
  "upsert_aggregation e new upd =
     andthen (gets usage_aggregations) (\<lambda>table.
       case table of
         None \<Rightarrow> fail e
       | Some rows \<Rightarrow>
           modify (usage_aggregations_update (\<lambda>_. Some
             (if row_of aggregation_key (aggregation_key new) rows = None then rows @ [new]
              else update_where (\<lambda>a. aggregation_key a = aggregation_key new) upd rows))))"

definition sql_initialize_rental ::
  "'d telemetry_ops_scheme \<Rightarrow> rental_id \<Rightarrow> user_id \<Rightarrow> ('z, unit) telemetry_prog" where
  "sql_initialize_rental D rental_id user_id =
     andthen (ok_or (ValidationError ''user_id'' ''invalid uuid'') (parse_uuid D user_id)) (\<lambda>u.
       sql (DatabaseError ''initialize_rental'') (andthen db_now (\<lambda>now.
         upsert_aggregation (DatabaseError ''initialize_rental'')
           \<lparr>ua_rental = rental_id, ua_user = u, ua_hour_key = hour_of now, ua_date_key = day_start_secs now,
            ua_cpu_usage_avg = 0, ua_memory_usage_avg_gb = 0, ua_gpu_usage_avg = 0, ua_network_ingress_gb = 0,
            ua_network_egress_gb = 0, ua_disk_read_gb = 0, ua_disk_write_gb = 0, ua_cost_for_period = 0,
            ua_data_points_count = 0\<rparr> (\<lambda>a. a))))"

definition mean_with :: "rat \<Rightarrow> int \<Rightarrow> rat \<Rightarrow> rat" where
  "mean_with old n new = (old * of_int n + new) / of_int (n + 1)"

definition sql_update_usage ::
  "'d telemetry_ops_scheme \<Rightarrow> rental_id \<Rightarrow> user_id \<Rightarrow> usage_metrics \<Rightarrow> credit_balance \<Rightarrow> ('z, unit) telemetry_prog" where
  "sql_update_usage D rental_id user_id m cost =
     andthen utc_now (\<lambda>t1.
     andthen utc_now (\<lambda>t2.
     andthen (ok_or (ValidationError ''user_id'' ''invalid uuid'') (parse_uuid D user_id)) (\<lambda>u.
       let net = dec_div D (network_gb m) 2; disk = dec_div D (disk_io_gb m) 2 in
       sql (DatabaseError ''update_usage'')
         (upsert_aggregation (DatabaseError ''update_usage'')
           \<lparr>ua_rental = rental_id, ua_user = u, ua_hour_key = hour_of t1, ua_date_key = day_start_secs t2,
            ua_cpu_usage_avg = cpu_hours m, ua_memory_usage_avg_gb = memory_gb_hours m,
            ua_gpu_usage_avg = gpu_hours m, ua_network_ingress_gb = net, ua_network_egress_gb = net,
            ua_disk_read_gb = disk, ua_disk_write_gb = disk, ua_cost_for_period = cost,
            ua_data_points_count = 1\<rparr>
           (\<lambda>a. let n = ua_data_points_count a in
              a\<lparr>ua_cpu_usage_avg := mean_with (ua_cpu_usage_avg a) n (cpu_hours m),
                ua_memory_usage_avg_gb := mean_with (ua_memory_usage_avg_gb a) n (memory_gb_hours m),
                ua_gpu_usage_avg := mean_with (ua_gpu_usage_avg a) n (gpu_hours m),
                ua_network_ingress_gb := ua_network_ingress_gb a + net,
                ua_network_egress_gb := ua_network_egress_gb a + net,
                ua_disk_read_gb := ua_disk_read_gb a + disk,
                ua_disk_write_gb := ua_disk_write_gb a + disk,
                ua_cost_for_period := ua_cost_for_period a + cost,
                ua_data_points_count := n + 1\<rparr>)))))"

subsection \<open>What the platform promises\<close>

locale telemetry_platform = billing_platform D
  for D :: "'z telemetry_ops_scheme" +
  assumes dec_of_numeric_exact: "dec6 x \<Longrightarrow> \<bar>x\<bar> \<le> dec6_max \<Longrightarrow> dec_of_numeric D x = x"

definition demo_ops :: telemetry_ops where
  "demo_ops = billing_ops.extend bankers_pg
     \<lparr>dec_from_f64 = (\<lambda>x. case x of Fin r \<Rightarrow> Some r | _ \<Rightarrow> None), dec_from_f64_retain = (\<lambda>x. case x of Fin r \<Rightarrow> Some r | _ \<Rightarrow> None),
      dec_to_f64 = (\<lambda>x. Some (f64_round x)),
      dec_of_json = (\<lambda>j. case j of JInt i \<Rightarrow> Some (of_int i) | JFloat x \<Rightarrow> Some x | JStr t \<Rightarrow> parse_rat t | _ \<Rightarrow> None),
      time_of_json = (\<lambda>j. case j of JStr t \<Rightarrow> map_option (\<lambda>r. \<lfloor>r\<rfloor>) (parse_rat t) | _ \<Rightarrow> None),
      show_time = (\<lambda>t. show_rat (of_int t)), numeric_in = parse_rat, f64_numeric = (\<lambda>x. x), dec_of_numeric = (\<lambda>x. x)\<rparr>"

lemma demo_ops_platform: "billing_platform demo_ops"
  using bankers_pg.billing_platform_axioms
  unfolding billing_platform_def billing_platform_axioms_def rust_decimal_def demo_ops_def
  by (simp add: billing_ops.defs)

lemma demo_ops_simps [simp]:
  "dec_add demo_ops = dec_add bankers" "dec_sub demo_ops = dec_sub bankers" "dec_mul demo_ops = dec_mul bankers"
  "dec_div demo_ops = dec_div bankers" "dec_round demo_ops = dec_round bankers" "pg_numeric demo_ops = numeric_round"
  "parse_uuid demo_ops = parse_id" "show_uuid demo_ops = show_id" "parse_dec demo_ops = parse_rat"
  "show_dec demo_ops = show_rat" "resource_to_json demo_ops = spec_to_json" "resource_of_json demo_ops = spec_of_json"
  "metadata_to_json demo_ops = strings_to_json" "metadata_of_json demo_ops = strings_of_json"
  by (simp_all add: demo_ops_def billing_ops.defs bankers_pg_def bankers_def decimal_ops.defs)

interpretation demo_ops: telemetry_platform demo_ops
  by (rule telemetry_platform.intro [OF demo_ops_platform]) (unfold_locales, simp add: demo_ops_def billing_ops.defs)

subsection \<open>The counters of the ingester\<close>

definition metrics_ok :: "'z telemetry_db_scheme \<Rightarrow> bool" where
  "metrics_ok s \<longleftrightarrow> im_total_processed (metrics s) + im_total_dropped (metrics s) \<le> im_total_received (metrics s) \<and>
     length (channel s) \<le> channel_capacity s"

lemma ingest_spec:
  assumes "metrics_ok s" "ingest d s = (r, t)"
  shows "metrics_ok t \<and> im_total_received (metrics t) = im_total_received (metrics s) + 1 \<and>
    (r = Inr () \<longrightarrow> im_total_processed (metrics t) = im_total_processed (metrics s) + 1 \<and>
       im_total_dropped (metrics t) = im_total_dropped (metrics s) \<and> (\<exists>k. channel t = drop k (channel s) @ [d])) \<and>
    (r \<noteq> Inr () \<longrightarrow> r = Inl TelemetryError \<and> im_total_processed (metrics t) = im_total_processed (metrics s) \<and>
       channel t = channel s)"
proof -
  have "\<exists>k. q @ [d] = drop k q @ [d]" for q by (intro exI [of _ 0]) simp
  with assms show ?thesis
    by (auto simp: ingest_def modify_metrics_def metrics_ok_def attempt_def andthen_def send_timeout_def
        split: if_splits option.splits)
qed

subsection \<open>Usage from telemetry\<close>

text \<open>The keys that the usage of a rental is summed from.\<close>

definition usage_keys :: "string list" where
  "usage_keys = [''gpu_hours'', ''cpu_hours'', ''memory_gb_hours'', ''storage_gb_hours'', ''network_gb'']"

definition no_usage_keys :: "usage_event_row \<Rightarrow> bool" where
  "no_usage_keys r \<longleftrightarrow> uer_type r = ''telemetry'' \<longrightarrow> list_all (\<lambda>k. json_get (uer_data r) k = None) usage_keys"

lemma telemetry_json_no_usage_keys: "list_all (\<lambda>k. json_get (telemetry_json D d) k = None) usage_keys"
  by (simp add: telemetry_json_def usage_keys_def Let_def)

lemma numeric_sum_absent: "list_all (\<lambda>j. json_get j k = None) js \<Longrightarrow> numeric_sum D k js = Some 0"
  by (induction js) (simp_all add: numeric_key_def unwrap_or_def)

context telemetry_platform
begin

lemma usage_for_rental_zero:
  assumes "list_all no_usage_keys (usage_events s)" "sql_get_usage_for_rental D i s = (Inr m, t)"
  shows "m = usage_zero"
proof -
  let ?js = "map uer_data (rows_where (\<lambda>r. uer_rental r = i \<and> uer_type r = ''telemetry'') (usage_events s))"
  have "numeric_sum D k ?js = Some 0" if "k \<in> set usage_keys" for k
    using assms(1) that by (intro numeric_sum_absent) (auto simp: list_all_iff no_usage_keys_def rows_where_def)
  then have "numeric_sum D ''gpu_hours'' ?js = Some 0" "numeric_sum D ''cpu_hours'' ?js = Some 0"
    "numeric_sum D ''memory_gb_hours'' ?js = Some 0" "numeric_sum D ''storage_gb_hours'' ?js = Some 0"
    "numeric_sum D ''network_gb'' ?js = Some 0"
    by (simp_all add: usage_keys_def)
  moreover have "dec_of_numeric D 0 = 0" by (rule dec_of_numeric_exact) (simp_all add: dec6_max_def)
  ultimately show ?thesis
    using assms(2) by (auto simp: sql_get_usage_for_rental_def sql_def Let_def usage_zero_def split: outcome.splits)
qed

end

end
