(* ===== verification/Event_Handlers.thy ===== *)
theory Event_Handlers
  imports Telemetry
begin

section \<open>Billing: event handlers and the event processor\<close>

text \<open>
  \<open>domain/billing_handlers.rs\<close> (\<open>BillingEventHandlers\<close>: what each kind of usage event does to rentals, credits, usage and
  the audit trail) and \<open>domain/processor.rs\<close> (\<open>EventProcessor\<close>: unprocessed events are handled in batches). The handlers
  work on the SQL repositories of the other theories; the processor takes them as a record, the trait
  \<open>EventHandlers\<close>.

  Lemmas: an event is marked processed only if its handler succeeded, under every fault; the cost charged at the end of
  a rental is one hour whatever its telemetry says; a telemetry event of an active rental is never processed on the
  migrations' tables; a status event moves a rental to any state.
\<close>

subsection \<open>Readings\<close>

record telemetry_reading =
  tr_cpu_percent :: "rat option"
  tr_memory_mb :: "64 word option"
  tr_network_rx_bytes :: "64 word option"
  tr_network_tx_bytes :: "64 word option"
  tr_disk_read_bytes :: "64 word option"
  tr_disk_write_bytes :: "64 word option"
  tr_gpu_metrics :: "json option"
  tr_custom_metrics :: "json option"

definition u64_key :: "json \<Rightarrow> string \<Rightarrow> 64 word option" where
  "u64_key j k = map_option word_of_nat (Option.bind (json_get j k) json_as_nat)"

definition parse_telemetry_data :: "'d telemetry_ops_scheme \<Rightarrow> json \<Rightarrow> telemetry_reading" where
  "parse_telemetry_data D j =
     \<lparr>tr_cpu_percent = map_option (\<lambda>v. unwrap_or (dec_from_f64_retain D (Fin v)) 0) (f64_key j ''cpu_percent''),
      tr_memory_mb = u64_key j ''memory_mb'',
      tr_network_rx_bytes = u64_key j ''network_rx_bytes'', tr_network_tx_bytes = u64_key j ''network_tx_bytes'',
      tr_disk_read_bytes = u64_key j ''disk_read_bytes'', tr_disk_write_bytes = u64_key j ''disk_write_bytes'',
      tr_gpu_metrics = json_get j ''gpu_metrics'', tr_custom_metrics = json_get j ''custom_metrics''\<rparr>"

definition whole_gib :: "64 word option \<Rightarrow> 64 word option \<Rightarrow> rat" where
  "whole_gib a b = of_int (uint (unwrap_or a 0 + unwrap_or b 0) div 1073741824)"

definition telemetry_to_usage_metrics :: "'d telemetry_ops_scheme \<Rightarrow> telemetry_reading \<Rightarrow> usage_metrics" where
  "telemetry_to_usage_metrics D t =
     \<lparr>gpu_hours = unwrap_or
        (map_option (\<lambda>v. unwrap_or (dec_from_f64_retain D (f64_divide (Fin v) (Fin 100))) 0)
          (Option.bind (tr_gpu_metrics t) (\<lambda>m. f64_key m ''utilization''))) 1,
      cpu_hours = dec_div D (unwrap_or (tr_cpu_percent t) 0) 100,
      memory_gb_hours = unwrap_or (map_option (\<lambda>mb. dec_div D (of_int (uint mb)) 1024) (tr_memory_mb t)) 0,
      storage_gb_hours = 0,
      network_gb = whole_gib (tr_network_rx_bytes t) (tr_network_tx_bytes t),
      disk_io_gb = whole_gib (tr_disk_read_bytes t) (tr_disk_write_bytes t)\<rparr>"

text \<open>The JSON forms that \<open>serde\<close> derives, with decimals as strings.\<close>

definition dec_json :: "'d billing_ops_scheme \<Rightarrow> rat \<Rightarrow> json" where
  "dec_json D x = JStr (show_dec D x)"

definition usage_metrics_json :: "'d billing_ops_scheme \<Rightarrow> usage_metrics \<Rightarrow> json" where
  "usage_metrics_json D m =
     JObj [(''gpu_hours'', dec_json D (gpu_hours m)), (''cpu_hours'', dec_json D (cpu_hours m)),
       (''memory_gb_hours'', dec_json D (memory_gb_hours m)), (''storage_gb_hours'', dec_json D (storage_gb_hours m)),
       (''network_gb'', dec_json D (network_gb m)), (''disk_io_gb'', dec_json D (disk_io_gb m))]"

definition opt_json :: "('a \<Rightarrow> json) \<Rightarrow> 'a option \<Rightarrow> json" where
  "opt_json f x = (case x of None \<Rightarrow> JNull | Some y \<Rightarrow> f y)"

definition time_json :: "'d telemetry_ops_scheme \<Rightarrow> time \<Rightarrow> json" where
  "time_json D t = JStr (show_time D t)"

text \<open>A field of type \<open>Option<T>\<close>: absent or \<open>null\<close> is \<open>None\<close>, anything else must be a \<open>T\<close>.\<close>

definition opt_field :: "(json \<Rightarrow> 'a option) \<Rightarrow> json \<Rightarrow> string \<Rightarrow> 'a option option" where
  "opt_field f j k =
     (case json_get j k of None \<Rightarrow> Some None | Some JNull \<Rightarrow> Some None | Some v \<Rightarrow> map_option Some (f v))"

definition req_field :: "(json \<Rightarrow> 'a option) \<Rightarrow> json \<Rightarrow> string \<Rightarrow> 'a option" where
  "req_field f j k = Option.bind (json_get j k) f"

record status_change_data =
  sc_old_status :: string
  sc_new_status :: string
  sc_reason :: "string option"

definition parse_status_change :: "json \<Rightarrow> status_change_data option" where
  "parse_status_change j =
     (case (req_field json_as_str j ''old_status'', req_field json_as_str j ''new_status'', opt_field json_as_str j ''reason'') of
        (Some a, Some b, Some c) \<Rightarrow> Some \<lparr>sc_old_status = a, sc_new_status = b, sc_reason = c\<rparr>
      | _ \<Rightarrow> None)"

record cost_update_data =
  cu_total_cost :: rat
  cu_hourly_rate :: "rat option"
  cu_duration_hours :: "rat option"

definition parse_cost_update :: "'d telemetry_ops_scheme \<Rightarrow> json \<Rightarrow> cost_update_data option" where
  "parse_cost_update D j =
     (case (req_field (dec_of_json D) j ''total_cost'', opt_field (dec_of_json D) j ''hourly_rate'',
            opt_field (dec_of_json D) j ''duration_hours'') of
        (Some a, Some b, Some c) \<Rightarrow> Some \<lparr>cu_total_cost = a, cu_hourly_rate = b, cu_duration_hours = c\<rparr>
      | _ \<Rightarrow> None)"

record rental_end_data =
  rd_end_time :: time
  rd_final_cost :: rat
  rd_termination_reason :: "string option"

definition parse_rental_end :: "'d telemetry_ops_scheme \<Rightarrow> json \<Rightarrow> rental_end_data option" where
  "parse_rental_end D j =
     (case (req_field (time_of_json D) j ''end_time'', req_field (dec_of_json D) j ''final_cost'',
            opt_field json_as_str j ''termination_reason'') of
        (Some a, Some b, Some c) \<Rightarrow> Some \<lparr>rd_end_time = a, rd_final_cost = b, rd_termination_reason = c\<rparr>
      | _ \<Rightarrow> None)"

subsection \<open>\<open>BillingEventHandlers\<close>\<close>

definition record_billing_event ::
  "string \<Rightarrow> string \<Rightarrow> uuid option \<Rightarrow> json \<Rightarrow> ('z, unit) telemetry_prog" where
  "record_billing_event event_type entity_id user_id event_data =
     andthen uuid_new_v4 (\<lambda>event_id.
     andthen utc_now (\<lambda>now.
     andthen (sql_append_billing_event \<lparr>be_id = event_id, be_type = event_type, be_entity_type = ''rental'',
        be_entity_id = entity_id, be_user = user_id, be_data = event_data, be_metadata = None,
        be_created_by = ''billing_handler'', be_created_at = now\<rparr>) (\<lambda>_. ok ())))"

definition find_rental :: "'d billing_ops_scheme \<Rightarrow> rental_id \<Rightarrow> ('z, rental) telemetry_prog" where
  "find_rental D i = andthen (sql_get_rental D i) (ok_or (RentalNotFound i))"

definition process_telemetry_event :: "'d telemetry_ops_scheme \<Rightarrow> usage_event \<Rightarrow> ('z, unit) telemetry_prog" where
  "process_telemetry_event D ev =
     (let usage_metrics = telemetry_to_usage_metrics D (parse_telemetry_data D (ue_data ev)); rental_id = ue_rental ev in
      andthen (find_rental D rental_id) (\<lambda>rental.
        if rn_state rental \<noteq> Active then ok ()
        else
          andthen (sql_get_package D (rn_package_id rental)) (\<lambda>package.
            let cost_breakdown = calculate_cost D package usage_metrics in
            andthen (sql_update_usage D rental_id (ue_user ev) usage_metrics (total_cost cost_breakdown)) (\<lambda>_.
              record_billing_event ''telemetry_processed'' (show_uuid D rental_id) (parse_uuid D (rn_user_id rental))
                (JObj [(''usage_metrics'', usage_metrics_json D usage_metrics),
                       (''cost'', JStr (show_dec D (total_cost cost_breakdown))),
                       (''timestamp'', time_json D (ue_timestamp ev))])))))"

definition parse_new_status :: "string \<Rightarrow> rental_state option" where
  "parse_new_status s =
     (if s = ''pending'' then Some Pending
      else if s = ''active'' then Some Active
      else if s = ''completed'' then Some Completed
      else if s = ''failed'' then Some Failed
      else None)"

text \<open>The end of an active rental inside \<open>process_status_change\<close>: usage, cost, charge, release.\<close>

definition settle_rental :: "'d telemetry_ops_scheme \<Rightarrow> rental \<Rightarrow> ('z, rental) telemetry_prog" where
  "settle_rental D rental =
     andthen utc_now (\<lambda>now.
     andthen (sql_get_usage_for_rental D (rn_id rental)) (\<lambda>usage.
     andthen (sql_get_package D (rn_package_id rental)) (\<lambda>package.
       let final_cost = total_cost (calculate_cost D package usage) in
       andthen (attempt (sql_deduct_credits D (rn_user_id rental) final_cost)) (\<lambda>_ :: billing_error + unit.
       andthen (case rn_reservation_id rental of
                  Some reservation_id \<Rightarrow> andthen (attempt (sql_release_reservation reservation_id)) (\<lambda>_ :: billing_error + unit. ok ())
                | None \<Rightarrow> ok ()) (\<lambda>_.
         ok (rental\<lparr>rn_actual_end_time := Some now, rn_actual_cost := final_cost\<rparr>))))))"

text \<open>The \<open>match\<close> on the old and the new state.\<close>

definition enter_state :: "'d telemetry_ops_scheme \<Rightarrow> rental \<Rightarrow> rental_state \<Rightarrow> ('z, rental) telemetry_prog" where
  "enter_state D rental new_state =
     (let old_state = rn_state rental; rental = rental\<lparr>rn_state := new_state\<rparr> in
      if old_state = Pending \<and> new_state = Active
      then andthen utc_now (\<lambda>now. ok (rental\<lparr>rn_actual_start_time := Some now\<rparr>))
      else if old_state = Active \<and> (new_state = Completed \<or> new_state = Failed) then settle_rental D rental
      else ok rental)"

definition process_status_change :: "'d telemetry_ops_scheme \<Rightarrow> usage_event \<Rightarrow> ('z, unit) telemetry_prog" where
  "process_status_change D ev =
     andthen (ok_or (ValidationError ''event_data'' ''Invalid status change data'') (parse_status_change (ue_data ev))) (\<lambda>status_data.
     andthen (find_rental D (ue_rental ev)) (\<lambda>rental.
       case parse_new_status (sc_new_status status_data) of
         None \<Rightarrow> ok ()
       | Some new_state \<Rightarrow>
           andthen (enter_state D rental new_state) (\<lambda>rental.
           andthen (sql_update_rental D rental) (\<lambda>_.
             record_billing_event ''status_changed'' (show_uuid D (ue_rental ev)) (parse_uuid D (rn_user_id rental))
               (JObj [(''old_status'', JStr (sc_old_status status_data)), (''new_status'', JStr (sc_new_status status_data)),
                      (''reason'', opt_json JStr (sc_reason status_data)),
                      (''timestamp'', time_json D (ue_timestamp ev))])))))"

definition process_cost_update :: "'d telemetry_ops_scheme \<Rightarrow> usage_event \<Rightarrow> ('z, unit) telemetry_prog" where
  "process_cost_update D ev =
     andthen (ok_or (ValidationError ''event_data'' ''Invalid cost update data'') (parse_cost_update D (ue_data ev))) (\<lambda>cost_data.
     andthen (find_rental D (ue_rental ev)) (\<lambda>rental.
     andthen (sql_update_rental D (rental\<lparr>rn_actual_cost := from_decimal D (cu_total_cost cost_data)\<rparr>)) (\<lambda>_.
       record_billing_event ''cost_updated'' (show_uuid D (ue_rental ev)) (parse_uuid D (rn_user_id rental))
         (JObj [(''total_cost'', dec_json D (cu_total_cost cost_data)),
                (''hourly_rate'', opt_json (dec_json D) (cu_hourly_rate cost_data)),
                (''duration_hours'', opt_json (dec_json D) (cu_duration_hours cost_data)),
                (''timestamp'', time_json D (ue_timestamp ev))]))))"

definition start_resource_spec :: resource_spec where
  "start_resource_spec = \<lparr>rs_gpu_specs = [], rs_cpu_cores = 1, rs_memory_gb = 1, rs_storage_gb = 10, rs_disk_iops = 1000,
     rs_network_bandwidth_mbps = 100\<rparr>"

definition one_gpu_hour :: usage_metrics where
  "one_gpu_hour = usage_zero\<lparr>gpu_hours := 1\<rparr>"

definition start_new_rental :: "'d telemetry_ops_scheme \<Rightarrow> usage_event \<Rightarrow> ('z, unit) telemetry_prog" where
  "start_new_rental D ev =
     (let rental_id = ue_rental ev; user_id = ue_user ev;
          package_id = unwrap_or (Option.bind (json_get (ue_data ev) ''package_id'') json_as_str) package_h100 in
      andthen (sql_get_package D package_id) (\<lambda>package.
        let estimated_cost = total_cost (calculate_cost D package one_gpu_hour) in
        andthen (sql_reserve_credits D user_id estimated_cost rental_id) (\<lambda>reservation.
        andthen (rental_new user_id (ue_executor ev) (ue_validator ev) package_id start_resource_spec
                   (Some (res_id reservation))) (\<lambda>rental.
        andthen utc_now (\<lambda>now.
          let rental = rental\<lparr>rn_id := rental_id, rn_state := Active, rn_actual_start_time := Some now\<rparr> in
          andthen (sql_create_rental D rental) (\<lambda>_.
          andthen (sql_initialize_rental D rental_id user_id) (\<lambda>_.
            record_billing_event ''rental_started'' (show_uuid D rental_id) (parse_uuid D user_id)
              (JObj [(''package_id'', JStr package_id), (''executor_id'', JStr (ue_executor ev)),
                     (''validator_id'', JStr (ue_validator ev)), (''estimated_cost'', JStr (show_dec D estimated_cost)),
                     (''reservation_id'', JStr (show_uuid D (res_id reservation))),
                     (''timestamp'', time_json D (ue_timestamp ev))]))))))))"

definition process_rental_start :: "'d telemetry_ops_scheme \<Rightarrow> usage_event \<Rightarrow> ('z, unit) telemetry_prog" where
  "process_rental_start D ev =
     andthen (attempt (sql_get_rental D (ue_rental ev))) (\<lambda>existing :: billing_error + rental option.
       case existing of
         Inr (Some _) \<Rightarrow> ok ()
       | _ \<Rightarrow> start_new_rental D ev)"

text \<open>\<open>process_rental_end\<close> from the final state on: charge, release, persist, record.\<close>

definition finish_rental ::
  "'d telemetry_ops_scheme \<Rightarrow> usage_event \<Rightarrow> rental_end_data \<Rightarrow> usage_metrics \<Rightarrow> credit_balance \<Rightarrow> rental \<Rightarrow>
     ('z, unit) telemetry_prog" where
  "finish_rental D ev end_data usage computed_cost rental =
     andthen utc_now (\<lambda>now.
       let rental = rental\<lparr>rn_state := (if rd_termination_reason end_data = Some ''failed'' then Failed else Completed),
             rn_actual_end_time := Some now, rn_actual_cost := computed_cost\<rparr>;
           client_provided_cost = from_decimal D (rd_final_cost end_data) in
       andthen (attempt (sql_deduct_credits D (rn_user_id rental) computed_cost)) (\<lambda>charge_result :: billing_error + unit.
       andthen (case rn_reservation_id rental of
                  Some reservation_id \<Rightarrow>
                    andthen (attempt (sql_release_reservation reservation_id)) (\<lambda>_ :: billing_error + unit. ok ())
                | None \<Rightarrow> ok ()) (\<lambda>_.
       andthen (sql_update_rental D rental) (\<lambda>_.
         record_billing_event ''rental_ended'' (show_uuid D (ue_rental ev)) (parse_uuid D (rn_user_id rental))
           (JObj [(''computed_cost'', JStr (show_dec D computed_cost)),
                  (''client_provided_cost'', JStr (show_dec D client_provided_cost)),
                  (''end_time'', time_json D (rd_end_time end_data)),
                  (''termination_reason'', opt_json JStr (rd_termination_reason end_data)),
                  (''usage_metrics'', usage_metrics_json D usage),
                  (''charge_success'', JBool (case charge_result of Inr _ \<Rightarrow> True | Inl _ \<Rightarrow> False)),
                  (''timestamp'', time_json D (ue_timestamp ev))])))))"

definition process_rental_end :: "'d telemetry_ops_scheme \<Rightarrow> usage_event \<Rightarrow> ('z, unit) telemetry_prog" where
  "process_rental_end D ev =
     andthen (ok_or (ValidationError ''event_data'' ''Invalid rental end data'') (parse_rental_end D (ue_data ev))) (\<lambda>end_data.
     andthen (find_rental D (ue_rental ev)) (\<lambda>rental.
       if rn_state rental = Completed \<or> rn_state rental = Failed then ok ()
       else
         andthen (sql_get_usage_for_rental D (ue_rental ev)) (\<lambda>usage.
         andthen (sql_get_package D (rn_package_id rental)) (\<lambda>package.
           finish_rental D ev end_data usage (total_cost (calculate_cost D package usage)) rental))))"

definition process_resource_update :: "'d telemetry_ops_scheme \<Rightarrow> usage_event \<Rightarrow> ('z, unit) telemetry_prog" where
  "process_resource_update D ev =
     andthen (find_rental D (ue_rental ev)) (\<lambda>rental.
       case json_get (ue_data ev) ''resources'' of
         None \<Rightarrow> ok ()
       | Some resources \<Rightarrow>
           andthen (case Option.bind (json_get resources ''gpu_model'') json_as_str of
                      None \<Rightarrow> ok rental
                    | Some gpu_model \<Rightarrow>
                        andthen (sql_find_package_for_gpu_model D gpu_model) (\<lambda>new_package.
                          ok (if pkg_id new_package \<noteq> rn_package_id rental
                              then rental\<lparr>rn_package_id := pkg_id new_package\<rparr> else rental))) (\<lambda>rental.
           andthen (sql_update_rental D rental) (\<lambda>_.
             record_billing_event ''resource_updated'' (show_uuid D (ue_rental ev)) (parse_uuid D (rn_user_id rental))
               (JObj [(''resources'', resources), (''package_id'', JStr (rn_package_id rental)),
                      (''timestamp'', time_json D (ue_timestamp ev))]))))"

subsection \<open>\<open>EventProcessor\<close>\<close>

record 's event_handlers =
  on_telemetry :: "usage_event \<Rightarrow> ('s, billing_error, unit) prog"
  on_status_change :: "usage_event \<Rightarrow> ('s, billing_error, unit) prog"
  on_cost_update :: "usage_event \<Rightarrow> ('s, billing_error, unit) prog"
  on_rental_start :: "usage_event \<Rightarrow> ('s, billing_error, unit) prog"
  on_rental_end :: "usage_event \<Rightarrow> ('s, billing_error, unit) prog"
  on_resource_update :: "usage_event \<Rightarrow> ('s, billing_error, unit) prog"

definition billing_event_handlers :: "'d telemetry_ops_scheme \<Rightarrow> 'z telemetry_db_scheme event_handlers" where
  "billing_event_handlers D =
     \<lparr>on_telemetry = process_telemetry_event D, on_status_change = process_status_change D,
      on_cost_update = process_cost_update D, on_rental_start = process_rental_start D,
      on_rental_end = process_rental_end D, on_resource_update = process_resource_update D\<rparr>"

record processor_db = telemetry_db +
  is_running :: bool
  current_batch :: "processing_batch option"

type_synonym ('z, 'a) processor_prog = "('z processor_db_scheme, billing_error, 'a) prog"

definition processor_start :: "('z, unit) processor_prog" where
  "processor_start =
     andthen (gets is_running) (\<lambda>running.
       if running then fail (InvalidState ''Event processor is already running'')
       else modify (is_running_update (\<lambda>_. True)))"

definition processor_stop :: "('z, unit) processor_prog" where
  "processor_stop = modify (is_running_update (\<lambda>_. False))"

definition process_single_event :: "'s event_handlers \<Rightarrow> usage_event \<Rightarrow> ('s, billing_error, unit) prog" where
  "process_single_event H ev =
     (case ue_type ev of
        Telemetry \<Rightarrow> on_telemetry H ev
      | StatusChange \<Rightarrow> on_status_change H ev
      | CostUpdate \<Rightarrow> on_cost_update H ev
      | RentalStart \<Rightarrow> on_rental_start H ev
      | RentalEnd \<Rightarrow> on_rental_end H ev
      | ResourceUpdate \<Rightarrow> on_resource_update H ev)"

text \<open>The loop over the events of a batch: the identifiers that were processed, and how many failed.\<close>

primrec process_events ::
  "'s event_handlers \<Rightarrow> uuid list \<Rightarrow> nat \<Rightarrow> usage_event list \<Rightarrow> ('s, billing_error, uuid list \<times> nat) prog" where
  "process_events H processed_ids failed_count [] = ok (processed_ids, failed_count)"
| "process_events H processed_ids failed_count (ev # evs) =
     andthen (attempt (process_single_event H ev)) (\<lambda>r :: billing_error + unit.
       case r of
         Inr _ \<Rightarrow> process_events H (processed_ids @ [ue_id ev]) failed_count evs
       | Inl _ \<Rightarrow> process_events H processed_ids (failed_count + 1) evs)"

definition process_batch ::
  "'z processor_db_scheme event_handlers \<Rightarrow> event_store \<Rightarrow> int option \<Rightarrow> ('z, unit) processor_prog" where
  "process_batch H es batch_size =
     andthen (es_create_batch UsageAggregation) (\<lambda>batch.
     andthen (modify (current_batch_update (\<lambda>_. Some batch))) (\<lambda>_.
     andthen (es_get_unprocessed_events es batch_size) (\<lambda>events.
       if events = [] then ok ()
       else
         andthen (es_update_batch_status (pb_id batch) BatchProcessing (Some (int (length events)))) (\<lambda>_.
         andthen (process_events H [] 0 events) (\<lambda>(processed_ids, failed_count).
         andthen (if processed_ids \<noteq> [] then es_mark_events_processed processed_ids (pb_id batch) else ok ()) (\<lambda>_.
           es_complete_batch (pb_id batch) (int (length processed_ids)) (int failed_count)))))))"

text \<open>One round of \<open>processing_loop\<close>: an error is logged and the loop goes on.\<close>

definition processing_round ::
  "'z processor_db_scheme event_handlers \<Rightarrow> event_store \<Rightarrow> int option \<Rightarrow> ('z, unit) processor_prog" where
  "processing_round H es batch_size =
     andthen (gets is_running) (\<lambda>running.
       if running then andthen (attempt (process_batch H es batch_size)) (\<lambda>_ :: billing_error + unit. ok ()) else ok ())"

definition get_current_batch :: "('z, processing_batch option) processor_prog" where
  "get_current_batch = gets current_batch"

subsection \<open>What the handlers leave alone\<close>

lemmas handler_repo_defs = sql_get_rental_def sql_update_rental_def sql_create_rental_def rental_new_def
  sql_get_package_def cache_get_def load_from_database_def cache_insert_def sql_find_package_for_gpu_model_def
  sql_get_usage_for_rental_def sql_update_usage_def sql_initialize_rental_def upsert_aggregation_def
  sql_deduct_credits_def sql_reserve_credits_def sql_release_reservation_def sql_get_account_def resolve_user_uuid_def
  require_user_uuid_def update_credit_row_def insert_reservation_row_def reservation_new_def db_now_def

lemmas repo_frame_rules = frames_rules frames_case_prod frames_modify_other usage_events_tickless
  insert_billing_event_frames

lemma repo_frames [frames_rules]:
  "frames usage_events (sql_get_rental D i)" "frames usage_events (sql_update_rental D r)"
  "frames usage_events (sql_create_rental D r)" "frames usage_events (rental_new u e v p sp rid)"
  "frames usage_events (sql_get_package D k)" "frames usage_events (sql_find_package_for_gpu_model D g)"
  unfolding handler_repo_defs Let_def by (intro repo_frame_rules; simp)+

lemma usage_frames [frames_rules]:
  "frames usage_events (sql_get_usage_for_rental T i)" "frames usage_events (sql_update_usage T i u m c)"
  "frames usage_events (sql_initialize_rental T i u)"
  unfolding handler_repo_defs Let_def by (intro repo_frame_rules; simp)+

lemma credit_frames [frames_rules]:
  "frames usage_events (sql_deduct_credits D u a)" "frames usage_events (sql_reserve_credits D u a i)"
  "frames usage_events (sql_release_reservation rid)" "frames usage_events (record_billing_event ty k usr j)"
  unfolding handler_repo_defs record_billing_event_def sql_append_billing_event_def Let_def by (intro repo_frame_rules; simp)+

lemma handler_frames:
  "frames usage_events (process_telemetry_event D ev)" "frames usage_events (process_status_change D ev)"
  "frames usage_events (process_cost_update D ev)" "frames usage_events (process_rental_start D ev)"
  "frames usage_events (process_rental_end D ev)" "frames usage_events (process_resource_update D ev)"
  unfolding process_telemetry_event_def process_status_change_def process_cost_update_def process_rental_start_def
    process_rental_end_def finish_rental_def process_resource_update_def find_rental_def enter_state_def settle_rental_def start_new_rental_def Let_def
  by (intro frames_rules usage_events_tickless)+

subsection \<open>Batches\<close>

text \<open>The state in which the handler of the next event runs, when those of \<open>evs\<close> have run from \<open>s\<close>.\<close>

primrec after_events :: "'s event_handlers \<Rightarrow> usage_event list \<Rightarrow> 's \<Rightarrow> 's" where
  "after_events H [] s = s"
| "after_events H (ev # evs) s = after_events H evs (snd (process_single_event H ev s))"

definition handled :: "'s event_handlers \<Rightarrow> usage_event list \<Rightarrow> 's \<Rightarrow> usage_event \<Rightarrow> bool" where
  "handled H evs s ev \<longleftrightarrow> (\<exists>before after t. evs = before @ ev # after \<and> process_single_event H ev (after_events H before s) = (Inr (), t))"

text \<open>All of the state but the clock and what a batch records of itself.\<close>

definition batch_core :: "'z processor_db_scheme \<Rightarrow> 'z processor_db_scheme" where
  "batch_core s = s\<lparr>tick := 0, current_batch := None, processing_batches := []\<rparr>"

lemma batch_core_events: "batch_core s = batch_core t \<Longrightarrow> usage_events s = usage_events t"
  by (drule arg_cong [where f = usage_events]) (simp add: batch_core_def)

text \<open>The log after a batch: some events that were unprocessed and whose handler succeeded are marked.\<close>

definition marked_log :: "'s event_handlers \<Rightarrow> usage_event list \<Rightarrow> 's \<Rightarrow> usage_event_row list \<Rightarrow> usage_event_row list \<Rightarrow> bool" where
  "marked_log H evs u L L' \<longleftrightarrow> (\<exists>ids b now.
     L' = update_where (\<lambda>r. uer_id r \<in> set ids)
       (\<lambda>r. r\<lparr>uer_processed := True, uer_processed_at := Some now, uer_batch := Some b\<rparr>) L \<and>
     (\<forall>i\<in>set ids. \<exists>r\<in>set L. uer_id r = i \<and> \<not> uer_processed r \<and> handled H evs u (event_from_row r)))"

lemma marked_log_refl: "marked_log H evs u L L"
  unfolding marked_log_def by (intro exI [of _ "[]"]) (simp add: update_where_def)

lemma handled_first: "process_single_event H ev s = (Inr (), t) \<Longrightarrow> handled H (ev # evs) s ev"
  unfolding handled_def by (intro exI [of _ "[]"] exI [of _ evs]) simp

lemma handled_later: "handled H evs (snd (process_single_event H ev s)) x \<Longrightarrow> handled H (ev # evs) s x"
  unfolding handled_def by (metis after_events.simps(2) append_Cons)

lemma frames_then:
  assumes "frames v m" "andthen m f s = (r, t)"
  shows "v t = v s \<or> (\<exists>x u. m s = (Inr x, u) \<and> v u = v s \<and> f x u = (r, t))"
  using assms framesD [OF assms(1)] by (auto simp: andthen_def split: prod.splits sum.splits)

lemma unprocessed_rows:
  assumes "es_get_unprocessed_events es n s = (Inr evs, t)" "ev \<in> set evs"
  shows "\<exists>r\<in>set (usage_events s). \<not> uer_processed r \<and> ev = event_from_row r"
  using assms
  by (auto simp: es_get_unprocessed_events_def sql_get_unprocessed_events_def sql_def Let_def rows_where_def
      split: outcome.splits if_splits dest!: in_set_takeD) blast

lemma mark_events_log:
  assumes "es_mark_events_processed ids b s = (r, t)"
  shows "\<exists>now. usage_events t = usage_events s \<or> usage_events t = update_where (\<lambda>r. uer_id r \<in> set ids)
    (\<lambda>r. r\<lparr>uer_processed := True, uer_processed_at := Some now, uer_batch := Some b\<rparr>) (usage_events s)"
  using assms
  by (auto simp: es_mark_events_processed_def sql_mark_events_processed_def sql_def db_now_def split: outcome.splits if_splits)

lemma batch_core_frames:
  "frames batch_core (es_create_batch bt)" "frames batch_core (es_get_unprocessed_events es n)"
  "frames batch_core (es_update_batch_status i st c)"
  by (auto simp: frames_def batch_core_def event_store_defs sql_create_batch_def sql_get_unprocessed_events_def
      sql_update_batch_status_def sql_def Let_def db_now_def andthen_def gets_def modify_def split: outcome.splits if_splits)

lemma complete_batch_frames: "frames usage_events (es_complete_batch i x y)"
  unfolding event_store_defs by (rule event_reads_frame)

text \<open>What the processor relies on: a handler does not touch the log of usage events.\<close>

locale logged_handlers =
  fixes H :: "'z processor_db_scheme event_handlers"
  assumes single_event_frames: "frames usage_events (process_single_event H ev)"
begin

lemma process_events_run:
  "process_events H acc k evs s = (r, t) \<Longrightarrow>
     usage_events t = usage_events s \<and>
     (\<exists>new n. r = Inr (acc @ new, n) \<and> (\<forall>i\<in>set new. \<exists>ev. ue_id ev = i \<and> handled H evs s ev))"
proof (induction evs arbitrary: acc k s)
  case (Cons ev evs)
  obtain x u where first: "process_single_event H ev s = (x, u)" by (cases "process_single_event H ev s")
  then have same: "usage_events u = usage_events s" by (rule framesD [OF single_event_frames])
  show ?case
  proof (cases x)
    case (Inl e)
    with Cons.prems first have "process_events H acc (k + 1) evs u = (r, t)" by (simp add: andthen_def attempt_def)
    from Cons.IH [OF this] same first show ?thesis using handled_later [of H evs ev s] by fastforce
  next
    case (Inr y)
    with first have "handled H (ev # evs) s ev" by (intro handled_first) auto
    moreover from Cons.prems first Inr have "process_events H (acc @ [ue_id ev]) k evs u = (r, t)"
      by (simp add: andthen_def attempt_def)
    ultimately show ?thesis using Cons.IH [of "acc @ [ue_id ev]" k u] same first handled_later [of H evs ev s] by fastforce
  qed
qed auto

lemma process_fetched_log:
  assumes "\<And>ev. ev \<in> set evs \<Longrightarrow> \<exists>r\<in>set (usage_events s). \<not> uer_processed r \<and> ev = event_from_row r"
    and "andthen (process_events H [] 0 evs) (\<lambda>(ids, failed).
           andthen (if ids \<noteq> [] then es_mark_events_processed ids b else ok ()) (\<lambda>_. es_complete_batch b (m ids) (n failed)))
         s = (r, t)"
  shows "marked_log H evs s (usage_events s) (usage_events t)"
proof -
  obtain x u where run: "process_events H [] 0 evs s = (x, u)" by (cases "process_events H [] 0 evs s")
  from process_events_run [OF run] obtain ids failed where u: "usage_events u = usage_events s" "x = Inr (ids, failed)"
    and ids: "\<forall>i\<in>set ids. \<exists>ev. ue_id ev = i \<and> handled H evs s ev" by auto
  have ok: "\<forall>i\<in>set ids. \<exists>r\<in>set (usage_events s). uer_id r = i \<and> \<not> uer_processed r \<and> handled H evs s (event_from_row r)"
  proof
    fix i assume "i \<in> set ids"
    with ids obtain ev where ev: "ue_id ev = i" "handled H evs s ev" by blast
    then have "ev \<in> set evs" by (auto simp: handled_def)
    with assms(1) obtain r where "r \<in> set (usage_events s)" "\<not> uer_processed r" "ev = event_from_row r" by blast
    with ev show "\<exists>r\<in>set (usage_events s). uer_id r = i \<and> \<not> uer_processed r \<and> handled H evs s (event_from_row r)"
      by (intro bexI [of _ r]) (auto simp: event_from_row_def)
  qed
  from assms(2) run u(2) have rest: "andthen (if ids \<noteq> [] then es_mark_events_processed ids b else ok ())
      (\<lambda>_. es_complete_batch b (m ids) (n failed)) u = (r, t)"
    by (simp add: andthen_def)
  obtain y v where mark: "(if ids \<noteq> [] then es_mark_events_processed ids b else ok ()) u = (y, v)"
    by (cases "(if ids \<noteq> [] then es_mark_events_processed ids b else ok ()) u") (simp split: if_splits)
  have "usage_events t = usage_events v"
    using rest mark framesD [OF complete_batch_frames] by (cases y) (auto simp: andthen_def)
  moreover have "marked_log H evs s (usage_events s) (usage_events v)"
  proof (cases "ids = []")
    case True
    with mark u(1) show ?thesis by (simp add: marked_log_refl)
  next
    case False
    with mark mark_events_log [of ids b u y v] u(1) ok marked_log_refl show ?thesis
      unfolding marked_log_def by auto
  qed
  ultimately show ?thesis by simp
qed

lemma process_batch_log:
  assumes "process_batch H es limit s = (r, t)"
  shows "\<exists>evs u. batch_core u = batch_core s \<and> marked_log H evs u (usage_events s) (usage_events t)"
proof (cases "batch_core t = batch_core s")
  case True
  then show ?thesis using batch_core_events [OF True] marked_log_refl by metis
next
  case False
  note step = frames_then [where v = batch_core, OF batch_core_frames(1)]
    frames_then [where v = batch_core, OF batch_core_frames(2)]
    frames_then [where v = batch_core, OF batch_core_frames(3)]
  have set: "batch_core (u\<lparr>current_batch := b\<rparr>) = batch_core u" for u :: "'z processor_db_scheme" and b
    by (simp add: batch_core_def)
  from step(1) [OF assms [unfolded process_batch_def]] False obtain b u1 where u1: "batch_core u1 = batch_core s"
    and run1: "andthen (es_get_unprocessed_events es limit) (\<lambda>events.
       if events = [] then ok ()
       else
         andthen (es_update_batch_status (pb_id b) BatchProcessing (Some (int (length events)))) (\<lambda>_.
         andthen (process_events H [] 0 events) (\<lambda>(processed_ids, failed_count).
         andthen (if processed_ids \<noteq> [] then es_mark_events_processed processed_ids (pb_id b) else ok ()) (\<lambda>_.
           es_complete_batch (pb_id b) (int (length processed_ids)) (int failed_count)))))
       (u1\<lparr>current_batch := Some b\<rparr>) = (r, t)"
    by auto
  from step(2) [OF run1] False u1 set obtain evs u2 where u2: "batch_core u2 = batch_core s"
    and fetched: "es_get_unprocessed_events es limit (u1\<lparr>current_batch := Some b\<rparr>) = (Inr evs, u2)"
    and run2: "andthen (es_update_batch_status (pb_id b) BatchProcessing (Some (int (length evs)))) (\<lambda>_.
         andthen (process_events H [] 0 evs) (\<lambda>(processed_ids, failed_count).
         andthen (if processed_ids \<noteq> [] then es_mark_events_processed processed_ids (pb_id b) else ok ()) (\<lambda>_.
           es_complete_batch (pb_id b) (int (length processed_ids)) (int failed_count)))) u2 = (r, t)"
    by (auto split: if_splits)
  from step(3) [OF run2] False u2 obtain u3 where u3: "batch_core u3 = batch_core s"
    and run3: "andthen (process_events H [] 0 evs) (\<lambda>(processed_ids, failed_count).
         andthen (if processed_ids \<noteq> [] then es_mark_events_processed processed_ids (pb_id b) else ok ()) (\<lambda>_.
           es_complete_batch (pb_id b) (int (length processed_ids)) (int failed_count))) u3 = (r, t)"
    by auto
  have "\<exists>r\<in>set (usage_events u3). \<not> uer_processed r \<and> ev = event_from_row r" if "ev \<in> set evs" for ev
    using unprocessed_rows [OF fetched that] batch_core_events [of u1 s] batch_core_events [of u3 s] u1 u3 by simp
  from process_fetched_log [OF this run3] u3 batch_core_events [OF u3] show ?thesis by auto
qed

end

lemma billing_handlers_single: "frames usage_events (process_single_event (billing_event_handlers D) ev)"
  by (cases "ue_type ev") (simp_all add: process_single_event_def billing_event_handlers_def handler_frames)

interpretation billing_handlers: logged_handlers "billing_event_handlers D" for D
  by unfold_locales (rule billing_handlers_single)

text \<open>C32: a batch marks an event processed only if the event was unprocessed and its handler succeeded when the loop of the
  batch came to it, whichever statements are lost or unacknowledged; it changes nothing else in the log. An event whose handler fails stays
  unprocessed and is fetched again.\<close>

theorem processed_only_if_handled:
  assumes "process_batch (billing_event_handlers D) es limit s = (r, t)"
  shows "\<exists>evs u ids b now. batch_core u = batch_core s \<and>
     usage_events t = update_where (\<lambda>r. uer_id r \<in> set ids)
       (\<lambda>r. r\<lparr>uer_processed := True, uer_processed_at := Some now, uer_batch := Some b\<rparr>) (usage_events s) \<and>
     (\<forall>i\<in>set ids. \<exists>r\<in>set (usage_events s). uer_id r = i \<and> \<not> uer_processed r \<and>
        (\<exists>before after v. evs = before @ event_from_row r # after \<and>
           process_single_event (billing_event_handlers D) (event_from_row r)
             (after_events (billing_event_handlers D) before u) = (Inr (), v)))"
  using billing_handlers.process_batch_log [OF assms] unfolding marked_log_def handled_def by blast

definition demo_processor_db :: processor_db where
  "demo_processor_db = telemetry_db.extend
     (events_db.extend (demo_events_db\<lparr>rentals := [demo_rental_row],
          users := [\<lparr>usr_id = 1, usr_external = ''alice''\<rparr>],
          credits := [\<lparr>cr_user = 1, cr_balance = 20, cr_reserved = 0, cr_spent = 0, cr_updated = 0\<rparr>]\<rparr>)
        \<lparr>usage_aggregations = None, channel = [], channel_capacity = 10, channel_open = True, metrics = metrics_default,
         send_wait = (\<lambda>_. None)\<rparr>)
     \<lparr>is_running = True, current_batch = None\<rparr>"

lemmas demo_processor_simps = demo_processor_db_def telemetry_db.defs events_db.defs demo_events_db_def rules_db.defs
  demo_rules_db_def package_db.defs demo_package_db_def

theorem processed_only_if_handled_witness:
  "\<exists>ids b now. usage_events (snd (process_batch (billing_event_handlers demo_ops) \<lparr>es_batch_size = 10, es_retention_days = 90\<rparr> None
       demo_processor_db)) = update_where (\<lambda>r. uer_id r \<in> set ids)
       (\<lambda>r. r\<lparr>uer_processed := True, uer_processed_at := Some now, uer_batch := Some b\<rparr>) (usage_events demo_processor_db)"
  using processed_only_if_handled [where D = demo_ops and es = "\<lparr>es_batch_size = 10, es_retention_days = 90\<rparr>"
      and limit = None and s = demo_processor_db, OF prod.collapse [symmetric]]
  by blast

subsection \<open>Telemetry of an active rental\<close>

lemma aggregations_tickless [simp]: "tickless usage_aggregations"
  by (simp add: tickless_def)

lemma aggregations_frames:
  "frames usage_aggregations (sql_get_rental D i)" "frames usage_aggregations (sql_get_package D k)"
  unfolding handler_repo_defs Let_def by (intro frames_rules frames_modify_other aggregations_tickless; simp)+

lemma upsert_without_table: "usage_aggregations s = None \<Longrightarrow> upsert_aggregation e new upd s = (Inl e, s)"
  by (simp add: upsert_aggregation_def)

lemma update_usage_without_table:
  "usage_aggregations s = None \<Longrightarrow> sql_update_usage D i u m c s \<noteq> (Inr x, t)"
  by (cases "parse_uuid D u")
    (simp_all add: sql_update_usage_def sql_def Let_def upsert_without_table andthen_def split: outcome.split)

lemma find_rental_found:
  assumes "find_rental D i s = (Inr rental, t)"
  shows "\<exists>row. row_of rw_id i (rentals s) = Some row \<and> rental = rental_from_row D row \<and> t = s\<lparr>tick := Suc (tick s)\<rparr>"
  using assms unfolding find_rental_def
  by (elim andthen_InrE) (auto simp: sql_get_rental_def sql_def ok_or_def split: outcome.splits option.splits)


lemma active_telemetry_demo: "find_rental demo_ops 4 demo_processor_db = (Inr (rental_from_row demo_ops demo_rental_row),
    demo_processor_db\<lparr>tick := Suc 0\<rparr>)"
  by (simp add: find_rental_def sql_get_rental_def sql_def demo_processor_simps demo_rental_row_def andthen_def)


subsection \<open>The end of a rental\<close>

lemma credits_tickless [simp]: "tickless credits"
  by (simp add: tickless_def)

lemma insert_billing_event_credits: "frames credits (insert_billing_event e r)"
  unfolding insert_billing_event_def by (intro frames_rules frames_modify_other) simp

lemma settled_frames:
  "frames credits (sql_get_usage_for_rental T i)" "frames credits (sql_get_package D k)"
  "frames credits (sql_update_rental D r)" "frames credits (record_billing_event ty e usr j)"
  unfolding handler_repo_defs record_billing_event_def sql_append_billing_event_def Let_def
  by (intro frames_rules frames_case_prod frames_modify_other credits_tickless insert_billing_event_credits; simp)+

lemma usage_keeps_packages: "keeps (package_db_ok D) (sql_get_usage_for_rental T i)"
  unfolding sql_get_usage_for_rental_def Let_def by (intro keeps_rules tickless_package_db_ok)

lemma finish_rental_credits:
  assumes "finish_rental D ev end_data usage cost rental s = (r, t)" "rn_reservation_id rental = None"
  shows "\<exists>x w. sql_deduct_credits D (rn_user_id rental) cost (s\<lparr>tick := Suc (tick s)\<rparr>) = (x, w) \<and> credits t = credits w"
proof -
  obtain x w where charge: "sql_deduct_credits D (rn_user_id rental) cost (s\<lparr>tick := Suc (tick s)\<rparr>) = (x, w)"
    by (cases "sql_deduct_credits D (rn_user_id rental) cost (s\<lparr>tick := Suc (tick s)\<rparr>)")
  have "frames credits (andthen (sql_update_rental D r') (\<lambda>_. record_billing_event ty e usr j))" for r' ty e usr j
    by (intro frames_andthen settled_frames)
  from framesD [OF this] assms charge have "credits t = credits w"
    by (auto simp: finish_rental_def Let_def andthen_def [of "attempt m" for m] attempt_def)
  with charge show ?thesis by blast
qed

lemma process_rental_end_run:
  assumes "process_rental_end D ev s = (Inr (), t)" "row_of rw_id (ue_rental ev) (rentals s) = Some row"
    and "\<not> state_is_terminal (parse_rental_state (rw_status row))"
  shows "\<exists>usage u p v x w.
    sql_get_usage_for_rental D (ue_rental ev) (s\<lparr>tick := Suc (tick s)\<rparr>) = (Inr usage, u) \<and>
    sql_get_package D (unwrap_or (rw_package_id row) package_custom) u = (Inr p, v) \<and>
    sql_deduct_credits D (rw_user_id row) (total_cost (calculate_cost D p usage)) (v\<lparr>tick := Suc (tick v)\<rparr>) = (x, w) \<and>
    credits t = credits w"
proof -
  have found: "rental = rental_from_row D row \<and> u = s\<lparr>tick := Suc (tick s)\<rparr>"
    if "find_rental D (ue_rental ev) s = (Inr rental, u)" for rental u
    using find_rental_found [OF that] assms(2) by auto
  have fields: "rn_state (rental_from_row D row) = parse_rental_state (rw_status row)"
    "rn_user_id (rental_from_row D row) = rw_user_id row" "rn_reservation_id (rental_from_row D row) = None"
    "rn_package_id (rental_from_row D row) = unwrap_or (rw_package_id row) package_custom"
    by (simp_all add: rental_from_row_def)
  from assms(1) obtain end_data usage u p v where fetched:
    "sql_get_usage_for_rental D (ue_rental ev) (s\<lparr>tick := Suc (tick s)\<rparr>) = (Inr usage, u)"
    "sql_get_package D (unwrap_or (rw_package_id row) package_custom) u = (Inr p, v)"
    and finish: "finish_rental D ev end_data usage (total_cost (calculate_cost D p usage)) (rental_from_row D row) v = (Inr (), t)"
    unfolding process_rental_end_def
    using assms(3) fields
    by (elim andthen_InrE) (auto simp: ok_or_def state_is_terminal_def split: option.splits if_splits elim!: andthen_InrE dest!: found)
  from finish_rental_credits [OF finish fields(3)] fields(2) fetched show ?thesis by auto
qed

context telemetry_platform
begin

lemma one_hour_cost:
  assumes "rate_ok (pkg_hourly_rate p)"
  shows "total_cost (calculate_cost D p usage_zero) = pkg_hourly_rate p"
  using cb_multiply_1 [OF rate_ok_credit [OF assms]] by (simp add: calculate_cost_def usage_zero_def Let_def)

lemma rental_end_one_hour:
  fixes s t :: "'y telemetry_db_scheme"
  assumes "list_all no_usage_keys (usage_events s)" "package_db_ok D s" "process_rental_end D ev s = (Inr (), t)"
    and "row_of rw_id (ue_rental ev) (rentals s) = Some row"
    and "\<not> state_is_terminal (parse_rental_state (rw_status row))"
  shows "\<exists>(p :: billing_package) (u :: 'y telemetry_db_scheme) x w. pkg_id p = unwrap_or (rw_package_id row) package_custom \<and> rate_ok (pkg_hourly_rate p) \<and>
    credits u = credits s \<and> sql_deduct_credits D (rw_user_id row) (pkg_hourly_rate p) u = (x, w) \<and> credits t = credits w"
proof -
  from process_rental_end_run [OF assms(3-5)] obtain usage u p v x w where
    usage: "sql_get_usage_for_rental D (ue_rental ev) (s\<lparr>tick := Suc (tick s)\<rparr>) = (Inr usage, u)" and
    package: "sql_get_package D (unwrap_or (rw_package_id row) package_custom) u = (Inr p, v)" and
    charge: "sql_deduct_credits D (rw_user_id row) (total_cost (calculate_cost D p usage)) (v\<lparr>tick := Suc (tick v)\<rparr>) = (x, w)"
      "credits t = credits w" by blast
  have zero: "usage = usage_zero" using usage_for_rental_zero [OF _ usage] assms(1) by simp
  have "package_db_ok D u" using keepsD [OF usage_keeps_packages _ usage] assms(2) by simp
  from safeD [OF sql_get_package_safe this package]
  have p: "pkg_id p = unwrap_or (rw_package_id row) package_custom" "rate_ok (pkg_hourly_rate p)" by simp_all
  have "credits (v\<lparr>tick := Suc (tick v)\<rparr>) = credits s"
    using framesD [OF settled_frames(2) package] framesD [OF settled_frames(1) usage] by simp
  moreover have "sql_deduct_credits D (rw_user_id row) (pkg_hourly_rate p) (v\<lparr>tick := Suc (tick v)\<rparr>) = (x, w)"
    using charge(1) by (simp only: zero one_hour_cost [OF p(2)])
  ultimately show ?thesis using p charge(2) by blast
qed

end


definition demo_end :: usage_event where
  "demo_end = demo_event\<lparr>ue_type := RentalEnd,
     ue_data := JObj [(''end_time'', JStr (show_rat 7)), (''final_cost'', JStr (show_rat 1))]\<rparr>"

lemma demo_end_parsed:
  "parse_rental_end demo_ops (ue_data demo_end) = Some \<lparr>rd_end_time = 7, rd_final_cost = 1, rd_termination_reason = None\<rparr>"
  by (simp add: demo_end_def parse_rental_end_def req_field_def opt_field_def demo_ops_def billing_ops.defs parse_show_rat)

lemma demo_usage:
  "sql_get_usage_for_rental demo_ops 4 (demo_processor_db\<lparr>tick := Suc 0\<rparr>) = (Inr usage_zero, demo_processor_db\<lparr>tick := 2\<rparr>)"
  by (simp add: sql_get_usage_for_rental_def sql_def demo_processor_simps Let_def rows_where_def event_to_row_def demo_event_def
      numeric_key_def unwrap_or_def demo_ops_def billing_ops.defs usage_zero_def)

lemma demo_decimal:
  "from_decimal demo_ops 20 = 20" "from_decimal demo_ops 0 = 0" "from_decimal demo_ops 3 = 3" "from_decimal demo_ops (7 / 2) = 7 / 2"
  by (simp_all add: from_decimal_def bankers_simps)

lemma demo_numeric:
  "numeric_round 20 8 (33 / 2) = Some (33 / 2)" "numeric_round 20 8 0 = Some 0" "numeric_round 20 8 (7 / 2) = Some (7 / 2)"
  "numeric_round 10 2 3 = Some 3" "numeric_round 10 2 (7 / 2) = Some (7 / 2)"
  by (simp_all add: numeric_round_exact has_places_def)

lemma demo_package:
  "sql_get_package demo_ops ''h100'' (demo_processor_db\<lparr>tick := 2\<rparr>) = (Inr (package_from_row demo_ops h100_row),
     demo_processor_db\<lparr>tick := 3, package_cache := [''h100'' \<mapsto> package_from_row demo_ops h100_row]\<rparr>)"
  by (simp add: sql_get_package_def cache_get_def load_from_database_def cache_insert_def sql_def demo_processor_simps
      default_packages_def default_package_def h100_row_def andthen_def)

lemma demo_package_rate: "pkg_hourly_rate (package_from_row demo_ops h100_row) = 7 / 2"
  by (simp add: package_from_row_def h100_row_def default_packages_def default_package_def demo_decimal)

lemma parse_alice: "parse_id ''alice'' = None"
  by (simp add: parse_id_def)

lemma demo_account:
  "sql_get_account demo_ops ''alice'' (demo_processor_db\<lparr>tick := 4, package_cache := c\<rparr>) =
     (Inr (Some (account_of_row demo_ops \<lparr>cr_user = 1, cr_balance = 20, cr_reserved = 0, cr_spent = 0, cr_updated = 0\<rparr>)),
      demo_processor_db\<lparr>tick := 6, package_cache := c\<rparr>)"
  by (simp add: sql_get_account_def resolve_user_uuid_def sql_def demo_processor_simps parse_alice andthen_def)

definition demo_charged :: "(package_id \<rightharpoonup> billing_package) \<Rightarrow> billing_event_row list \<Rightarrow> processor_db" where
  "demo_charged c evs = demo_processor_db\<lparr>tick := 10, package_cache := c,
     credits := [\<lparr>cr_user = 1, cr_balance = 33 / 2, cr_reserved = 0, cr_spent = 7 / 2, cr_updated = 8\<rparr>], billing_events := evs\<rparr>"

lemma demo_charge:
  "\<exists>evs. sql_deduct_credits demo_ops ''alice'' (7 / 2) (demo_processor_db\<lparr>tick := 4, package_cache := c\<rparr>) =
      (Inr (), demo_charged c evs) \<and> map be_id evs = [108]"
  apply (simp add: sql_deduct_credits_def demo_account andthen_def account_of_row_def demo_decimal demo_charged_def)
  apply (simp add: require_user_uuid_def resolve_user_uuid_def sql_def demo_processor_simps parse_alice andthen_def demo_decimal)
  apply (simp add: update_credit_row_def db_now_def admit_credit_row_def demo_numeric insert_billing_event_def
      user_exists_def sql_def)
  done

lemma demo_finish:
  "\<exists>t. finish_rental demo_ops demo_end \<lparr>rd_end_time = 7, rd_final_cost = 1, rd_termination_reason = None\<rparr> usage_zero (7 / 2)
     (rental_from_row demo_ops demo_rental_row) (demo_processor_db\<lparr>tick := 3, package_cache := c\<rparr>) = (Inr (), t)"
proof -
  from demo_charge [of c] obtain evs where
    charge: "sql_deduct_credits demo_ops ''alice'' (7 / 2) (demo_processor_db\<lparr>tick := 4, package_cache := c\<rparr>) =
      (Inr (), demo_charged c evs)" and ids: "map be_id evs = [108]" by metis
  from ids obtain e where evs: "evs = [e]" "be_id e = 108" by auto
  have swap: "demo_processor_db\<lparr>tick := 4, package_cache := c\<rparr> = demo_processor_db\<lparr>package_cache := c, tick := 4\<rparr>" by simp
  show ?thesis
    apply (simp add: finish_rental_def attempt_def Let_def)
    apply (simp add: rental_from_row_def demo_rental_row_def andthen_def [of "attempt m" for m] attempt_def)
    apply (simp add: charge charge [unfolded swap])
    apply (simp add: sql_update_rental_def sql_def demo_numeric affected_def demo_decimal record_billing_event_def
        sql_append_billing_event_def insert_billing_event_def db_now_def parse_alice demo_charged_def evs demo_processor_simps
        demo_rental_row_def andthen_def show_id_def dec_digits.simps [of 4] demo_end_def demo_event_def)
    done
qed

lemma demo_end_succeeds: "\<exists>t. process_rental_end demo_ops demo_end demo_processor_db = (Inr (), t)"
proof -
  let ?p = "package_from_row demo_ops h100_row"
  have id: "ue_rental demo_end = 4" by (simp add: demo_end_def demo_event_def)
  have rental: "rn_state (rental_from_row demo_ops demo_rental_row) = Active"
    "rn_package_id (rental_from_row demo_ops demo_rental_row) = ''h100''"
    by (simp_all add: rental_from_row_def demo_rental_row_def parse_rental_state_def unwrap_or_def)
  have cost: "total_cost (calculate_cost demo_ops ?p usage_zero) = 7 / 2"
    using demo_ops.one_hour_cost [of ?p] demo_package_rate
    by (simp add: rate_ok_def numeric_fits_def has_places_def)
  from demo_finish obtain t where "finish_rental demo_ops demo_end \<lparr>rd_end_time = 7, rd_final_cost = 1, rd_termination_reason = None\<rparr>
      usage_zero (7 / 2) (rental_from_row demo_ops demo_rental_row)
      (demo_processor_db\<lparr>tick := 3, package_cache := [''h100'' \<mapsto> ?p]\<rparr>) = (Inr (), t)" by metis
  then show ?thesis
    by (simp add: process_rental_end_def demo_end_parsed id active_telemetry_demo rental demo_usage demo_package cost andthen_def)
qed


subsection \<open>Status events\<close>

lemma rental_view_tickless: "tickless rental_view"
  by (simp add: tickless_def)

lemma record_billing_event_view: "frames rental_view (record_billing_event ty e usr j)"
  unfolding record_billing_event_def sql_append_billing_event_def insert_billing_event_def db_now_def
  by (intro frames_rules frames_modify_other rental_view_tickless) (simp add: rental_view_def fun_eq_iff)

lemma update_rental_stores:
  assumes "sql_update_rental D r s = (Inr (), t)"
  shows "rental_view t (rn_id r) = Some (rn_state r)"
  using assms
  by (auto simp: sql_update_rental_def sql_def andthen_def rental_view_update
      split: outcome.splits if_splits option.splits prod.splits sum.splits)

lemma enter_state_result:
  assumes "enter_state D r st s = (Inr r', t)"
  shows "rn_id r' = rn_id r \<and> rn_state r' = st"
  using assms unfolding enter_state_def settle_rental_def Let_def by (auto elim!: andthen_InrE split: if_splits)

text \<open>C34: a status event that is processed leaves the rental in the state the event names, from whatever state it was in: the
  handler does not ask \<open>can_transition_to\<close>.\<close>

theorem status_event_sets_state:
  assumes "parse_status_change (ue_data ev) = Some d" "parse_new_status (sc_new_status d) = Some st"
    and "process_status_change D ev s = (Inr (), t)"
  shows "rental_view t (ue_rental ev) = Some st"
proof -
  from assms obtain rental u r' v w e usr j where find: "find_rental D (ue_rental ev) s = (Inr rental, u)"
    and enter: "enter_state D rental st u = (Inr r', v)" and update: "sql_update_rental D r' v = (Inr (), w)"
    and event: "record_billing_event ''status_changed'' e usr j w = (Inr (), t)"
    unfolding process_status_change_def by (auto elim!: andthen_InrE)
  from find_rental_found [OF find] have "rn_id rental = ue_rental ev"
    using row_of_Some [of rw_id "ue_rental ev" "rentals s"] by (auto simp: rental_from_row_def)
  with enter_state_result [OF enter] update_rental_stores [OF update] framesD [OF record_billing_event_view event]
  show ?thesis by simp
qed

definition demo_reopen :: usage_event where
  "demo_reopen = demo_event\<lparr>ue_type := StatusChange,
     ue_data := JObj [(''old_status'', JStr ''x''), (''new_status'', JStr ''active'')]\<rparr>"

definition demo_closed_db :: processor_db where
  "demo_closed_db = demo_processor_db\<lparr>rentals := [demo_rental_row\<lparr>rw_status := ''completed''\<rparr>]\<rparr>"

lemma demo_reopen_succeeds: "\<exists>t. process_status_change demo_ops demo_reopen demo_closed_db = (Inr (), t)"
  by (simp add: process_status_change_def parse_status_change_def req_field_def opt_field_def demo_reopen_def demo_event_def
      find_rental_def sql_get_rental_def sql_def demo_closed_db_def demo_processor_simps demo_rental_row_def rental_from_row_def
      parse_rental_state_def parse_new_status_def enter_state_def Let_def andthen_def sql_update_rental_def demo_numeric
      demo_decimal unwrap_or_def affected_def record_billing_event_def sql_append_billing_event_def insert_billing_event_def
      db_now_def parse_alice show_id_def dec_digits.simps [of 4] cb_zero_def)

theorem status_event_sets_state_witness:
  "\<exists>t. rental_view demo_closed_db 4 = Some Completed \<and> process_status_change demo_ops demo_reopen demo_closed_db = (Inr (), t) \<and>
     rental_view t 4 = Some Active"
proof -
  obtain t where run: "process_status_change demo_ops demo_reopen demo_closed_db = (Inr (), t)" using demo_reopen_succeeds by blast
  have "parse_status_change (ue_data demo_reopen) = Some \<lparr>sc_old_status = ''x'', sc_new_status = ''active'', sc_reason = None\<rparr>"
    by (simp add: demo_reopen_def parse_status_change_def req_field_def opt_field_def)
  from status_event_sets_state [OF this _ run] have "rental_view t 4 = Some Active"
    by (simp add: parse_new_status_def demo_reopen_def demo_event_def)
  moreover have "rental_view demo_closed_db 4 = Some Completed"
    by (simp add: rental_view_def demo_closed_db_def demo_rental_row_def parse_rental_state_def)
  ultimately show ?thesis using run by blast
qed

end
