(* ===== verification/Billing_Service.thy ===== *)
theory Billing_Service
  imports Telemetry Credit_Calls
begin

section \<open>Billing: the gRPC service\<close>

text \<open>
  \<open>crates/basilica-billing/src/grpc/billing_service.rs\<close>: the eleven calls of \<open>BillingServiceImpl\<close>,
  composed as the code composes them from the credit manager, the rental manager, the package and
  preference repositories, the telemetry ingester and the event store, over one database.
  A call returns a response or a \<open>Status\<close>; the texts of the statuses are left out. The state is the
  one of \<open>Telemetry\<close>; every statement can be lost or unacknowledged.
  \<open>chrono\<close> is a parameter: \<open>chrono_duration s n\<close> is \<open>Duration::seconds(s) + Duration::nanoseconds(n)\<close>,
  which panics when out of range (\<open>None\<close>), and \<open>from_timestamp\<close> is \<open>DateTime::from_timestamp\<close>.
\<close>

subsection \<open>Messages\<close>

datatype status = InvalidArgument | NotFound | FailedPrecondition | Internal | Panicked

datatype rental_status = RentalUnspecified | RentalPending | RentalActive | RentalStopping | RentalStopped | RentalFailed

fun as_str_name :: "rental_status \<Rightarrow> string" where
  "as_str_name RentalUnspecified = ''RENTAL_STATUS_UNSPECIFIED''"
| "as_str_name RentalPending = ''RENTAL_STATUS_PENDING''"
| "as_str_name RentalActive = ''RENTAL_STATUS_ACTIVE''"
| "as_str_name RentalStopping = ''RENTAL_STATUS_STOPPING''"
| "as_str_name RentalStopped = ''RENTAL_STATUS_STOPPED''"
| "as_str_name RentalFailed = ''RENTAL_STATUS_FAILED''"

record proto_duration =
  pd_seconds :: int
  pd_nanos :: int

record proto_timestamp =
  pt_seconds :: int
  pt_nanos :: "32 word"

record apply_credits_request =
  acq_user_id :: string
  acq_amount :: string
  acq_transaction_id :: string

record apply_credits_response =
  acp_success :: bool
  acp_new_balance :: string
  acp_credit_id :: string
  acp_applied_at :: time

record get_balance_response =
  gbp_available_balance :: string
  gbp_reserved_balance :: string
  gbp_total_balance :: string
  gbp_last_updated :: time

record reserve_credits_request =
  rcq_user_id :: string
  rcq_rental_id :: string
  rcq_amount :: string
  rcq_duration :: "proto_duration option"

record reserve_credits_response =
  rcp_success :: bool
  rcp_reservation_id :: string
  rcp_reserved_amount :: string
  rcp_reserved_until :: time
  rcp_error_message :: string

record release_reservation_response =
  rrp_success :: bool
  rrp_charged_amount :: string
  rrp_refunded_amount :: string
  rrp_new_balance :: string

record proto_resource_spec =
  prs_cpu_cores :: nat
  prs_memory_mb :: nat
  prs_gpus :: "gpu_spec list"
  prs_disk_gb :: nat
  prs_network_bandwidth_mbps :: nat

record track_rental_request =
  trq_rental_id :: string
  trq_user_id :: string
  trq_executor_id :: string
  trq_validator_id :: string
  trq_resource_spec :: "proto_resource_spec option"
  trq_hourly_rate :: string
  trq_max_duration :: "proto_duration option"

record track_rental_response =
  trp_success :: bool
  trp_tracking_id :: string
  trp_reservation_id :: string
  trp_estimated_cost :: string

record update_rental_status_request =
  usq_rental_id :: string
  usq_status :: rental_status
  usq_reason :: string

record update_rental_status_response =
  usp_success :: bool
  usp_current_cost :: string
  usp_updated_at :: time

datatype rental_filter = ByUser string | ByValidator string | ByExecutor string

record active_rental =
  ar_rental_id :: string
  ar_user_id :: string
  ar_executor_id :: string
  ar_validator_id :: string
  ar_status :: rental_status
  ar_resource_spec :: "proto_resource_spec option"
  ar_hourly_rate :: string
  ar_current_cost :: string
  ar_start_time :: time
  ar_last_updated :: time

record finalize_rental_response =
  frp_success :: bool
  frp_total_cost :: string
  frp_duration :: proto_duration
  frp_charged_amount :: string
  frp_refunded_amount :: string

record ingest_response =
  ir_events_received :: "64 word"
  ir_events_processed :: "64 word"
  ir_events_failed :: "64 word"
  ir_last_processed :: time

record usage_data_point =
  dp_timestamp :: time
  dp_usage :: "resource_usage option"
  dp_cost :: string

record usage_summary =
  sm_avg_cpu_percent :: f64
  sm_avg_memory_mb :: "64 word"
  sm_total_network_bytes :: "64 word"
  sm_total_disk_bytes :: "64 word"
  sm_avg_gpu_utilization :: f64
  sm_duration :: proto_duration

record usage_report_response =
  urp_rental_id :: string
  urp_data_points :: "usage_data_point list"
  urp_summary :: usage_summary
  urp_total_cost :: string

record set_user_package_request =
  spq_user_id :: string
  spq_package_id :: string
  spq_effective_from :: "proto_timestamp option"

record set_user_package_response =
  spp_success :: bool
  spp_previous_package_id :: string
  spp_new_package_id :: string
  spp_effective_from :: "proto_timestamp option"

record service_ops = telemetry_ops +
  chrono_duration :: "int \<Rightarrow> int \<Rightarrow> time option"
  from_timestamp :: "int \<Rightarrow> 32 word \<Rightarrow> time option"

type_synonym ('z, 'a) service_prog = "('z telemetry_db_scheme, status, 'a) prog"

subsection \<open>Conversions\<close>

definition parse_decimal :: "'d billing_ops_scheme \<Rightarrow> string \<Rightarrow> billing_error + rat" where
  "parse_decimal D s = (case parse_dec D s of Some x \<Rightarrow> Inr x | None \<Rightarrow> Inl (ValidationError ''amount'' ''Invalid decimal value''))"

definition trim_end :: "char \<Rightarrow> string \<Rightarrow> string" where
  "trim_end c s = rev (dropWhile (\<lambda>x. x = c) (rev s))"

definition format_decimal :: "'d billing_ops_scheme \<Rightarrow> rat \<Rightarrow> string" where
  "format_decimal D d =
     (if of_int \<lfloor>d\<rfloor> = d then show_dec D d
      else let s = show_dec D d in
        if contains s ''.'' then trim_end (CHR ''.'') (trim_end (CHR ''0'') s) else s)"

definition format_credit_balance :: "'d billing_ops_scheme \<Rightarrow> credit_balance \<Rightarrow> string" where
  "format_credit_balance D b = format_decimal D b"

fun rental_status_to_domain :: "rental_status \<Rightarrow> rental_state" where
  "rental_status_to_domain RentalPending = Pending"
| "rental_status_to_domain RentalActive = Active"
| "rental_status_to_domain RentalStopping = Terminating"
| "rental_status_to_domain RentalStopped = Completed"
| "rental_status_to_domain RentalFailed = Failed"
| "rental_status_to_domain RentalUnspecified = Pending"

fun domain_status_to_proto :: "rental_state \<Rightarrow> rental_status" where
  "domain_status_to_proto Pending = RentalPending"
| "domain_status_to_proto Active = RentalActive"
| "domain_status_to_proto Suspended = RentalStopping"
| "domain_status_to_proto Terminating = RentalStopping"
| "domain_status_to_proto Completed = RentalStopped"
| "domain_status_to_proto Failed = RentalFailed"

text \<open>Integer division and remainder of Rust: towards zero.\<close>

definition trunc_div :: "int \<Rightarrow> int \<Rightarrow> int" where
  "trunc_div a b = (if 0 \<le> a then a div b else - ((- a) div b))"

definition trunc_rem :: "int \<Rightarrow> int \<Rightarrow> int" where
  "trunc_rem a b = a - b * trunc_div a b"

definition num_hours :: "time \<Rightarrow> int" where
  "num_hours d = trunc_div d hour_ns"

definition duration_proto :: "time \<Rightarrow> proto_duration" where
  "duration_proto d =
     \<lparr>pd_seconds = trunc_div d 1000000000,
      pd_nanos = trunc_rem (if - (2 ^ 63) \<le> d \<and> d < 2 ^ 63 then d else 0) 1000000000\<rparr>"

text \<open>The service's own view of its two managers.\<close>

abbreviation credit_sql :: "'d billing_ops_scheme \<Rightarrow> 'z telemetry_db_scheme credit_repo" where
  "credit_sql D \<equiv> sql_credit_repository D"

abbreviation rental_sql :: "'d billing_ops_scheme \<Rightarrow> 'z telemetry_db_scheme rental_repo" where
  "rental_sql D \<equiv> sql_rental_repository D"

subsection \<open>Credits\<close>

definition svc_apply_credits ::
  "'d service_ops_scheme \<Rightarrow> apply_credits_request \<Rightarrow> ('z, apply_credits_response) service_prog" where
  "svc_apply_credits D req =
     andthen (map_err (\<lambda>_. InvalidArgument) (of_result (parse_decimal D (acq_amount req)))) (\<lambda>amount.
     andthen (map_err (\<lambda>_. Internal) (mgr_apply_credits D (credit_sql D) (acq_user_id req) (from_decimal D amount))) (\<lambda>new_balance.
     andthen utc_now (\<lambda>now.
       ok \<lparr>acp_success = True, acp_new_balance = format_credit_balance D new_balance, acp_credit_id = acq_transaction_id req,
           acp_applied_at = now\<rparr>)))"

definition svc_get_balance :: "'d service_ops_scheme \<Rightarrow> string \<Rightarrow> ('z, get_balance_response) service_prog" where
  "svc_get_balance D user_id =
     andthen (map_err (\<lambda>_. Internal) (mgr_get_account (credit_sql D) user_id)) (\<lambda>account.
       ok \<lparr>gbp_available_balance = format_credit_balance D (available_balance D account),
           gbp_reserved_balance = format_credit_balance D (acct_reserved account),
           gbp_total_balance = format_credit_balance D (acct_balance account),
           gbp_last_updated = acct_last_updated account\<rparr>)"

fun reserve_status :: "billing_error \<Rightarrow> status" where
  "reserve_status (InsufficientBalance available required) = FailedPrecondition"
| "reserve_status _ = Internal"

definition duration_arg :: "'d service_ops_scheme \<Rightarrow> proto_duration option \<Rightarrow> ('z, time) service_prog" where
  "duration_arg D d =
     andthen (ok_or InvalidArgument d) (\<lambda>p. ok_or Panicked (chrono_duration D (pd_seconds p) (pd_nanos p)))"

definition svc_reserve_credits ::
  "'d service_ops_scheme \<Rightarrow> reserve_credits_request \<Rightarrow> ('z, reserve_credits_response) service_prog" where
  "svc_reserve_credits D req =
     andthen (if rcq_rental_id req = [] then ok None
              else andthen (ok_or InvalidArgument (parse_uuid D (rcq_rental_id req))) (\<lambda>i. ok (Some i))) (\<lambda>rental_id.
     andthen (map_err (\<lambda>_. InvalidArgument) (of_result (parse_decimal D (rcq_amount req)))) (\<lambda>amount.
     andthen (duration_arg D (rcq_duration req)) (\<lambda>duration.
     andthen (map_err reserve_status
       (mgr_reserve_credits D (credit_sql D) (rcq_user_id req) (from_decimal D amount) duration rental_id)) (\<lambda>reservation_id.
     andthen (map_err (\<lambda>_. Internal) (mgr_get_reservation (credit_sql D) reservation_id)) (\<lambda>reservation.
       ok \<lparr>rcp_success = True, rcp_reservation_id = show_uuid D reservation_id,
           rcp_reserved_amount = format_credit_balance D (res_amount reservation),
           rcp_reserved_until = res_expires_at reservation, rcp_error_message = []\<rparr>)))))"

fun release_status :: "billing_error \<Rightarrow> status" where
  "release_status (ReservationNotFound i) = NotFound"
| "release_status (ReservationAlreadyReleased i) = FailedPrecondition"
| "release_status _ = Internal"

definition svc_release_reservation ::
  "'d service_ops_scheme \<Rightarrow> string \<Rightarrow> string \<Rightarrow> ('z, release_reservation_response) service_prog" where
  "svc_release_reservation D req_reservation_id req_final_amount =
     andthen (ok_or InvalidArgument (parse_uuid D req_reservation_id)) (\<lambda>reservation_id.
     andthen (map_err (\<lambda>_. InvalidArgument) (of_result (parse_decimal D req_final_amount))) (\<lambda>final_amount.
       let final_balance = from_decimal D final_amount in
     andthen (map_err (\<lambda>_. NotFound) (mgr_get_reservation (credit_sql D) reservation_id)) (\<lambda>reservation.
     andthen (map_err release_status (mgr_charge_from_reservation D (credit_sql D) reservation_id final_balance)) (\<lambda>new_balance.
       ok \<lparr>rrp_success = True, rrp_charged_amount = format_decimal D final_amount,
           rrp_refunded_amount = format_credit_balance D (unwrap_or (cb_subtract D (res_amount reservation) final_balance) cb_zero),
           rrp_new_balance = format_credit_balance D new_balance\<rparr>))))"

subsection \<open>Rentals\<close>

definition u32 :: "nat \<Rightarrow> nat" where
  "u32 n = n mod 2 ^ 32"

definition tracked_spec :: "proto_resource_spec option \<Rightarrow> resource_spec" where
  "tracked_spec s =
     (case s of
        Some spec \<Rightarrow> \<lparr>rs_gpu_specs = prs_gpus spec, rs_cpu_cores = prs_cpu_cores spec, rs_memory_gb = u32 (prs_memory_mb spec div 1024),
          rs_storage_gb = u32 (prs_disk_gb spec), rs_disk_iops = 0, rs_network_bandwidth_mbps = prs_network_bandwidth_mbps spec\<rparr>
      | None \<Rightarrow> \<lparr>rs_gpu_specs = [], rs_cpu_cores = 4, rs_memory_gb = 16, rs_storage_gb = 100, rs_disk_iops = 1000,
          rs_network_bandwidth_mbps = 1000\<rparr>)"

definition package_for_spec :: "resource_spec \<Rightarrow> package_id" where
  "package_for_spec spec =
     (case rs_gpu_specs spec of g # _ \<Rightarrow> package_from_gpu_model (gs_model g) | [] \<Rightarrow> package_custom)"

text \<open>What follows the creation of the rental: the hold for the longest duration, then the start event.\<close>

definition announce_start ::
  "'d service_ops_scheme \<Rightarrow> track_rental_request \<Rightarrow> rat \<Rightarrow> rental_id \<Rightarrow> 32 word \<Rightarrow> credit_balance \<Rightarrow> reservation_id \<Rightarrow>
     ('z, track_rental_response) service_prog" where
  "announce_start D req hourly_rate rental_id max_duration_hours estimated_cost reservation_id =
     (let resource_spec = tracked_spec (trq_resource_spec req) in
     andthen uuid_new_v4 (\<lambda>event_id.
     andthen utc_now (\<lambda>now.
     andthen (map_err (\<lambda>_. Internal) (es_append_usage_event
        \<lparr>ue_id = event_id, ue_rental = rental_id, ue_user = trq_user_id req, ue_executor = trq_executor_id req,
         ue_validator = trq_validator_id req, ue_type = RentalStart,
         ue_data = JObj [(''package_id'', JStr (package_for_spec resource_spec)), (''hourly_rate'', JStr (format_decimal D hourly_rate)),
           (''resource_spec'', resource_to_json D resource_spec), (''estimated_cost'', JStr (format_credit_balance D estimated_cost)),
           (''max_duration_hours'', JInt (uint max_duration_hours))],
         ue_timestamp = now, ue_processed = False, ue_processed_at = None, ue_batch = None\<rparr>)) (\<lambda>_.
       ok \<lparr>trp_success = True, trp_tracking_id = show_uuid D rental_id, trp_reservation_id = show_uuid D reservation_id,
           trp_estimated_cost = format_credit_balance D estimated_cost\<rparr>))))"

definition hold_and_announce ::
  "'d service_ops_scheme \<Rightarrow> track_rental_request \<Rightarrow> rat \<Rightarrow> rental_id \<Rightarrow> ('z, track_rental_response) service_prog" where
  "hold_and_announce D req hourly_rate rental_id =
     andthen (duration_arg D (trq_max_duration req)) (\<lambda>max_duration.
       let max_duration_hours = (word_of_int (num_hours max_duration) :: 32 word);
           estimated_cost = cb_multiply D (from_decimal D hourly_rate) (of_int (uint max_duration_hours)) in
     andthen (map_err reserve_status
       (mgr_reserve_credits D (credit_sql D) (trq_user_id req) estimated_cost max_duration (Some rental_id)))
       (announce_start D req hourly_rate rental_id max_duration_hours estimated_cost))"

definition svc_track_rental ::
  "'d service_ops_scheme \<Rightarrow> track_rental_request \<Rightarrow> ('z, track_rental_response) service_prog" where
  "svc_track_rental D req =
     andthen (ok_or InvalidArgument (parse_uuid D (trq_rental_id req))) (\<lambda>_.
     andthen (map_err (\<lambda>_. InvalidArgument) (of_result (parse_decimal D (trq_hourly_rate req)))) (\<lambda>hourly_rate.
       let resource_spec = tracked_spec (trq_resource_spec req); package_id = package_for_spec resource_spec in
     andthen (map_err (\<lambda>_. Internal) (rm_create_rental (rental_sql D) (trq_user_id req) (trq_executor_id req) (trq_validator_id req)
       package_id resource_spec None)) (\<lambda>rental_id.
     andthen (map_err (\<lambda>_. Internal) (rm_get_rental (rental_sql D) rental_id)) (\<lambda>_.
       hold_and_announce D req hourly_rate rental_id))))"

fun update_status_status :: "billing_error \<Rightarrow> status" where
  "update_status_status (RentalNotFound i) = NotFound"
| "update_status_status (InvalidStateTransition a b) = FailedPrecondition"
| "update_status_status _ = Internal"

definition svc_update_rental_status ::
  "'d service_ops_scheme \<Rightarrow> update_rental_status_request \<Rightarrow> ('z, update_rental_status_response) service_prog" where
  "svc_update_rental_status D req =
     andthen (ok_or InvalidArgument (parse_uuid D (usq_rental_id req))) (\<lambda>rental_id.
       let new_status = rental_status_to_domain (usq_status req) in
     andthen (map_err update_status_status (rm_update_status (rental_sql D) rental_id new_status)) (\<lambda>_.
     andthen (map_err (\<lambda>_. Internal) (rm_get_rental (rental_sql D) rental_id)) (\<lambda>rental.
     andthen (map_err (\<lambda>_. Internal) (sql_update_rental D rental)) (\<lambda>_.
     andthen uuid_new_v4 (\<lambda>event_id.
     andthen utc_now (\<lambda>now.
     andthen (map_err (\<lambda>_. Internal) (es_append_usage_event
        \<lparr>ue_id = event_id, ue_rental = rental_id, ue_user = rn_user_id rental, ue_executor = rn_executor_id rental,
         ue_validator = rn_validator_id rental, ue_type = StatusChange,
         ue_data = JObj [(''old_status'', JStr (as_str_name (usq_status req))), (''new_status'', JStr (state_to_string new_status)),
           (''reason'', if usq_reason req = [] then JNull else JStr (usq_reason req))],
         ue_timestamp = now, ue_processed = False, ue_processed_at = None, ue_batch = None\<rparr>)) (\<lambda>_.
     andthen utc_now (\<lambda>updated.
       ok \<lparr>usp_success = True, usp_current_cost = format_credit_balance D (total_cost (rn_cost_breakdown rental)),
           usp_updated_at = updated\<rparr>))))))))"

definition spec_to_proto :: "resource_spec \<Rightarrow> proto_resource_spec" where
  "spec_to_proto r = \<lparr>prs_cpu_cores = rs_cpu_cores r, prs_memory_mb = rs_memory_gb r * 1024, prs_gpus = rs_gpu_specs r,
     prs_disk_gb = rs_storage_gb r, prs_network_bandwidth_mbps = rs_network_bandwidth_mbps r\<rparr>"

definition active_rental_of :: "'d service_ops_scheme \<Rightarrow> rental \<Rightarrow> active_rental" where
  "active_rental_of D r =
     \<lparr>ar_rental_id = show_uuid D (rn_id r), ar_user_id = rn_user_id r, ar_executor_id = rn_executor_id r,
      ar_validator_id = rn_validator_id r, ar_status = domain_status_to_proto (rn_state r),
      ar_resource_spec = Some (spec_to_proto (rn_resource_spec r)),
      ar_hourly_rate = format_credit_balance D (base_cost (rn_cost_breakdown r)),
      ar_current_cost = format_credit_balance D (total_cost (rn_cost_breakdown r)),
      ar_start_time = rn_created_at r, ar_last_updated = rn_last_updated r\<rparr>"

definition svc_get_active_rentals ::
  "'d service_ops_scheme \<Rightarrow> rental_filter option \<Rightarrow> ('z, active_rental list \<times> 64 word) service_prog" where
  "svc_get_active_rentals D fil =
     andthen (map_err (\<lambda>_. Internal)
       (case fil of
          Some (ByUser u) \<Rightarrow> sql_get_active_rentals D (Some u)
        | Some (ByExecutor e) \<Rightarrow> andthen (sql_get_active_rentals D None) (\<lambda>rs. ok (filter (\<lambda>r. rn_executor_id r = e) rs))
        | Some (ByValidator v) \<Rightarrow> andthen (sql_get_active_rentals D None) (\<lambda>rs. ok (filter (\<lambda>r. rn_validator_id r = v) rs))
        | None \<Rightarrow> sql_get_active_rentals D None)) (\<lambda>rentals.
       let active_rentals = map (active_rental_of D) (filter (\<lambda>r. state_is_active (rn_state r)) rentals) in
       ok (active_rentals, word_of_nat (length active_rentals)))"

text \<open>The middle of \<open>finalize_rental\<close>: charge the rental's open hold, or the account when there is none.\<close>

definition charge_rental ::
  "'d service_ops_scheme \<Rightarrow> user_id \<Rightarrow> rental_id \<Rightarrow> credit_balance \<Rightarrow> ('z, credit_balance) service_prog" where
  "charge_rental D user_id rental_id final_balance =
     andthen (map_err (\<lambda>_. Internal) (mgr_get_active_reservations (credit_sql D) user_id)) (\<lambda>reservations.
       case find (\<lambda>r. res_rental_id r = Some rental_id) reservations of
         Some reservation \<Rightarrow>
           andthen (map_err (\<lambda>_. Internal) (mgr_charge_from_reservation D (credit_sql D) (res_id reservation) final_balance)) (\<lambda>_.
             ok (unwrap_or (cb_subtract D (res_amount reservation) final_balance) cb_zero))
       | None \<Rightarrow>
           andthen (map_err (\<lambda>_. Internal) (mgr_charge_credits D (credit_sql D) user_id final_balance)) (\<lambda>_. ok cb_zero))"

definition svc_finalize_rental ::
  "'d service_ops_scheme \<Rightarrow> string \<Rightarrow> string \<Rightarrow> ('z, finalize_rental_response) service_prog" where
  "svc_finalize_rental D req_rental_id req_final_cost =
     andthen (ok_or InvalidArgument (parse_uuid D req_rental_id)) (\<lambda>rental_id.
     andthen (map_err (\<lambda>_. InvalidArgument) (of_result (parse_decimal D req_final_cost))) (\<lambda>final_cost.
       let final_balance = from_decimal D final_cost in
     andthen (map_err (\<lambda>_. Internal) (rm_finalize_rental (rental_sql D) rental_id)) (\<lambda>rental.
     andthen (charge_rental D (rn_user_id rental) rental_id final_balance) (\<lambda>refunded.
     andthen (map_err (\<lambda>_. Internal) (rm_get_rental (rental_sql D) rental_id)) (\<lambda>final_rental.
     andthen (map_err (\<lambda>_. Internal) (sql_update_rental D final_rental)) (\<lambda>_.
       ok \<lparr>frp_success = True, frp_total_cost = format_decimal D final_cost,
           frp_duration = duration_proto (rn_last_updated rental - rn_created_at rental),
           frp_charged_amount = format_credit_balance D final_balance,
           frp_refunded_amount = format_credit_balance D refunded\<rparr>))))))"

subsection \<open>Telemetry\<close>

text \<open>The loop over the stream of a client; an item is a message or a transport error.\<close>

primrec ingest_stream ::
  "64 word \<Rightarrow> 64 word \<Rightarrow> 64 word \<Rightarrow> time \<Rightarrow> (status + telemetry_data) list \<Rightarrow> ('z, ingest_response) service_prog" where
  "ingest_stream received processed failed last_processed [] =
     ok \<lparr>ir_events_received = received, ir_events_processed = processed, ir_events_failed = failed, ir_last_processed = last_processed\<rparr>"
| "ingest_stream received processed failed last_processed (item # items) =
     (case item of
        Inl _ \<Rightarrow> ingest_stream received processed (failed + 1) last_processed items
      | Inr data \<Rightarrow>
          andthen (attempt (ingest data)) (\<lambda>r :: billing_error + unit.
            case r of
              Inr _ \<Rightarrow> andthen utc_now (\<lambda>now. ingest_stream (received + 1) (processed + 1) failed now items)
            | Inl _ \<Rightarrow> ingest_stream (received + 1) processed (failed + 1) last_processed items))"

definition svc_ingest_telemetry :: "(status + telemetry_data) list \<Rightarrow> ('z, ingest_response) service_prog" where
  "svc_ingest_telemetry stream = andthen utc_now (\<lambda>now. ingest_stream 0 0 0 now stream)"

record report_totals =
  rt_cpu_percent :: f64
  rt_memory_mb :: "64 word"
  rt_network_bytes :: "64 word"
  rt_disk_bytes :: "64 word"
  rt_gpu_percent :: f64
  rt_count :: "64 word"
  rt_points :: "usage_data_point list"

definition scaled_u64 :: "rat \<Rightarrow> rat \<Rightarrow> 64 word" where
  "scaled_u64 x k = word_of_nat (f64_to_u64 (f64_times (Fin x) (Fin k)))"

definition report_step :: "report_totals \<Rightarrow> usage_event \<Rightarrow> report_totals" where
  "report_step t ev =
     (case f64_key (ue_data ev) ''cpu_percent'' of
        None \<Rightarrow> t
      | Some cpu \<Rightarrow>
          let key = f64_key (ue_data ev);
              grow = (\<lambda>k scale acc. case key k of Some x \<Rightarrow> acc + scaled_u64 x scale | None \<Rightarrow> acc);
              point = (\<lambda>k scale. scaled_u64 (unwrap_or (key k) 0) scale) in
          \<lparr>rt_cpu_percent = f64_plus (rt_cpu_percent t) (f64_times (Fin cpu) (Fin 100)),
           rt_memory_mb = grow ''memory_gb'' 1024 (rt_memory_mb t),
           rt_network_bytes = grow ''network_gb'' gib (rt_network_bytes t),
           rt_disk_bytes = grow ''disk_io_gb'' gib (rt_disk_bytes t),
           rt_gpu_percent = (case key ''gpu_hours'' of
               Some g \<Rightarrow> f64_plus (rt_gpu_percent t) (f64_times (Fin g) (Fin 100)) | None \<Rightarrow> rt_gpu_percent t),
           rt_count = rt_count t + 1,
           rt_points = rt_points t @ [\<lparr>dp_timestamp = ue_timestamp ev,
             dp_usage = Some \<lparr>ru_cpu_percent = f64_times (Fin cpu) (Fin 100), ru_memory_mb = point ''memory_gb'' 1024,
               ru_network_rx_bytes = 0, ru_network_tx_bytes = point ''network_gb'' gib, ru_disk_read_bytes = 0,
               ru_disk_write_bytes = point ''disk_io_gb'' gib, ru_gpu_usage = []\<rparr>,
             dp_cost = ''0''\<rparr>]\<rparr>)"

definition no_totals :: report_totals where
  "no_totals = \<lparr>rt_cpu_percent = Fin 0, rt_memory_mb = 0, rt_network_bytes = 0, rt_disk_bytes = 0, rt_gpu_percent = Fin 0,
     rt_count = 0, rt_points = []\<rparr>"

definition mean_f64 :: "f64 \<Rightarrow> 64 word \<Rightarrow> f64" where
  "mean_f64 acc n = (if 0 < n then f64_divide acc (f64_of_int (uint n)) else Fin 0)"

definition report_summary :: "report_totals \<Rightarrow> time \<Rightarrow> usage_summary" where
  "report_summary t d =
     \<lparr>sm_avg_cpu_percent = mean_f64 (rt_cpu_percent t) (rt_count t),
      sm_avg_memory_mb = (if 0 < rt_count t then rt_memory_mb t div rt_count t else 0),
      sm_total_network_bytes = rt_network_bytes t, sm_total_disk_bytes = rt_disk_bytes t,
      sm_avg_gpu_utilization = mean_f64 (rt_gpu_percent t) (rt_count t), sm_duration = duration_proto d\<rparr>"

definition svc_get_usage_report :: "'d service_ops_scheme \<Rightarrow> string \<Rightarrow> ('z, usage_report_response) service_prog" where
  "svc_get_usage_report D req_rental_id =
     andthen (ok_or InvalidArgument (parse_uuid D req_rental_id)) (\<lambda>rental_id.
     andthen (map_err (\<lambda>_. Internal) (sql_get_rental D rental_id)) (\<lambda>found.
     andthen (ok_or NotFound found) (\<lambda>rental.
     andthen (ok_or Internal (parse_uuid D (show_uuid D rental_id))) (\<lambda>i.
     andthen (map_err (\<lambda>_. Internal) (es_get_rental_events i None None)) (\<lambda>events.
       let totals = foldl report_step no_totals events;
           first = \<lparr>dp_timestamp = rn_created_at rental, dp_usage = None,
             dp_cost = format_credit_balance D (base_cost (rn_cost_breakdown rental))\<rparr> in
       ok \<lparr>urp_rental_id = show_uuid D rental_id,
           urp_data_points = (if rt_points totals = [] then [first] else rt_points totals),
           urp_summary = report_summary totals (rn_last_updated rental - rn_created_at rental),
           urp_total_cost = format_credit_balance D (total_cost (rn_cost_breakdown rental))\<rparr>)))))"

subsection \<open>Packages\<close>

definition default_package_id :: package_id where
  "default_package_id = ''h100''"

definition svc_get_billing_packages ::
  "'d service_ops_scheme \<Rightarrow> string \<Rightarrow> ('z, proto_billing_package list \<times> string) service_prog" where
  "svc_get_billing_packages D user_id =
     andthen (map_err (\<lambda>_. Internal) (sql_list_packages D)) (\<lambda>packages.
     andthen (attempt (sql_get_user_package user_id)) (\<lambda>pref :: billing_error + user_preference option.
       ok (map (package_to_proto D) packages,
           case pref of Inr (Some p) \<Rightarrow> up_package_id p | _ \<Rightarrow> default_package_id)))"

definition svc_set_user_package ::
  "'d service_ops_scheme \<Rightarrow> set_user_package_request \<Rightarrow> ('z, set_user_package_response) service_prog" where
  "svc_set_user_package D req =
     andthen (map_err (\<lambda>_. Internal) (sql_get_package D (spq_package_id req))) (\<lambda>_.
     andthen (case spq_effective_from req of
                None \<Rightarrow> ok None
              | Some ts \<Rightarrow> (case from_timestamp D (pt_seconds ts) (pt_nanos ts) of
                    Some t \<Rightarrow> ok (Some t)
                  | None \<Rightarrow> andthen utc_now (\<lambda>now. ok (Some now)))) (\<lambda>effective_from.
     andthen (map_err (\<lambda>_. Internal) (sql_set_user_package (spq_user_id req) (spq_package_id req) effective_from)) (\<lambda>previous.
       ok \<lparr>spp_success = True, spp_previous_package_id = unwrap_or previous package_h100,
           spp_new_package_id = spq_package_id req, spp_effective_from = spq_effective_from req\<rparr>)))"


subsection \<open>The rental's row through \<open>finalize_rental\<close>\<close>

definition put_rental :: "'d billing_ops_scheme \<Rightarrow> rental \<Rightarrow> time \<Rightarrow> rental_row \<Rightarrow> rental_row" where
  "put_rental D r now x = x\<lparr>rw_status := state_to_string (rn_state r), rw_resource_spec := resource_to_json D (rn_resource_spec r),
     rw_hourly_rate := base_cost (rn_cost_breakdown r), rw_updated_at := now, rw_end_time := rn_ended_at r,
     rw_metadata := metadata_to_json D (rn_metadata r), rw_total_cost := (if rn_actual_cost r = 0 then None else Some (rn_actual_cost r))\<rparr>"

lemma put_rental_simps [simp]:
  "rw_id (put_rental D r now x) = rw_id x" "rw_user_id (put_rental D r now x) = rw_user_id x"
  "parse_rental_state (rw_status (put_rental D r now x)) = rn_state r"
  by (simp_all add: put_rental_def)

lemma credit_tables_rentals [simp]:
  "credit_db_ok (s\<lparr>rentals := rs\<rparr>) = credit_db_ok s" "resolves D x (s\<lparr>rentals := rs\<rparr>) = resolves D x s"
  "ledger_of (s\<lparr>rentals := rs\<rparr>) = ledger_of s" "reliable (s\<lparr>rentals := rs\<rparr>) = reliable s"
  by (simp_all add: reliable_def credit_db_ok_def user_exists_def resolves_def ledger_of_def split: option.split)

lemma rentals_credit_updates [simp]:
  "rentals (put_credit u b v l now s) = rentals s" "rentals (close_hold i now s) = rentals s"
  "rental_view (put_credit u b v l now s) = rental_view s" "rental_view (close_hold i now s) = rental_view s"
  by (simp_all add: put_credit_def close_hold_def rental_view_def fun_eq_iff)

lemma moved_user [simp]: "rn_user_id (moved st t r) = rn_user_id r"
  by (simp add: moved_def)

context billing_platform
begin

lemma update_rental_exact:
  assumes "reliable s" "row_of rw_id (rn_id r) (rentals s) = Some q"
    and "numeric_fits 10 2 (base_cost (rn_cost_breakdown r))" "numeric_fits 10 2 (rn_actual_cost r)"
  shows "sql_update_rental D r s = (Inr (), s\<lparr>tick := Suc (Suc (tick s)),
    rentals := update_where (\<lambda>x. rw_id x = rn_id r) (put_rental D r (clock s (tick s))) (rentals s)\<rparr>)"
proof -
  have nz: "affected (\<lambda>x. rw_id x = rn_id r) (rentals s) \<noteq> 0"
    using assms(2) by (simp add: affected_key_0)
  have "pg_numeric D 10 2 x = Some x" if "numeric_fits 10 2 x" for x
    using that by (simp add: numeric_exact numeric_fits_def)
  with assms nz show ?thesis
    by (simp add: sql_update_rental_def reliable_sql andthen_def put_rental_def [abs_def])
qed

lemma row_fits:
  assumes "rental_row_ok q"
  shows "numeric_fits 10 2 (base_cost (rn_cost_breakdown (rental_from_row D q)))"
    and "numeric_fits 10 2 (rn_actual_cost (rental_from_row D q))"
  using assms row_costs [OF assms]
  by (auto simp: rental_row_ok_def) (cases "rw_total_cost q"; simp add: numeric_fits_def has_places_def)

lemma finalize_exact:
  assumes "reliable s" "row_of rw_id i (rentals s) = Some q" "rental_row_ok q"
    and "parse_rental_state (rw_status q) \<in> {Active, Terminating, Completed}"
  obtains r n now where "rm_finalize_rental (sql_rental_repository D) i s =
      (Inr r, s\<lparr>tick := n, rentals := update_where (\<lambda>x. rw_id x = i) (put_rental D r now) (rentals s)\<rparr>)"
    "rn_user_id r = rw_user_id q" "rn_state r = Completed" "rental_row_ok (put_rental D r now q)"
proof -
  let ?r = "rental_from_row D q" and ?s = "\<lambda>n. s\<lparr>tick := n\<rparr>"
  have id: "rn_id ?r = i" "rn_user_id ?r = rw_user_id q" "rn_state ?r = parse_rental_state (rw_status q)"
    using row_of_Some [OF assms(2)] by (auto simp: rental_from_row_def)
  note fits = row_fits [OF assms(3)]
  have upd: "sql_update_rental D r (?s n) = (Inr (), s\<lparr>tick := Suc (Suc n),
      rentals := update_where (\<lambda>x. rw_id x = i) (put_rental D r (clock s n)) (rentals s)\<rparr>) \<and> rental_row_ok (put_rental D r now q)"
    if "rn_id r = i" "rn_cost_breakdown r = rn_cost_breakdown ?r" "rn_actual_cost r = rn_actual_cost ?r" for r n now
    using update_rental_exact [of "?s n" r q] assms(1,2) fits that by (simp add: rental_row_ok_def put_rental_def)
  note run = rm_finalize_rental_def andthen_Inr get_rental_run [OF assms(1,2)] id transition_run
  show ?thesis
  proof (cases "parse_rental_state (rw_status q)")
    case Active
    let ?m = "moved Completed (clock s (Suc (Suc (tick s)))) (moved Terminating (clock s (Suc (tick s))) ?r)"
    show ?thesis
      using that [of ?m "clock s (Suc (Suc (Suc (tick s))))" "Suc (Suc (Suc (Suc (Suc (tick s)))))"]
        upd [of ?m "Suc (Suc (Suc (tick s)))" "clock s (Suc (Suc (Suc (tick s))))"] id Active by (simp add: run)
  next
    case Terminating
    let ?m = "moved Completed (clock s (Suc (tick s))) ?r"
    show ?thesis
      using that [of ?m "clock s (Suc (Suc (tick s)))" "Suc (Suc (Suc (Suc (tick s))))"]
        upd [of ?m "Suc (Suc (tick s))" "clock s (Suc (Suc (tick s)))"] id Terminating by (simp add: run)
  next
    case Completed
    show ?thesis
      using that [of ?r "clock s (Suc (tick s))" "Suc (Suc (Suc (tick s)))"]
        upd [of ?r "Suc (tick s)" "clock s (Suc (tick s))"] id Completed by (simp add: run)
  qed (use assms(4) in auto)
qed

end

subsection \<open>The hold that pays for a rental\<close>

text \<open>What the platform promises beyond \<open>telemetry_platform\<close>: the value of a duration that is in range.\<close>

locale service_platform = telemetry_platform D
  for D :: "'d service_ops_scheme" +
  assumes chrono_duration_value: "chrono_duration D sec nano = Some d \<Longrightarrow> d = sec * 1000000000 + nano"

text \<open>\<open>h\<close> is the one open hold of the user for the rental, and expires after every reading of the clock.\<close>

definition funding_hold :: "rental_id \<Rightarrow> uuid \<Rightarrow> 'z credit_db_scheme \<Rightarrow> reservation_row \<Rightarrow> bool" where
  "funding_hold i u s h \<longleftrightarrow> h \<in> set (credit_reservations s) \<and> rr_user h = u \<and> rr_rental h = Some i \<and>
     rr_status h = ''active'' \<and> rr_released_at h = None \<and> (\<forall>k. clock s k < rr_expires_at h) \<and>
     (\<forall>h'\<in>set (credit_reservations s). rr_user h' = u \<and> rr_status h' = ''active'' \<and> rr_rental h' = Some i \<longrightarrow> h' = h)"

definition unfunded :: "rental_id \<Rightarrow> uuid \<Rightarrow> 'z credit_db_scheme \<Rightarrow> bool" where
  "unfunded i u s \<longleftrightarrow> (\<forall>h\<in>set (credit_reservations s). rr_user h = u \<and> rr_status h = ''active'' \<longrightarrow> rr_rental h \<noteq> Some i)"

lemma funding_unchanged [simp]:
  "funding_hold i u (s\<lparr>tick := n\<rparr>) h = funding_hold i u s h" "funding_hold i u (s\<lparr>rentals := rs\<rparr>) h = funding_hold i u s h"
  "unfunded i u (s\<lparr>tick := n\<rparr>) = unfunded i u s" "unfunded i u (s\<lparr>rentals := rs\<rparr>) = unfunded i u s"
  by (simp_all add: funding_hold_def unfunded_def)

lemma find_unique:
  assumes "x \<in> set xs" "P x" "\<And>y. y \<in> set xs \<Longrightarrow> P y \<Longrightarrow> y = x"
  shows "find P xs = Some x"
proof (cases "find P xs")
  case None
  with assms(1,2) show ?thesis by (auto simp: find_None_iff)
next
  case (Some y)
  then have "y \<in> set xs" "P y" by (auto simp: find_Some_iff)
  from assms(3) [OF this] Some show ?thesis by simp
qed

lemma find_map: "find P (map f xs) = map_option f (find (\<lambda>x. P (f x)) xs)"
  by (induction xs) auto

lemma active_reservations_run:
  assumes "reliable s" "resolves D x s = Some u"
  shows "\<exists>n k. mgr_get_active_reservations (sql_credit_repository D) x s =
    (Inr (map (reservation_of_row D (\<lambda>r. rr_status r = ''released'')) (sort_key (\<lambda>r. - rr_reserved_at r)
       (rows_where (\<lambda>r. rr_user r = u \<and> rr_status r = ''active'' \<and> clock s k < rr_expires_at r) (credit_reservations s)))),
     s\<lparr>tick := n\<rparr>)"
proof -
  obtain n where "require_user_uuid D x s = (Inr u, s\<lparr>tick := n\<rparr>)" using require_run [OF assms] by blast
  with assms(1) show ?thesis
    by (auto simp: mgr_get_active_reservations_def sql_get_active_reservations_def andthen_Inr reliable_sql)
qed

lemma funded_run:
  assumes "reliable s" "resolves D x s = Some u" "funding_hold i u s h"
  shows "\<exists>n rs. mgr_get_active_reservations (sql_credit_repository D) x s = (Inr rs, s\<lparr>tick := n\<rparr>) \<and>
    find (\<lambda>r. res_rental_id r = Some i) rs = Some (reservation_of_row D (\<lambda>r. rr_status r = ''released'') h)"
proof -
  from active_reservations_run [OF assms(1,2)] obtain n k where run: "mgr_get_active_reservations (sql_credit_repository D) x s =
    (Inr (map (reservation_of_row D (\<lambda>r. rr_status r = ''released'')) (sort_key (\<lambda>r. - rr_reserved_at r)
       (rows_where (\<lambda>r. rr_user r = u \<and> rr_status r = ''active'' \<and> clock s k < rr_expires_at r) (credit_reservations s)))),
     s\<lparr>tick := n\<rparr>)" by blast
  have "find (\<lambda>r. rr_rental r = Some i) (sort_key (\<lambda>r. - rr_reserved_at r)
       (rows_where (\<lambda>r. rr_user r = u \<and> rr_status r = ''active'' \<and> clock s k < rr_expires_at r) (credit_reservations s))) = Some h"
    using assms(3) by (intro find_unique) (auto simp: funding_hold_def rows_where_def)
  with run show ?thesis by (auto simp: find_map reservation_of_row_def)
qed

lemma unfunded_run:
  assumes "reliable s" "resolves D x s = Some u" "unfunded i u s"
  shows "\<exists>n rs. mgr_get_active_reservations (sql_credit_repository D) x s = (Inr rs, s\<lparr>tick := n\<rparr>) \<and>
    find (\<lambda>r. res_rental_id r = Some i) rs = None"
  using active_reservations_run [OF assms(1,2)] assms(3)
  by (fastforce simp: find_map reservation_of_row_def find_None_iff unfunded_def rows_where_def)

lemma twice_tick: "s\<lparr>tick := n, tick := m\<rparr> = s\<lparr>tick := m\<rparr>"
  by simp

context service_platform
begin

lemma row_of_hold: "credit_db_ok s \<Longrightarrow> funding_hold i u s h \<Longrightarrow> row_of rr_id (rr_id h) (credit_reservations s) = Some h"
  unfolding credit_db_ok_def funding_hold_def by (blast intro: unique_key_row_of)

lemma charge_funded:
  assumes "reliable s" "credit_db_ok s" "resolves D x s = Some u" "funding_hold i u s h"
    and "row_of cr_user u (credits s) = Some c" "amount_ok y"
  obtains res t where "charge_rental D x i y s = (res, t)" "rentals t = rentals s" "reliable t"
    "ledger_of t = snd (ledger_charge_hold (show_uuid D) (rr_id h) y (ledger_of s))"
    "case fst (ledger_charge_hold (show_uuid D) (rr_id h) y (ledger_of s)) of
       Inl e \<Rightarrow> res = Inl Internal | Inr b \<Rightarrow> res = Inr (max 0 (rr_amount h - y))"
proof -
  have h: "row_of rr_id (rr_id h) (credit_reservations s) = Some h" "rr_user h = u" "\<not> hold_closed h"
    using row_of_hold [OF assms(2,4)] assms(4) by (auto simp: funding_hold_def hold_closed_def)
  have amounts: "amount_ok (rr_amount h)" using credit_db_ok_reservation [OF assms(2) h(1)] .
  from funded_run [OF assms(1,3,4)] obtain n rs where get: "mgr_get_active_reservations (sql_credit_repository D) x s = (Inr rs, s\<lparr>tick := n\<rparr>)"
    "find (\<lambda>r. res_rental_id r = Some i) rs = Some (reservation_of_row D (\<lambda>r. rr_status r = ''released'') h)" by blast
  have refund: "unwrap_or (cb_subtract D (from_decimal D (rr_amount h)) y) cb_zero = max 0 (rr_amount h - y)"
    using amounts assms(6) by (simp add: from_decimal_id cb_subtract_exact amount_ok_credit_ok cb_zero_def max_def)
  have "\<exists>m now now'. mgr_charge_from_reservation D (sql_credit_repository D) (rr_id h) y (s\<lparr>tick := n\<rparr>) =
      (if cr_balance c < y
       then (Inl (InsufficientBalance (cr_balance c) y), close_hold (rr_id h) now (s\<lparr>tick := m\<rparr>))
       else if 10 ^ 12 \<le> cr_spent c + y
       then (Inl (DatabaseError ''update_account''), close_hold (rr_id h) now (s\<lparr>tick := m\<rparr>))
       else (Inr (cr_balance c - y), put_credit u (cr_balance c - y) (max 0 (cr_reserved c - rr_amount h))
               (cr_spent c + y) now' (close_hold (rr_id h) now (s\<lparr>tick := m\<rparr>))))" (is "\<exists>m now now'. ?charge m now now'")
  proof -
    have "reliable (s\<lparr>tick := n\<rparr>)" "credit_db_ok (s\<lparr>tick := n\<rparr>)" "row_of rr_id (rr_id h) (credit_reservations (s\<lparr>tick := n\<rparr>)) = Some h"
      "row_of cr_user (rr_user h) (credits (s\<lparr>tick := n\<rparr>)) = Some c"
      using assms(1,2,5) h by (simp_all add: ticklessD [OF tickless_credit_db_ok])
    from mgr_charge_hold_run [OF this(1-3) h(3) this(4) assms(6)] show ?thesis unfolding h(2) twice_tick .
  qed
  then obtain m now now' where charge: "?charge m now now'" by blast
  note run = charge_rental_def andthen_Inr get charge refund reservation_of_row_def ledger_charge_hold_def lg_hold_row lg_acct_row h assms(5)
  show ?thesis
  proof (cases "cr_balance c < y \<or> 10 ^ 12 \<le> cr_spent c + y")
    case True
    then show ?thesis
      using assms(1) by (intro that [of "Inl Internal" "close_hold (rr_id h) now (s\<lparr>tick := m\<rparr>)"])
        (auto simp: run map_err_def andthen_def Let_def)
  next
    case False
    then show ?thesis
      using assms(1) by (intro that [of "Inr (max 0 (rr_amount h - y))" "put_credit u (cr_balance c - y) (max 0 (cr_reserved c - rr_amount h))
               (cr_spent c + y) now' (close_hold (rr_id h) now (s\<lparr>tick := m\<rparr>))"])
        (auto simp: run map_err_def andthen_def Let_def)
  qed
qed

lemma charge_unfunded:
  assumes "reliable s" "credit_db_ok s" "resolves D x s = Some u" "unfunded i u s"
    and "row_of cr_user u (credits s) = Some c" "amount_ok y"
  obtains res t where "charge_rental D x i y s = (res, t)" "rentals t = rentals s" "reliable t"
    "ledger_of t = snd (ledger_charge x u y (ledger_of s))"
    "case fst (ledger_charge x u y (ledger_of s)) of Inl e \<Rightarrow> res = Inl Internal | Inr b \<Rightarrow> res = Inr 0"
proof -
  from unfunded_run [OF assms(1,3,4)] obtain n rs where get: "mgr_get_active_reservations (sql_credit_repository D) x s = (Inr rs, s\<lparr>tick := n\<rparr>)"
    "find (\<lambda>r. res_rental_id r = Some i) rs = None" by blast
  have "\<exists>m now'. mgr_charge_credits D (sql_credit_repository D) x y (s\<lparr>tick := n\<rparr>) =
      (if cr_balance c < y then (Inl (InsufficientBalance (cr_balance c) y), s\<lparr>tick := m\<rparr>)
       else if 10 ^ 12 \<le> cr_spent c + y then (Inl (DatabaseError ''update_account''), s\<lparr>tick := m\<rparr>)
       else (Inr (cr_balance c - y), put_credit u (cr_balance c - y) (cr_reserved c) (cr_spent c + y) now' (s\<lparr>tick := m\<rparr>)))"
    (is "\<exists>m now'. ?charge m now'")
  proof -
    have "reliable (s\<lparr>tick := n\<rparr>)" "credit_db_ok (s\<lparr>tick := n\<rparr>)" "resolves D x (s\<lparr>tick := n\<rparr>) = Some u"
      "row_of cr_user u (credits (s\<lparr>tick := n\<rparr>)) = Some c"
      using assms(1,2,3,5) by (simp_all add: ticklessD [OF tickless_credit_db_ok])
    from mgr_charge_run [OF this(1-3) assms(6) this(4)] show ?thesis unfolding twice_tick .
  qed
  then obtain m now' where charge: "?charge m now'" by blast
  note run = charge_rental_def andthen_Inr get charge ledger_charge_def lg_acct_row assms(5) cb_zero_def
  show ?thesis
  proof (cases "cr_balance c < y \<or> 10 ^ 12 \<le> cr_spent c + y")
    case True
    then show ?thesis
      using assms(1) by (intro that [of "Inl Internal" "s\<lparr>tick := m\<rparr>"]) (auto simp: run map_err_def andthen_def)
  next
    case False
    then show ?thesis
      using assms(1)
      by (intro that [of "Inr 0" "put_credit u (cr_balance c - y) (cr_reserved c) (cr_spent c + y) now' (s\<lparr>tick := m\<rparr>)"])
        (auto simp: run map_err_def andthen_def)
  qed
qed

lemma finalize_via:
  assumes "reliable s" "row_of rw_id i (rentals s) = Some q" "rental_row_ok q"
    and "parse_rental_state (rw_status q) \<in> {Active, Terminating, Completed}"
    and "parse_uuid D rid = Some i" "parse_dec D cost = Some y" "amount_ok y"
    and charge: "\<And>n rs. \<exists>res t. charge_rental D (rw_user_id q) i y (s\<lparr>tick := n, rentals := rs\<rparr>) = (res, t) \<and>
      rentals t = rs \<and> reliable t \<and> Q res (ledger_of t)"
  shows "\<exists>res res' t. svc_finalize_rental D rid cost s = (res, t) \<and> rental_view t = (rental_view s)(i \<mapsto> Completed) \<and>
    Q res' (ledger_of t) \<and> (case res' of Inl e \<Rightarrow> res = Inl e | Inr refund \<Rightarrow> \<exists>resp. res = Inr resp \<and>
      frp_charged_amount resp = format_credit_balance D y \<and> frp_refunded_amount resp = format_credit_balance D refund)"
proof -
  from finalize_exact [OF assms(1-4)] obtain r n now where fin: "rm_finalize_rental (sql_rental_repository D) i s =
      (Inr r, s\<lparr>tick := n, rentals := update_where (\<lambda>x. rw_id x = i) (put_rental D r now) (rentals s)\<rparr>)"
    and r: "rn_user_id r = rw_user_id q" "rn_state r = Completed" "rental_row_ok (put_rental D r now q)" by blast
  let ?rs = "update_where (\<lambda>x. rw_id x = i) (put_rental D r now) (rentals s)"
  let ?q = "put_rental D r now q" and ?r = "rental_from_row D (put_rental D r now q)"
  have row: "row_of rw_id i ?rs = Some ?q" using assms(2) by (simp add: row_of_update_same)
  have view: "map_option (\<lambda>x. parse_rental_state (rw_status x)) (row_of rw_id j ?rs) = ((rental_view s)(i \<mapsto> Completed)) j" for j
    using assms(2) r(2) by (cases "j = i") (simp_all add: row_of_update_same row_of_update_other rental_view_def)
  from charge [where n = n and rs = ?rs] obtain res t where ch: "charge_rental D (rw_user_id q) i y
      (s\<lparr>tick := n, rentals := ?rs\<rparr>) = (res, t)" "rentals t = ?rs" "reliable t" "Q res (ledger_of t)" by blast
  note run = svc_finalize_rental_def andthen_Inr assms(5,6) parse_decimal_def fin ch(1) r(1) map_err_def [of _ "rm_finalize_rental _ _"]
    from_decimal_id [OF amount_ok_credit_ok [OF assms(7)]]
  show ?thesis
  proof (cases res)
    case (Inl e)
    have "rental_view t = (rental_view s)(i \<mapsto> Completed)" using view ch(2) by (simp add: rental_view_def fun_eq_iff)
    with Inl ch(4) show ?thesis
      by (intro exI [of _ "Inl e"] exI [of _ res] exI [of _ t]) (simp add: run andthen_Inl Let_def map_err_def)
  next
    case (Inr refund)
    have id: "rn_id ?r = i" "rn_state ?r = Completed" using row_of_Some [OF row] r(2) by (simp_all add: rental_from_row_def)
    have get: "rm_get_rental (sql_rental_repository D) i t = (Inr ?r, t\<lparr>tick := Suc (tick t)\<rparr>)"
      by (rule get_rental_run) (simp_all only: ch(2,3) row)
    have upd: "sql_update_rental D ?r (t\<lparr>tick := Suc (tick t)\<rparr>) = (Inr (), t\<lparr>tick := Suc (Suc (Suc (tick t))),
        rentals := update_where (\<lambda>x. rw_id x = i) (put_rental D ?r (clock t (Suc (tick t)))) ?rs\<rparr>)"
      using update_rental_exact [of "t\<lparr>tick := Suc (tick t)\<rparr>" ?r ?q] row_fits [OF r(3)] id ch(2,3) row by simp
    let ?t = "t\<lparr>tick := Suc (Suc (Suc (tick t))),
        rentals := update_where (\<lambda>x. rw_id x = i) (put_rental D ?r (clock t (Suc (tick t)))) ?rs\<rparr>"
    have "rental_view ?t j = ((rental_view s)(i \<mapsto> Completed)) j" for j
      using assms(2) id view [of j]
      by (cases "j = i") (simp_all add: rental_view_def [of ?t] row_of_update_same row_of_update_other)
    moreover have "\<exists>resp. svc_finalize_rental D rid cost s = (Inr resp, ?t) \<and> frp_charged_amount resp = format_credit_balance D y \<and>
        frp_refunded_amount resp = format_credit_balance D refund"
      using Inr by (simp add: run Let_def get upd map_err_def)
    moreover have "Q (Inr refund) (ledger_of ?t)" using ch(4) Inr by simp
    ultimately show ?thesis by (fastforce simp: fun_eq_iff intro!: exI [of _ "Inr refund"])
  qed
qed

end


definition demo_service_ops :: service_ops where
  "demo_service_ops = telemetry_ops.extend demo_ops
     \<lparr>chrono_duration = (\<lambda>sec nano. if \<bar>sec\<bar> \<le> 9223372036854775 then Some (sec * 1000000000 + nano) else None),
      from_timestamp = (\<lambda>sec nano. if nano < 2000000000 then Some (sec * 1000000000 + uint nano) else None)\<rparr>"

lemma demo_service_simps [simp]:
  "dec_add demo_service_ops = dec_add bankers" "dec_sub demo_service_ops = dec_sub bankers"
  "dec_mul demo_service_ops = dec_mul bankers" "dec_div demo_service_ops = dec_div bankers"
  "dec_round demo_service_ops = dec_round bankers" "pg_numeric demo_service_ops = numeric_round"
  "parse_uuid demo_service_ops = parse_id" "show_uuid demo_service_ops = show_id" "parse_dec demo_service_ops = parse_rat"
  "show_dec demo_service_ops = show_rat" "resource_to_json demo_service_ops = spec_to_json"
  "resource_of_json demo_service_ops = spec_of_json" "metadata_to_json demo_service_ops = strings_to_json"
  "metadata_of_json demo_service_ops = strings_of_json" "dec_of_numeric demo_service_ops = dec_of_numeric demo_ops"
  by (simp_all add: demo_service_ops_def telemetry_ops.defs demo_ops_def billing_ops.defs bankers_pg_def bankers_def decimal_ops.defs)

lemma demo_service_billing: "billing_platform demo_service_ops"
  using demo_ops_platform unfolding billing_platform_def billing_platform_axioms_def rust_decimal_def by simp

lemma demo_service_telemetry: "telemetry_platform demo_service_ops"
  by (rule telemetry_platform.intro [OF demo_service_billing])
     (unfold_locales, simp add: demo_ops.dec_of_numeric_exact)

interpretation demo_service: service_platform demo_service_ops
  by (rule service_platform.intro [OF demo_service_telemetry])
     (unfold_locales, auto simp: demo_service_ops_def telemetry_ops.defs split: if_splits)

definition demo_service_hold :: reservation_row where
  "demo_service_hold = \<lparr>rr_id = 7, rr_user = 1, rr_rental = Some 4, rr_amount = 5, rr_status = ''active'', rr_reserved_at = 0,
     rr_expires_at = 100, rr_released_at = None\<rparr>"

definition demo_service_db :: telemetry_db where
  "demo_service_db = events_db.extend (demo_events_db\<lparr>clock := \<lambda>_. 9, rentals := [demo_rental_row],
       users := [\<lparr>usr_id = 1, usr_external = ''alice''\<rparr>],
       credits := [\<lparr>cr_user = 1, cr_balance = 20, cr_reserved = 5, cr_spent = 0, cr_updated = 0\<rparr>],
       credit_reservations := [demo_service_hold]\<rparr>)
     \<lparr>usage_aggregations = None, channel = [], channel_capacity = 2, channel_open = True, metrics = metrics_default,
      send_wait = (\<lambda>_. None)\<rparr>"

lemmas demo_service_defs = demo_service_db_def events_db.defs demo_events_db_def rules_db.defs demo_rules_db_def
  package_db.defs demo_package_db_def

lemma parse_alice_id: "parse_id ''alice'' = None"
  by (simp add: parse_id_def is_digits_def)

lemma demo_service_facts:
  "reliable demo_service_db" "credit_db_ok demo_service_db" "row_of rw_id 4 (rentals demo_service_db) = Some demo_rental_row"
  "resolves demo_service_ops ''alice'' demo_service_db = Some 1" "funding_hold 4 1 demo_service_db demo_service_hold"
  "row_of cr_user 1 (credits demo_service_db) = Some \<lparr>cr_user = 1, cr_balance = 20, cr_reserved = 5, cr_spent = 0, cr_updated = 0\<rparr>"
  "rental_row_ok demo_rental_row" "parse_rental_state (rw_status demo_rental_row) = Active"
  by (simp_all add: demo_service_defs demo_rental_row_def reliable_def credit_db_ok_def unique_key_def user_exists_def
      credit_row_ok_def reservation_row_ok_def amount_ok_def dec6_numeral resolves_def parse_alice_id funding_hold_def
      demo_service_hold_def rental_row_ok_def numeric_fits_def has_places_def parse_rental_state_def)

lemma parse_show_demo [simp]: "parse_rat (show_rat x) = Some x" "parse_id (show_id u) = Some u"
  using demo_service.parse_show_dec [of x] demo_service.parse_show_uuid [of u] by simp_all

lemma amount_ok_numeral: "numeral k < (10 ^ 12 :: rat) \<Longrightarrow> amount_ok (numeral k)"
  by (simp add: amount_ok_def dec6_numeral)


text \<open>C37: finalizing a rental that has no open hold charges the account: a rental that is completed already is charged again
  by every further call.\<close>

theorem finalize_again_charges_again:
  assumes "service_platform D" "reliable s" "credit_db_ok s" "row_of rw_id i (rentals s) = Some q" "rental_row_ok q"
    and "parse_rental_state (rw_status q) = Completed"
    and "parse_uuid D rid = Some i" "parse_dec D cost = Some y" "amount_ok y"
    and "resolves D (rw_user_id q) s = Some u" "unfunded i u s" "row_of cr_user u (credits s) = Some c"
  shows "\<exists>res t. svc_finalize_rental D rid cost s = (res, t) \<and> rental_view t = rental_view s \<and>
    ledger_of t = snd (ledger_charge (rw_user_id q) u y (ledger_of s)) \<and>
    (case fst (ledger_charge (rw_user_id q) u y (ledger_of s)) of Inl e \<Rightarrow> res = Inl Internal | Inr b \<Rightarrow> \<exists>resp. res = Inr resp)"
proof -
  define Q where "Q res L \<longleftrightarrow> L = snd (ledger_charge (rw_user_id q) u y (ledger_of s)) \<and>
    (case fst (ledger_charge (rw_user_id q) u y (ledger_of s)) of Inl e \<Rightarrow> res = Inl Internal | Inr b \<Rightarrow> res = Inr 0)"
    for res :: "status + rat" and L
  have "\<exists>res t. charge_rental D (rw_user_id q) i y (s\<lparr>tick := n, rentals := rs\<rparr>) = (res, t) \<and>
      rentals t = rs \<and> reliable t \<and> Q res (ledger_of t)" for n rs
  proof -
    let ?s = "s\<lparr>tick := n, rentals := rs\<rparr>"
    have pre: "reliable ?s" "credit_db_ok ?s" "resolves D (rw_user_id q) ?s = Some u" "unfunded i u ?s"
      "row_of cr_user u (credits ?s) = Some c" "ledger_of ?s = ledger_of s" "rentals ?s = rs"
      using assms(2,3,10-12) by (simp_all add: ticklessD [OF tickless_credit_db_ok])
    show ?thesis
      using service_platform.charge_unfunded [OF assms(1) pre(1-5) assms(9)] unfolding pre(6,7) Q_def by metis
  qed
  from service_platform.finalize_via [OF assms(1,2,4,5) _ assms(7-9) this] assms(6) obtain res res' t where
    run: "svc_finalize_rental D rid cost s = (res, t)" "rental_view t = (rental_view s)(i \<mapsto> Completed)" "Q res' (ledger_of t)"
    "case res' of Inl e \<Rightarrow> res = Inl e | Inr refund \<Rightarrow> \<exists>resp. res = Inr resp \<and>
      frp_charged_amount resp = format_credit_balance D y \<and> frp_refunded_amount resp = format_credit_balance D refund" by blast
  have "(rental_view s)(i \<mapsto> Completed) = rental_view s" using assms(4,6) by (auto simp: rental_view_def)
  with run show ?thesis
    unfolding Q_def
    by (intro exI [of _ res] exI [of _ t]) (cases "fst (ledger_charge (rw_user_id q) u y (ledger_of s))"; auto)
qed

definition demo_done_db :: telemetry_db where
  "demo_done_db = demo_service_db\<lparr>rentals := [demo_rental_row\<lparr>rw_status := ''completed''\<rparr>], credit_reservations := []\<rparr>"

theorem finalize_again_charges_again_witness:
  "\<exists>resp t. svc_finalize_rental demo_service_ops (show_id 4) (show_rat 3) demo_done_db = (Inr resp, t) \<and>
     rental_view t 4 = Some Completed \<and> lg_acct (ledger_of t) 1 = Some (17, 5, 3)"
proof -
  have db: "reliable demo_done_db" "credit_db_ok demo_done_db" "resolves demo_service_ops ''alice'' demo_done_db = Some 1"
    "row_of cr_user 1 (credits demo_done_db) = Some \<lparr>cr_user = 1, cr_balance = 20, cr_reserved = 5, cr_spent = 0, cr_updated = 0\<rparr>"
    "row_of rw_id 4 (rentals demo_done_db) = Some (demo_rental_row\<lparr>rw_status := ''completed''\<rparr>)" "unfunded 4 1 demo_done_db"
    "rental_row_ok (demo_rental_row\<lparr>rw_status := ''completed''\<rparr>)"
    by (simp_all add: demo_done_db_def demo_service_defs demo_rental_row_def reliable_def credit_db_ok_def unique_key_def
        user_exists_def credit_row_ok_def amount_ok_def dec6_numeral resolves_def parse_alice_id unfunded_def rental_row_ok_def
        numeric_fits_def has_places_def)
  have "rental_view demo_done_db 4 = Some Completed" using db(5) by (simp add: rental_view_def parse_rental_state_def)
  moreover have "lg_acct (ledger_of demo_done_db) 1 = Some (20, 5, 0)" using db(4) by (simp add: lg_acct_row)
  ultimately show ?thesis
    using finalize_again_charges_again [OF demo_service.service_platform_axioms db(1,2,5,7), of "show_id 4" "show_rat 3" 3 1] db(3,4,6)
    by (auto simp: amount_ok_numeral demo_rental_row_def ledger_charge_def set_acct_def parse_rental_state_def)
qed

subsection \<open>A rental that could not be funded\<close>

lemma rentals_tickless: "tickless rentals"
  by (simp add: tickless_def)

lemmas reserve_defs = mgr_reserve_credits_def get_or_create_account_def sql_get_account_def sql_create_account_def
  sql_update_account_def sql_create_reservation_def resolve_user_uuid_def require_user_uuid_def ensure_user_uuid_def
  upsert_user_def insert_credit_row_def update_credit_row_def insert_reservation_row_def reservation_new_def account_new_def
  acct_reserve_credits_def db_now_def

lemma reserve_frames_rentals: "frames rentals (mgr_reserve_credits D (sql_credit_repository D) u c d rid)"
  unfolding reserve_defs sql_credit_repository_simps Let_def
  by (intro frames_rules frames_case_prod frames_modify_other rentals_tickless; simp)+

lemma create_rental_adds:
  assumes "rm_create_rental (sql_rental_repository D) u e v p sp rid s = (Inr i, t)"
  shows "rental_view s i = None \<and> rental_view t = (rental_view s)(i \<mapsto> Pending)"
proof -
  have "\<exists>r. rental_new u e v p sp rid s = (Inr r :: billing_error + rental, s\<lparr>tick := Suc (Suc (tick s))\<rparr>) \<and> rn_state r = Pending"
    by (simp add: rental_new_def andthen_def)
  then obtain r where new: "rental_new u e v p sp rid s = (Inr r :: billing_error + rental, s\<lparr>tick := Suc (Suc (tick s))\<rparr>)" "rn_state r = Pending" by blast
  have "andthen (sql_create_rental D r) (\<lambda>_. ok (rn_id r)) (s\<lparr>tick := Suc (Suc (tick s))\<rparr>) = (Inr i, t)"
    using assms new by (simp add: rm_create_rental_def andthen_def [of "rental_new u e v p sp rid"] del: andthen_rental_new)
  then obtain x where r: "rn_id r = i" "rn_state r = Pending"
    and run: "sql_create_rental D r (s\<lparr>tick := Suc (Suc (tick s))\<rparr>) = (Inr x, t)"
    using new(2) by (auto elim!: andthen_InrE)
  from sql_InrD [OF run [unfolded sql_create_rental_def]] show ?thesis
    using r by (auto simp: rental_view_def [of s] rental_view_insert parse_rental_state_def split: option.splits if_splits)
qed

lemma map_err_cases: "map_err g m s = (r, t) \<Longrightarrow> (\<exists>e. m s = (Inl e, t) \<and> r = Inl (g e)) \<or> (\<exists>x. m s = (Inr x, t) \<and> r = Inr x)"
  by (auto simp: map_err_def split: prod.splits sum.splits)

lemma andthen_map_err_Inl:
  assumes "andthen (map_err g m) f s = (Inl e, t)"
  obtains (first) e' where "m s = (Inl e', t)" "e = g e'" | (rest) x u where "m s = (Inr x, u)" "f x u = (Inl e, t)"
  using assms by (auto simp: andthen_def map_err_def split: prod.splits sum.splits)

lemma announce_not_refused: "announce_start D req rate i h c rid s \<noteq> (Inl FailedPrecondition, t)"
  unfolding announce_start_def Let_def
  by (auto elim!: andthen_map_err_Inl)

lemma duration_arg_run: "duration_arg D d s = (r, t) \<Longrightarrow> t = s \<and> r \<noteq> Inl FailedPrecondition"
  by (auto simp: duration_arg_def ok_or_def andthen_def fail_def ok_def split: option.splits)

lemma hold_refused:
  assumes "hold_and_announce D req rate i s = (Inl FailedPrecondition, t)"
  shows "rentals t = rentals s"
proof (cases "duration_arg D (trq_max_duration req) s")
  case (Pair r u)
  note duration_arg_run [OF this]
  with assms Pair obtain d where "andthen (map_err reserve_status
       (mgr_reserve_credits D (credit_sql D) (trq_user_id req) (cb_multiply D (from_decimal D rate)
         (of_int (uint (word_of_int (num_hours d) :: 32 word)))) d (Some i)))
       (announce_start D req rate i (word_of_int (num_hours d)) (cb_multiply D (from_decimal D rate)
         (of_int (uint (word_of_int (num_hours d) :: 32 word))))) s = (Inl FailedPrecondition, t)"
    by (cases r) (auto simp: hold_and_announce_def andthen_Inl andthen_Inr Let_def)
  then show ?thesis
    using framesD [OF reserve_frames_rentals] announce_not_refused by (elim andthen_map_err_Inl) blast+
qed

text \<open>C39: a rental is created before its cost is reserved: when \<open>track_rental\<close> refuses for lack of balance, a new rental
  is left behind, pending and without a hold, under every fault of the database.\<close>

theorem refused_track_leaves_rental:
  assumes "svc_track_rental D req s = (Inl FailedPrecondition, t)"
  shows "\<exists>i. rental_view s i = None \<and> rental_view t = (rental_view s)(i \<mapsto> Pending)"
proof -
  from assms obtain i u rate where create: "rm_create_rental (rental_sql D) (trq_user_id req) (trq_executor_id req) (trq_validator_id req)
       (package_for_spec (tracked_spec (trq_resource_spec req))) (tracked_spec (trq_resource_spec req)) None s = (Inr i, u)"
    and hold: "hold_and_announce D req rate i (u\<lparr>tick := Suc (tick u)\<rparr>) = (Inl FailedPrecondition, t)"
    unfolding svc_track_rental_def Let_def
    by (auto simp: andthen_def [of "ok_or _ _"] ok_or_def rm_get_rental_def sql_get_rental_def of_result_def
        elim!: andthen_map_err_Inl andthen_InrE dest!: sql_InrD split: option.splits)
  from hold_refused [OF hold] have "rental_view t = rental_view u" by (simp add: rental_view_def fun_eq_iff)
  with create_rental_adds [OF create] show ?thesis by auto
qed

definition demo_track :: track_rental_request where
  "demo_track = \<lparr>trq_rental_id = show_id 0, trq_user_id = ''alice'', trq_executor_id = ''ex'', trq_validator_id = ''val'',
     trq_resource_spec = None, trq_hourly_rate = show_rat 3, trq_max_duration = Some \<lparr>pd_seconds = 36000, pd_nanos = 0\<rparr>\<rparr>"

lemma demo_reserve_refused:
  assumes "reliable s" "credit_db_ok s" "resolves demo_service_ops x s = Some u" "user_exists u s" "amount_ok c"
    and "acct_of (ledger_of s) u = (b, v, l)" "max 0 (b - v) < c"
  shows "\<exists>t. map_err reserve_status (mgr_reserve_credits demo_service_ops (sql_credit_repository demo_service_ops) x c d rid) s =
    (Inl FailedPrecondition, t)"
  by (rule demo_service.mgr_reserve_run [OF assms(1-5), where d = d and rid = rid])
     (use assms(6,7) in \<open>auto simp: map_err_def\<close>)

lemma demo_created:
  "\<exists>row. rm_create_rental (sql_rental_repository demo_service_ops) ''alice'' ''ex'' ''val'' package_custom (tracked_spec None) None
     demo_service_db = (Inr 101, demo_service_db\<lparr>tick := 3, rentals := [demo_rental_row, row]\<rparr>) \<and> rw_id row = 101"
proof -
  let ?row = "\<lparr>rw_id = 101, rw_user_id = ''alice'', rw_executor_id = ''ex'', rw_validator_id = Some ''val'',
    rw_package_id = Some ''custom'', rw_status = ''pending'', rw_resource_spec = spec_to_json (tracked_spec None), rw_hourly_rate = 0,
    rw_start_time = 9, rw_end_time = None, rw_max_duration_hours = 24, rw_total_cost = None, rw_metadata = strings_to_json [],
    rw_created_at = 9, rw_updated_at = 9\<rparr>"
  have "rm_create_rental (sql_rental_repository demo_service_ops) ''alice'' ''ex'' ''val'' package_custom (tracked_spec None) None
     demo_service_db = (Inr 101, demo_service_db\<lparr>tick := 3, rentals := [demo_rental_row, ?row]\<rparr>)"
    using demo_service.numeric_exact [of 2 0 10]
    by (simp add: rm_create_rental_def sql_create_rental_def sql_def demo_service_defs zero_cost_def cb_zero_def has_places_def
      demo_rental_row_def package_custom_def rental_new_def andthen_def)
  then show ?thesis by (intro exI [of _ ?row]) simp
qed

lemma demo_track_refused: "\<exists>t. svc_track_rental demo_service_ops demo_track demo_service_db = (Inl FailedPrecondition, t)"
proof -
  obtain row where create: "rm_create_rental (sql_rental_repository demo_service_ops) ''alice'' ''ex'' ''val'' package_custom
      (tracked_spec None) None demo_service_db = (Inr 101, demo_service_db\<lparr>tick := 3, rentals := [demo_rental_row, row]\<rparr>)"
    and row: "rw_id row = 101" using demo_created by blast
  let ?s = "demo_service_db\<lparr>rentals := [demo_rental_row, row], tick := 4\<rparr>"
  have dur: "duration_arg demo_service_ops (trq_max_duration demo_track) ?s = (Inr 36000000000000, ?s)"
    by (simp add: duration_arg_def demo_track_def demo_service_ops_def telemetry_ops.defs andthen_def)
  have "uint (word_of_int (num_hours 36000000000000) :: 32 word) = 10"
    by (simp add: num_hours_def trunc_div_def hour_ns_def)
  from arg_cong [OF this, of of_int] have hours: "(unsigned (word_of_int (num_hours 36000000000000) :: 32 word) :: rat) = 10" by simp
  have cost: "cb_multiply demo_service_ops (from_decimal demo_service_ops 3) 10 = 30" by code_simp
  have "user_exists 1 demo_service_db" "acct_of (ledger_of demo_service_db) 1 = (20, 5, 0)"
    by (simp_all add: user_exists_def acct_of_def lg_acct_row demo_service_defs)
  then obtain t where "map_err reserve_status (mgr_reserve_credits demo_service_ops (sql_credit_repository demo_service_ops)
      ''alice'' 30 36000000000000 (Some 101)) ?s = (Inl FailedPrecondition, t)"
    using demo_reserve_refused [of ?s "''alice''" 1 30 20 5 0 36000000000000 "Some 101"] demo_service_facts(1,2,4)
    by (auto simp: amount_ok_numeral ticklessD [OF tickless_credit_db_ok] user_exists_def)
  then have "hold_and_announce demo_service_ops demo_track 3 101 ?s = (Inl FailedPrecondition, t)"
    using dur by (simp add: hold_and_announce_def andthen_def Let_def hours cost) (simp add: demo_track_def)
  then show ?thesis
    using create row
    by (simp add: svc_track_rental_def demo_track_def parse_decimal_def package_for_spec_def rm_get_rental_def sql_get_rental_def
      reliable_sql demo_service_facts(1) tracked_spec_def map_err_def andthen_def)
qed

theorem refused_track_leaves_rental_witness:
  "\<exists>i t. svc_track_rental demo_service_ops demo_track demo_service_db = (Inl FailedPrecondition, t) \<and>
     rental_view demo_service_db i = None \<and> rental_view t i = Some Pending"
proof -
  obtain t where run: "svc_track_rental demo_service_ops demo_track demo_service_db = (Inl FailedPrecondition, t)"
    using demo_track_refused by blast
  from refused_track_leaves_rental [OF run] run show ?thesis by auto
qed

subsection \<open>Applying credits\<close>

context service_platform
begin

lemma apply_once:
  assumes "reliable s" "credit_db_ok s" "resolves D (acq_user_id req) s = Some u" "user_exists u s"
    and "parse_dec D (acq_amount req) = Some x" "amount_ok x" "acct_of (ledger_of s) u = (b, v, l)" "b + x < 10 ^ 12"
  obtains resp t where "svc_apply_credits D req s = (Inr resp, t)" "acp_credit_id resp = acq_transaction_id req"
    "ledger_of t = set_acct u (b + x, v, l) (ledger_of s)" "reliable t" "credit_db_ok t"
    "resolves D (acq_user_id req) t = Some u" "user_exists u t"
proof -
  obtain n now now' r where run: "mgr_apply_credits D (sql_credit_repository D) (acq_user_id req) x s =
      (Inr (b + x), put_credit u (b + x) v l now' (ensured u now (s\<lparr>tick := n\<rparr>)))"
    and row: "row_of cr_user u (credits (ensured u now s)) = Some r"
    using mgr_apply_run [OF assms(1-4,6)] assms(7,8) by (auto split: if_splits) metis
  let ?t = "put_credit u (b + x) v l now' (ensured u now (s\<lparr>tick := n\<rparr>))"
  have ok: "credit_db_ok ?t" using keepsD [OF sql_credits.mgr_apply_credits_keeps [OF assms(6)] assms(2) run] .
  have fd: "from_decimal D x = x" using from_decimal_id amount_ok_credit_ok assms(6) by blast
  show ?thesis
  proof (rule that)
    show "svc_apply_credits D req s = (Inr \<lparr>acp_success = True, acp_new_balance = format_credit_balance D (b + x),
        acp_credit_id = acq_transaction_id req, acp_applied_at = clock s n\<rparr>, ?t\<lparr>tick := Suc n\<rparr>)"
      using run assms(5) by (simp add: svc_apply_credits_def parse_decimal_def map_err_def andthen_def fd)
    show "ledger_of (?t\<lparr>tick := Suc n\<rparr>) = set_acct u (b + x, v, l) (ledger_of s)" using row by simp
    show "credit_db_ok (?t\<lparr>tick := Suc n\<rparr>)" using ok by (simp only: ticklessD [OF tickless_credit_db_ok])
    show "reliable (?t\<lparr>tick := Suc n\<rparr>)" using assms(1) by simp
    show "resolves D (acq_user_id req) (?t\<lparr>tick := Suc n\<rparr>) = Some u" using assms(3) by simp
    show "user_exists u (?t\<lparr>tick := Suc n\<rparr>)" using assms(4) by (simp add: user_exists_def)
  qed simp
qed

end

text \<open>C38: applying credits is not idempotent: two requests with the same \<open>transaction_id\<close> both succeed, report the same
  credit id, and add the amount twice. A sender that repeats a request it got no answer to is credited twice.\<close>

theorem apply_credits_twice:
  assumes "service_platform D" "reliable s" "credit_db_ok s" "resolves D (acq_user_id req) s = Some u" "user_exists u s"
    and "parse_dec D (acq_amount req) = Some x" "amount_ok x" "acct_of (ledger_of s) u = (b, v, l)" "b + x + x < 10 ^ 12"
  shows "\<exists>r1 t1 r2 t2. svc_apply_credits D req s = (Inr r1, t1) \<and> svc_apply_credits D req t1 = (Inr r2, t2) \<and>
    acp_credit_id r1 = acp_credit_id r2 \<and> ledger_of t2 = set_acct u (b + x + x, v, l) (ledger_of s)"
proof -
  have "b + x < 10 ^ 12" using assms(7,9) by (simp add: amount_ok_def)
  from service_platform.apply_once [OF assms(1-8) this] obtain r1 t1 where
    one: "svc_apply_credits D req s = (Inr r1, t1)" "acp_credit_id r1 = acq_transaction_id req"
      "ledger_of t1 = set_acct u (b + x, v, l) (ledger_of s)" "reliable t1" "credit_db_ok t1"
      "resolves D (acq_user_id req) t1 = Some u" "user_exists u t1" by metis
  have "acct_of (ledger_of t1) u = (b + x, v, l)" by (simp add: one(3))
  from service_platform.apply_once [OF assms(1) one(4-7) assms(6,7) this assms(9)] obtain r2 t2 where
    "svc_apply_credits D req t1 = (Inr r2, t2)" "acp_credit_id r2 = acq_transaction_id req"
    "ledger_of t2 = set_acct u (b + x + x, v, l) (ledger_of t1)" by metis
  with one show ?thesis by (intro exI [of _ r1] exI [of _ t1] exI [of _ r2] exI [of _ t2]) simp
qed

theorem apply_credits_twice_witness:
  "\<exists>r1 t1 r2 t2. svc_apply_credits demo_service_ops \<lparr>acq_user_id = ''alice'', acq_amount = show_rat 7, acq_transaction_id = ''tx''\<rparr>
       demo_service_db = (Inr r1, t1) \<and>
     svc_apply_credits demo_service_ops \<lparr>acq_user_id = ''alice'', acq_amount = show_rat 7, acq_transaction_id = ''tx''\<rparr> t1 = (Inr r2, t2) \<and>
     lg_acct (ledger_of t2) 1 = Some (34, 5, 0)"
proof -
  let ?req = "\<lparr>acq_user_id = ''alice'', acq_amount = show_rat 7, acq_transaction_id = ''tx''\<rparr>"
  have pre: "user_exists 1 demo_service_db" "acct_of (ledger_of demo_service_db) 1 = (20, 5, 0)"
    by (simp_all add: user_exists_def acct_of_def lg_acct_row demo_service_defs)
  obtain r1 t1 r2 t2 where "svc_apply_credits demo_service_ops ?req demo_service_db = (Inr r1, t1)"
    "svc_apply_credits demo_service_ops ?req t1 = (Inr r2, t2)" "ledger_of t2 = set_acct 1 (34, 5, 0) (ledger_of demo_service_db)"
    using apply_credits_twice [OF demo_service.service_platform_axioms demo_service_facts(1,2), of ?req 1 7 20 5 0] pre
      demo_service_facts(4) by (auto simp: amount_ok_numeral)
  then show ?thesis by (intro exI [of _ r1] exI [of _ t1] exI [of _ r2] exI [of _ t2]) (simp add: set_acct_def)
qed

subsection \<open>Ingesting a stream\<close>

lemma metrics_ok_tick [simp]: "metrics_ok (s\<lparr>tick := n\<rparr>) = metrics_ok s"
  by (simp add: metrics_ok_def)

lemma word_succ: "(word_of_nat n :: 64 word) + 1 = word_of_nat (Suc n)"
  by simp

lemma ingest_stream_counts:
  "metrics_ok s \<Longrightarrow> \<exists>ps fs last t. ingest_stream (word_of_nat r) (word_of_nat p) (word_of_nat f) now items s =
       (Inr \<lparr>ir_events_received = word_of_nat (r + length (filter (\<lambda>x. \<not> isl x) items)), ir_events_processed = word_of_nat (p + ps),
             ir_events_failed = word_of_nat (f + fs), ir_last_processed = last\<rparr>, t) \<and>
     ps + fs = length items \<and> metrics_ok t \<and> im_total_processed (metrics t) = im_total_processed (metrics s) + ps"
proof (induction items arbitrary: r p f now s)
  case Nil
  then show ?case by auto
next
  case (Cons item items)
  show ?case
  proof (cases item)
    case (Inl e)
    from Cons.IH [OF Cons.prems, of r p "Suc f" now] obtain ps fs last t where
      "ingest_stream (word_of_nat r) (word_of_nat p) (word_of_nat (Suc f)) now items s =
       (Inr \<lparr>ir_events_received = word_of_nat (r + length (filter (\<lambda>x. \<not> isl x) items)), ir_events_processed = word_of_nat (p + ps),
             ir_events_failed = word_of_nat (Suc f + fs), ir_last_processed = last\<rparr>, t)"
      "ps + fs = length items" "metrics_ok t" "im_total_processed (metrics t) = im_total_processed (metrics s) + ps" by blast
    with Inl show ?thesis
      by (intro exI [of _ ps] exI [of _ "Suc fs"] exI [of _ last] exI [of _ t]) (simp add: word_succ del: of_nat_Suc)
  next
    case (Inr d)
    obtain x u where run: "ingest d s = (x, u)" by (cases "ingest d s")
    note spec = ingest_spec [OF Cons.prems run]
    show ?thesis
    proof (cases x)
      case (Inl e)
      from spec have "metrics_ok u" by simp
      from Cons.IH [OF this, of "Suc r" p "Suc f" now] obtain ps fs last t where
        "ingest_stream (word_of_nat (Suc r)) (word_of_nat p) (word_of_nat (Suc f)) now items u =
         (Inr \<lparr>ir_events_received = word_of_nat (Suc r + length (filter (\<lambda>x. \<not> isl x) items)),
               ir_events_processed = word_of_nat (p + ps), ir_events_failed = word_of_nat (Suc f + fs), ir_last_processed = last\<rparr>, t)"
        "ps + fs = length items" "metrics_ok t" "im_total_processed (metrics t) = im_total_processed (metrics u) + ps" by blast
      with Inr run Inl spec show ?thesis
        by (intro exI [of _ ps] exI [of _ "Suc fs"] exI [of _ last] exI [of _ t])
           (simp add: word_succ andthen_def attempt_def del: of_nat_Suc)
    next
      case (Inr y)
      from spec have "metrics_ok (u\<lparr>tick := Suc (tick u)\<rparr>)" by simp
      from Cons.IH [OF this, of "Suc r" "Suc p" f "clock u (tick u)"] obtain ps fs last t where
        "ingest_stream (word_of_nat (Suc r)) (word_of_nat (Suc p)) (word_of_nat f) (clock u (tick u)) items (u\<lparr>tick := Suc (tick u)\<rparr>) =
         (Inr \<lparr>ir_events_received = word_of_nat (Suc r + length (filter (\<lambda>x. \<not> isl x) items)),
               ir_events_processed = word_of_nat (Suc p + ps), ir_events_failed = word_of_nat (f + fs), ir_last_processed = last\<rparr>, t)"
        "ps + fs = length items" "metrics_ok t"
        "im_total_processed (metrics t) = im_total_processed (metrics (u\<lparr>tick := Suc (tick u)\<rparr>)) + ps" by blast
      with \<open>item = Inr d\<close> run Inr spec show ?thesis
        by (intro exI [of _ "Suc ps"] exI [of _ fs] exI [of _ last] exI [of _ t])
           (simp add: word_succ andthen_def attempt_def del: of_nat_Suc)
    qed
  qed
qed

text \<open>C40: a telemetry stream is always answered. The answer counts every message that arrived, processed and failed items add
  up to the items of the stream, and the ingester's counter grows by exactly the messages reported as processed.\<close>

theorem ingest_telemetry_counts:
  assumes "metrics_ok s" "length stream < 2 ^ 64"
  shows "\<exists>resp t. svc_ingest_telemetry stream s = (Inr resp, t) \<and> metrics_ok t \<and>
    unat (ir_events_received resp) = length (filter (\<lambda>x. \<not> isl x) stream) \<and>
    unat (ir_events_processed resp) + unat (ir_events_failed resp) = length stream \<and>
    im_total_processed (metrics t) = im_total_processed (metrics s) + unat (ir_events_processed resp)"
proof -
  have "metrics_ok (s\<lparr>tick := Suc (tick s)\<rparr>)" using assms(1) by simp
  from ingest_stream_counts [OF this, of 0 0 0 "clock s (tick s)" stream] obtain ps fs last t where
    run: "svc_ingest_telemetry stream s =
       (Inr \<lparr>ir_events_received = word_of_nat (length (filter (\<lambda>x. \<not> isl x) stream)), ir_events_processed = word_of_nat ps,
             ir_events_failed = word_of_nat fs, ir_last_processed = last\<rparr>, t)"
    and sum: "ps + fs = length stream" "metrics_ok t" "im_total_processed (metrics t) = im_total_processed (metrics s) + ps"
    by (auto simp: svc_ingest_telemetry_def)
  have small: "unat (word_of_nat n :: 64 word) = n" if "n \<le> length stream" for n
    using that assms(2) by (simp add: unsigned_of_nat take_bit_nat_eq_self)
  show ?thesis
    using run sum small [of ps] small [of fs] small [OF length_filter_le] by auto
qed

definition demo_message :: telemetry_data where
  "demo_message = \<lparr>td_rental_id = show_id 4, td_executor_id = ''ex'', td_resource_usage = None, td_custom_metrics = []\<rparr>"

theorem ingest_telemetry_counts_witness:
  "\<exists>resp t. svc_ingest_telemetry [Inr demo_message, Inl Internal, Inr demo_message, Inr demo_message] demo_service_db = (Inr resp, t) \<and>
     unat (ir_events_received resp) = 3 \<and> unat (ir_events_processed resp) + unat (ir_events_failed resp) = 4"
  using ingest_telemetry_counts [of demo_service_db "[Inr demo_message, Inl Internal, Inr demo_message, Inr demo_message]"]
  by (auto simp: metrics_ok_def demo_service_defs metrics_default_def)

end
