(* ===== verification/Collateral_Contract.thy ===== *)
theory Collateral_Contract
  imports Prelude "HOL-Library.Word"
begin

section \<open>The collateral contract\<close>

text \<open>
  \<open>crates/collateral-contract/src/CollateralUpgradeable.sol\<close>: miners lock money for an executor, ask for it back, and get it
  after a delay in which the trustee may deny the request; the trustee may also burn (slash) the money.

  The record \<open>contract\<close> is the storage of the contract with its balance and its log; a mapping from two keys is a function of
  a pair, and an entry never written is zero. A function is a program over it that reverts with an error. Arithmetic is
  Solidity's checked arithmetic on 256 and 64 bits. The base contracts of OpenZeppelin (initialisation, roles) are
  parameters, collected in \<open>openzeppelin\<close>.

  A \<open>message\<close> is a call from an account. When the contract pays an account, the account's code runs: the message carries the
  messages that code sends back to the contract (\<open>callback\<close>) and whether it accepts the payment, so the properties hold
  under reentrancy. A history of the contract is a list of \<open>chain_step\<close>s: messages at block times, and money forced into
  the balance without a call. Replacing the code (\<open>_authorizeUpgrade\<close>) ends a history.

  Lemmas: the balance covers every collateral, the pending amount of a key is the sum of its open requests, every
  request is opened once and paid or denied at most once on the right side of its deadline, the log determines the
  collaterals; and what slashing and late deposits do to requests that are still open.
\<close>

subsection \<open>Storage, events and errors\<close>

type_synonym address = "160 word"
type_synonym bytes32 = "256 word"
type_synonym bytes16 = "128 word"
type_synonym executor_key = "bytes32 \<times> bytes16"

datatype role = DEFAULT_ADMIN_ROLE | UPGRADER_ROLE

datatype revert =
    AmountZero
  | BeforeDenyTimeout
  | ExecutorNotOwned
  | InsufficientAmount
  | InvalidDepositMethod
  | NotTrustee
  | PastDenyTimeout
  | ReclaimNotFound
  | TransferFailed
  | InsufficientCollateralForReclaim
  | Require string
  | ArithmeticPanic
  | NotPayable
  | AccessDenied
  | InvalidInitialization

record reclaim =
  rc_hotkey :: bytes32
  rc_executorId :: bytes16
  rc_miner :: address
  rc_amount :: nat
  rc_denyTimeout :: nat

datatype event =
    Deposit bytes32 bytes16 address nat
  | ReclaimProcessStarted nat bytes32 bytes16 address nat nat string bytes16
  | Reclaimed nat bytes32 bytes16 address nat
  | Denied nat string bytes16
  | Slashed bytes32 bytes16 address nat string bytes16
  | ContractUpgraded nat address
  | TrusteeUpdated address address
  | DecisionTimeoutUpdated nat nat
  | MinCollateralIncreaseUpdated nat nat

record 'oz contract =
  NETUID :: nat
  TRUSTEE :: address
  DECISION_TIMEOUT :: nat
  MIN_COLLATERAL_INCREASE :: nat
  executorToMiner :: "executor_key \<Rightarrow> address"
  collaterals :: "executor_key \<Rightarrow> nat"
  reclaims :: "nat \<Rightarrow> reclaim"
  collateralUnderPendingReclaims :: "executor_key \<Rightarrow> nat"
  nextReclaimId :: nat
  access_control :: 'oz
  balance :: nat
  logs :: "(nat \<times> event) list"

text \<open>The base contracts: the guard of \<open>initializer\<close>, the roles, and the public functions that change the roles.\<close>

record 'oz openzeppelin =
  oz_initializer :: "'oz \<Rightarrow> 'oz option"
  oz_grantRole :: "role \<Rightarrow> address \<Rightarrow> 'oz \<Rightarrow> 'oz"
  oz_hasRole :: "role \<Rightarrow> address \<Rightarrow> 'oz \<Rightarrow> bool"
  oz_roleCall :: "address \<Rightarrow> string \<Rightarrow> 'oz \<Rightarrow> 'oz option"

record msg =
  msg_sender :: address
  msg_value :: nat
  block_timestamp :: nat

definition no_reclaim :: reclaim where
  "no_reclaim = \<lparr>rc_hotkey = 0, rc_executorId = 0, rc_miner = 0, rc_amount = 0, rc_denyTimeout = 0\<rparr>"

subsection \<open>What the language does\<close>

definition checked_add :: "nat \<Rightarrow> nat \<Rightarrow> nat \<Rightarrow> ('s, revert, nat) prog" where
  "checked_add w a b = (if a + b < 2 ^ w then ok (a + b) else fail ArithmeticPanic)"

definition checked_sub :: "nat \<Rightarrow> nat \<Rightarrow> ('s, revert, nat) prog" where
  "checked_sub a b = (if b \<le> a then ok (a - b) else fail ArithmeticPanic)"

definition require :: "bool \<Rightarrow> revert \<Rightarrow> ('s, revert, unit) prog" where
  "require b e = (if b then ok () else fail e)"

definition emit :: "msg \<Rightarrow> event \<Rightarrow> ('oz contract, revert, unit) prog" where
  "emit m e = modify (\<lambda>s. s\<lparr>logs := logs s @ [(block_timestamp m, e)]\<rparr>)"

definition nonpayable :: "msg \<Rightarrow> ('oz contract, revert, unit) prog" where
  "nonpayable m = require (msg_value m = 0) NotPayable"

text \<open>\<open>payable(a).call{value: amount}("")\<close>: the money moves, then the code of the account runs; without the money or
  when that code reverts, nothing has happened and the answer is false.\<close>

type_synonym 'oz account_code = "'oz contract \<Rightarrow> bool \<times> 'oz contract"

definition call_value :: "'oz account_code \<Rightarrow> nat \<Rightarrow> ('oz contract, revert, bool) prog" where
  "call_value code amount s =
     (if balance s < amount then (Inr False, s)
      else case code (s\<lparr>balance := balance s - amount\<rparr>) of
             (True, t) \<Rightarrow> (Inr True, t)
           | (False, _) \<Rightarrow> (Inr False, s))"

definition no_code :: "'oz account_code" where
  "no_code s = (True, s)"

definition onlyRole :: "'oz openzeppelin \<Rightarrow> role \<Rightarrow> msg \<Rightarrow> ('oz contract, revert, unit) prog" where
  "onlyRole Z r m =
     andthen (gets (\<lambda>s. oz_hasRole Z r (msg_sender m) (access_control s))) (\<lambda>b. require b AccessDenied)"

subsection \<open>The functions of the contract\<close>

definition getVersion :: nat where
  "getVersion = 1"

definition initialize ::
  "'oz openzeppelin \<Rightarrow> msg \<Rightarrow> nat \<Rightarrow> address \<Rightarrow> nat \<Rightarrow> nat \<Rightarrow> address \<Rightarrow> ('oz contract, revert, unit) prog" where
  "initialize Z m netuid trustee minCollateralIncrease decisionTimeout admin =
     andthen (nonpayable m) (\<lambda>_.
     andthen (gets (\<lambda>s. oz_initializer Z (access_control s))) (\<lambda>guard.
     andthen (ok_or InvalidInitialization guard) (\<lambda>oz.
     andthen (require (trustee \<noteq> 0) (Require ''Trustee address must be non-zero'')) (\<lambda>_.
     andthen (require (admin \<noteq> 0) (Require ''Admin address must be non-zero'')) (\<lambda>_.
     andthen (require (0 < minCollateralIncrease)
       (Require ''Min collateral increase must be greater than 0'')) (\<lambda>_.
     andthen (require (0 < decisionTimeout) (Require ''Decision timeout must be greater than 0'')) (\<lambda>_.
       modify (\<lambda>s. s\<lparr>NETUID := netuid, TRUSTEE := trustee,
         MIN_COLLATERAL_INCREASE := minCollateralIncrease, DECISION_TIMEOUT := decisionTimeout,
         access_control :=
           oz_grantRole Z UPGRADER_ROLE admin (oz_grantRole Z DEFAULT_ADMIN_ROLE admin oz)\<rparr>))))))))"

definition onlyTrustee :: "msg \<Rightarrow> ('oz contract, revert, unit) prog" where
  "onlyTrustee m = andthen (gets TRUSTEE) (\<lambda>trustee. require (msg_sender m = trustee) NotTrustee)"

definition receive_or_fallback :: "('oz contract, revert, unit) prog" where
  "receive_or_fallback = fail InvalidDepositMethod"

definition deposit :: "msg \<Rightarrow> bytes32 \<Rightarrow> bytes16 \<Rightarrow> ('oz contract, revert, unit) prog" where
  "deposit m hotkey executorId =
     andthen (gets MIN_COLLATERAL_INCREASE) (\<lambda>minimum.
     andthen (require (\<not> msg_value m < minimum) InsufficientAmount) (\<lambda>_.
     andthen (gets (\<lambda>s. executorToMiner s (hotkey, executorId))) (\<lambda>owner.
     andthen
       (if owner = 0
        then modify (\<lambda>s. s\<lparr>executorToMiner := (executorToMiner s)((hotkey, executorId) := msg_sender m)\<rparr>)
        else require (owner = msg_sender m) ExecutorNotOwned) (\<lambda>_.
     andthen (gets (\<lambda>s. collaterals s (hotkey, executorId))) (\<lambda>old.
     andthen (checked_add 256 old (msg_value m)) (\<lambda>new.
     andthen (modify (\<lambda>s. s\<lparr>collaterals := (collaterals s)((hotkey, executorId) := new)\<rparr>)) (\<lambda>_.
       emit m (Deposit hotkey executorId (msg_sender m) (msg_value m)))))))))"

definition reclaimCollateral ::
  "msg \<Rightarrow> bytes32 \<Rightarrow> bytes16 \<Rightarrow> string \<Rightarrow> bytes16 \<Rightarrow> ('oz contract, revert, unit) prog" where
  "reclaimCollateral m hotkey executorId url urlContentMd5Checksum =
     andthen (nonpayable m) (\<lambda>_.
     andthen (gets (\<lambda>s. executorToMiner s (hotkey, executorId))) (\<lambda>owner.
     andthen (require (msg_sender m = owner) ExecutorNotOwned) (\<lambda>_.
     andthen (gets (\<lambda>s. collaterals s (hotkey, executorId))) (\<lambda>totalCollateral.
     andthen (gets (\<lambda>s. collateralUnderPendingReclaims s (hotkey, executorId))) (\<lambda>pendingCollateral.
     andthen (checked_sub totalCollateral pendingCollateral) (\<lambda>availableAmount.
     andthen (require (availableAmount \<noteq> 0) AmountZero) (\<lambda>_.
     andthen (gets DECISION_TIMEOUT) (\<lambda>timeout.
     andthen (checked_add 64 (block_timestamp m mod 2 ^ 64) timeout) (\<lambda>denyTimeout.
     andthen (gets nextReclaimId) (\<lambda>next.
     andthen (modify (\<lambda>s. s\<lparr>reclaims := (reclaims s)(next :=
       \<lparr>rc_hotkey = hotkey, rc_executorId = executorId, rc_miner = msg_sender m,
        rc_amount = availableAmount, rc_denyTimeout = denyTimeout\<rparr>)\<rparr>)) (\<lambda>_.
     andthen (checked_add 256 pendingCollateral availableAmount) (\<lambda>pending.
     andthen (modify (\<lambda>s. s\<lparr>collateralUnderPendingReclaims :=
       (collateralUnderPendingReclaims s)((hotkey, executorId) := pending)\<rparr>)) (\<lambda>_.
     andthen (emit m (ReclaimProcessStarted next hotkey executorId (msg_sender m) availableAmount
       denyTimeout url urlContentMd5Checksum)) (\<lambda>_.
     andthen (checked_add 256 next 1) (\<lambda>next'.
       modify (\<lambda>s. s\<lparr>nextReclaimId := next'\<rparr>))))))))))))))))"

definition finalizeReclaim ::
  "msg \<Rightarrow> 'oz account_code \<Rightarrow> nat \<Rightarrow> ('oz contract, revert, unit) prog" where
  "finalizeReclaim m miner_code reclaimRequestId =
     andthen (nonpayable m) (\<lambda>_.
     andthen (gets (\<lambda>s. reclaims s reclaimRequestId)) (\<lambda>r.
     andthen (require (rc_amount r \<noteq> 0) ReclaimNotFound) (\<lambda>_.
     andthen (require (rc_denyTimeout r < block_timestamp m) BeforeDenyTimeout) (\<lambda>_.
     let hotkey = rc_hotkey r; executorId = rc_executorId r; miner = rc_miner r; amount = rc_amount r in
     andthen (modify (\<lambda>s. s\<lparr>reclaims := (reclaims s)(reclaimRequestId := no_reclaim)\<rparr>)) (\<lambda>_.
     andthen (gets (\<lambda>s. collateralUnderPendingReclaims s (hotkey, executorId))) (\<lambda>pending.
     andthen (checked_sub pending amount) (\<lambda>pending'.
     andthen (modify (\<lambda>s. s\<lparr>collateralUnderPendingReclaims :=
       (collateralUnderPendingReclaims s)((hotkey, executorId) := pending')\<rparr>)) (\<lambda>_.
     andthen (gets (\<lambda>s. collaterals s (hotkey, executorId))) (\<lambda>collateral.
     andthen (require (\<not> collateral < amount) InsufficientCollateralForReclaim) (\<lambda>_.
     andthen (checked_sub collateral amount) (\<lambda>collateral'.
     andthen (modify (\<lambda>s. s\<lparr>collaterals := (collaterals s)((hotkey, executorId) := collateral'),
       executorToMiner := (executorToMiner s)((hotkey, executorId) := 0)\<rparr>)) (\<lambda>_.
     andthen (emit m (Reclaimed reclaimRequestId hotkey executorId miner amount)) (\<lambda>_.
     andthen (call_value miner_code amount) (\<lambda>success.
       require success TransferFailed))))))))))))))"

definition denyReclaimRequest ::
  "msg \<Rightarrow> nat \<Rightarrow> string \<Rightarrow> bytes16 \<Rightarrow> ('oz contract, revert, unit) prog" where
  "denyReclaimRequest m reclaimRequestId url urlContentMd5Checksum =
     andthen (nonpayable m) (\<lambda>_.
     andthen (onlyTrustee m) (\<lambda>_.
     andthen (gets (\<lambda>s. reclaims s reclaimRequestId)) (\<lambda>r.
     andthen (require (rc_amount r \<noteq> 0) ReclaimNotFound) (\<lambda>_.
     andthen (require (\<not> rc_denyTimeout r < block_timestamp m) PastDenyTimeout) (\<lambda>_.
     andthen (gets (\<lambda>s. collateralUnderPendingReclaims s (rc_hotkey r, rc_executorId r))) (\<lambda>pending.
     andthen (checked_sub pending (rc_amount r)) (\<lambda>pending'.
     andthen (modify (\<lambda>s. s\<lparr>collateralUnderPendingReclaims :=
       (collateralUnderPendingReclaims s)((rc_hotkey r, rc_executorId r) := pending')\<rparr>)) (\<lambda>_.
     andthen (emit m (Denied reclaimRequestId url urlContentMd5Checksum)) (\<lambda>_.
       modify (\<lambda>s. s\<lparr>reclaims := (reclaims s)(reclaimRequestId := no_reclaim)\<rparr>))))))))))"

definition slashCollateral ::
  "msg \<Rightarrow> bytes32 \<Rightarrow> bytes16 \<Rightarrow> string \<Rightarrow> bytes16 \<Rightarrow> ('oz contract, revert, unit) prog" where
  "slashCollateral m hotkey executorId url urlContentMd5Checksum =
     andthen (nonpayable m) (\<lambda>_.
     andthen (onlyTrustee m) (\<lambda>_.
     andthen (gets (\<lambda>s. collaterals s (hotkey, executorId))) (\<lambda>amount.
     andthen (require (amount \<noteq> 0) AmountZero) (\<lambda>_.
     andthen (modify (\<lambda>s. s\<lparr>collaterals := (collaterals s)((hotkey, executorId) := 0)\<rparr>)) (\<lambda>_.
     andthen (gets (\<lambda>s. executorToMiner s (hotkey, executorId))) (\<lambda>miner.
     andthen (call_value no_code amount) (\<lambda>success.
     andthen (require success TransferFailed) (\<lambda>_.
     andthen (modify (\<lambda>s. s\<lparr>executorToMiner := (executorToMiner s)((hotkey, executorId) := 0)\<rparr>)) (\<lambda>_.
       emit m (Slashed hotkey executorId miner amount url urlContentMd5Checksum))))))))))"

definition updateTrustee :: "'oz openzeppelin \<Rightarrow> msg \<Rightarrow> address \<Rightarrow> ('oz contract, revert, unit) prog" where
  "updateTrustee Z m newTrustee =
     andthen (nonpayable m) (\<lambda>_.
     andthen (onlyRole Z DEFAULT_ADMIN_ROLE m) (\<lambda>_.
     andthen (require (newTrustee \<noteq> 0) (Require ''New trustee cannot be zero address'')) (\<lambda>_.
     andthen (gets TRUSTEE) (\<lambda>oldTrustee.
     andthen (modify (\<lambda>s. s\<lparr>TRUSTEE := newTrustee\<rparr>)) (\<lambda>_.
       emit m (TrusteeUpdated oldTrustee newTrustee))))))"

definition updateDecisionTimeout :: "'oz openzeppelin \<Rightarrow> msg \<Rightarrow> nat \<Rightarrow> ('oz contract, revert, unit) prog" where
  "updateDecisionTimeout Z m newTimeout =
     andthen (nonpayable m) (\<lambda>_.
     andthen (onlyRole Z DEFAULT_ADMIN_ROLE m) (\<lambda>_.
     andthen (require (0 < newTimeout) (Require ''Decision timeout must be greater than 0'')) (\<lambda>_.
     andthen (gets DECISION_TIMEOUT) (\<lambda>oldTimeout.
     andthen (modify (\<lambda>s. s\<lparr>DECISION_TIMEOUT := newTimeout\<rparr>)) (\<lambda>_.
       emit m (DecisionTimeoutUpdated oldTimeout newTimeout))))))"

definition updateMinCollateralIncrease ::
  "'oz openzeppelin \<Rightarrow> msg \<Rightarrow> nat \<Rightarrow> ('oz contract, revert, unit) prog" where
  "updateMinCollateralIncrease Z m newMinIncrease =
     andthen (nonpayable m) (\<lambda>_.
     andthen (onlyRole Z DEFAULT_ADMIN_ROLE m) (\<lambda>_.
     andthen (require (0 < newMinIncrease)
       (Require ''Min collateral increase must be greater than 0'')) (\<lambda>_.
     andthen (gets MIN_COLLATERAL_INCREASE) (\<lambda>oldMinIncrease.
     andthen (modify (\<lambda>s. s\<lparr>MIN_COLLATERAL_INCREASE := newMinIncrease\<rparr>)) (\<lambda>_.
       emit m (MinCollateralIncreaseUpdated oldMinIncrease newMinIncrease))))))"

definition authorizeUpgrade :: "'oz openzeppelin \<Rightarrow> msg \<Rightarrow> address \<Rightarrow> ('oz contract, revert, unit) prog" where
  "authorizeUpgrade Z m newImplementation =
     andthen (onlyRole Z UPGRADER_ROLE m) (\<lambda>_.
       emit m (ContractUpgraded (getVersion + 1) newImplementation))"

subsection \<open>Messages and histories\<close>

datatype call =
    CallInitialize nat address nat nat address
  | CallDeposit bytes32 bytes16
  | CallReclaimCollateral bytes32 bytes16 string bytes16
  | CallFinalizeReclaim nat
  | CallDenyReclaimRequest nat string bytes16
  | CallSlashCollateral bytes32 bytes16 string bytes16
  | CallUpdateTrustee address
  | CallUpdateDecisionTimeout nat
  | CallUpdateMinCollateralIncrease nat
  | CallRoles string
  | CallOther

datatype message =
  Message (sender: address) (amount_sent: nat) (called: call) (callback: "message list") (accepts: bool)

definition role_call :: "'oz openzeppelin \<Rightarrow> msg \<Rightarrow> string \<Rightarrow> ('oz contract, revert, unit) prog" where
  "role_call Z m data =
     andthen (nonpayable m) (\<lambda>_.
     andthen (gets (\<lambda>s. oz_roleCall Z (msg_sender m) data (access_control s))) (\<lambda>res.
     andthen (ok_or AccessDenied res) (\<lambda>oz.
       modify (\<lambda>s. s\<lparr>access_control := oz\<rparr>))))"

fun perform ::
  "'oz openzeppelin \<Rightarrow> msg \<Rightarrow> 'oz account_code \<Rightarrow> call \<Rightarrow> ('oz contract, revert, unit) prog" where
  "perform Z m code (CallInitialize netuid trustee minimum timeout admin) =
     initialize Z m netuid trustee minimum timeout admin"
| "perform Z m code (CallDeposit hotkey executorId) = deposit m hotkey executorId"
| "perform Z m code (CallReclaimCollateral hotkey executorId url md5) =
     reclaimCollateral m hotkey executorId url md5"
| "perform Z m code (CallFinalizeReclaim i) = finalizeReclaim m code i"
| "perform Z m code (CallDenyReclaimRequest i url md5) = denyReclaimRequest m i url md5"
| "perform Z m code (CallSlashCollateral hotkey executorId url md5) =
     slashCollateral m hotkey executorId url md5"
| "perform Z m code (CallUpdateTrustee a) = updateTrustee Z m a"
| "perform Z m code (CallUpdateDecisionTimeout t) = updateDecisionTimeout Z m t"
| "perform Z m code (CallUpdateMinCollateralIncrease v) = updateMinCollateralIncrease Z m v"
| "perform Z m code (CallRoles data) = role_call Z m data"
| "perform Z m code CallOther = receive_or_fallback"

text \<open>A message arrives with its money; an error undoes everything, the money included.\<close>

definition transact :: "nat \<Rightarrow> ('oz contract, revert, unit) prog \<Rightarrow> ('oz contract, revert, unit) prog" where
  "transact v body s =
     (case body (s\<lparr>balance := balance s + v\<rparr>) of
        (Inl e, _) \<Rightarrow> (Inl e, s)
      | (Inr _, t) \<Rightarrow> (Inr (), t))"

fun run_message :: "'oz openzeppelin \<Rightarrow> nat \<Rightarrow> message \<Rightarrow> ('oz contract, revert, unit) prog"
  and run_messages :: "'oz openzeppelin \<Rightarrow> nat \<Rightarrow> message list \<Rightarrow> 'oz contract \<Rightarrow> 'oz contract" where
  "run_message Z now (Message a v c cb acc) s =
     transact v
       (perform Z \<lparr>msg_sender = a, msg_value = v, block_timestamp = now\<rparr> (\<lambda>t. (acc, run_messages Z now cb t)) c) s"
| "run_messages Z now [] s = s"
| "run_messages Z now (m # ms) s = run_messages Z now ms (snd (run_message Z now m s))"

datatype chain_step = Tx nat message | Forced nat

fun chain_run :: "'oz openzeppelin \<Rightarrow> chain_step list \<Rightarrow> 'oz contract \<Rightarrow> 'oz contract" where
  "chain_run Z [] s = s"
| "chain_run Z (Tx now m # xs) s = chain_run Z xs (snd (run_message Z now m s))"
| "chain_run Z (Forced v # xs) s = chain_run Z xs (s\<lparr>balance := balance s + v\<rparr>)"

definition fresh_contract :: "'oz \<Rightarrow> 'oz contract" where
  "fresh_contract oz =
     \<lparr>NETUID = 0, TRUSTEE = 0, DECISION_TIMEOUT = 0, MIN_COLLATERAL_INCREASE = 0,
      executorToMiner = (\<lambda>_. 0), collaterals = (\<lambda>_. 0), reclaims = (\<lambda>_. no_reclaim),
      collateralUnderPendingReclaims = (\<lambda>_. 0), nextReclaimId = 0, access_control = oz,
      balance = 0, logs = []\<rparr>"

subsection \<open>Running the functions\<close>

lemma andthen_if [run_simps]:
  "andthen (if b then m else m') f s = (if b then andthen m f s else andthen m' f s)"
  by simp

lemma andthen_require [run_simps, simp]:
  "andthen (require b e) f s = (if b then f () s else (Inl e, s))"
  by (simp add: require_def)

lemma revert_require_run [run_simps, simp]: "require b e s = (if b then Inr () else Inl e, s)"
  by (simp add: require_def)

lemma andthen_checked [run_simps, simp]:
  "andthen (checked_add w a b) f s = (if a + b < 2 ^ w then f (a + b) s else (Inl ArithmeticPanic, s))"
  "andthen (checked_sub a b) f s = (if b \<le> a then f (a - b) s else (Inl ArithmeticPanic, s))"
  by (simp_all add: checked_add_def checked_sub_def)

lemma andthen_ok_or [run_simps, simp]:
  "andthen (ok_or e x) f s = (case x of None \<Rightarrow> (Inl e, s) | Some y \<Rightarrow> f y s)"
  by (simp add: andthen_def ok_or_def split: option.split)

lemma andthen_emit [run_simps, simp]:
  "andthen (emit m e) f s = f () (s\<lparr>logs := logs s @ [(block_timestamp m, e)]\<rparr>)"
  by (simp add: emit_def)

lemma emit_run [run_simps, simp]:
  "emit m e s = (Inr (), s\<lparr>logs := logs s @ [(block_timestamp m, e)]\<rparr>)"
  by (simp add: emit_def)

lemma andthen_assoc: "andthen (andthen m f) g s = andthen m (\<lambda>x. andthen (f x) g) s"
  by (simp add: andthen_def split: prod.splits sum.splits)

lemma andthen_guards [run_simps, simp]:
  "andthen (nonpayable m) f s = (if msg_value m = 0 then f () s else (Inl NotPayable, s))"
  "andthen (onlyTrustee m) f s = (if msg_sender m = TRUSTEE s then f () s else (Inl NotTrustee, s))"
  "andthen (onlyRole Z r m) f s =
     (if oz_hasRole Z r (msg_sender m) (access_control s) then f () s else (Inl AccessDenied, s))"
  by (simp_all add: nonpayable_def onlyTrustee_def onlyRole_def andthen_assoc)

text \<open>What a call that succeeds has done.\<close>

lemma transact_InrD:
  "transact v body s = (Inr x, t) \<Longrightarrow> body (s\<lparr>balance := balance s + v\<rparr>) = (Inr (), t)"
  by (auto simp: transact_def split: prod.splits sum.splits)

lemma deposit_InrD:
  assumes "deposit m h e s = (Inr (), t)"
  shows "MIN_COLLATERAL_INCREASE s \<le> msg_value m \<and>
    (executorToMiner s (h, e) = 0 \<or> executorToMiner s (h, e) = msg_sender m) \<and>
    collaterals s (h, e) + msg_value m < 2 ^ 256 \<and>
    t = s\<lparr>executorToMiner := (executorToMiner s)((h, e) := msg_sender m),
          collaterals := (collaterals s)((h, e) := collaterals s (h, e) + msg_value m),
          logs := logs s @ [(block_timestamp m, Deposit h e (msg_sender m) (msg_value m))]\<rparr>"
  using assms unfolding deposit_def
  by (auto simp: andthen_if fun_upd_idem split: if_splits)

lemma reclaimCollateral_InrD:
  assumes "reclaimCollateral m h e url md5 s = (Inr (), t)"
  shows "\<exists>a d. msg_sender m = executorToMiner s (h, e) \<and>
    collaterals s (h, e) = collateralUnderPendingReclaims s (h, e) + a \<and> 0 < a \<and>
    d = block_timestamp m mod 2 ^ 64 + DECISION_TIMEOUT s \<and> d < 2 ^ 64 \<and>
    t = s\<lparr>reclaims := (reclaims s)(nextReclaimId s :=
            \<lparr>rc_hotkey = h, rc_executorId = e, rc_miner = msg_sender m, rc_amount = a, rc_denyTimeout = d\<rparr>),
          collateralUnderPendingReclaims := (collateralUnderPendingReclaims s)((h, e) := collaterals s (h, e)),
          logs := logs s @ [(block_timestamp m,
            ReclaimProcessStarted (nextReclaimId s) h e (msg_sender m) a d url md5)],
          nextReclaimId := Suc (nextReclaimId s)\<rparr>"
  using assms unfolding reclaimCollateral_def
  by (auto split: if_splits intro!: exI [where x = "collaterals s (h, e) - collateralUnderPendingReclaims s (h, e)"])

lemma denyReclaimRequest_InrD:
  assumes "denyReclaimRequest m i url md5 s = (Inr (), t)"
  defines "r \<equiv> reclaims s i"
  defines "k \<equiv> (rc_hotkey r, rc_executorId r)"
  shows "msg_sender m = TRUSTEE s \<and> 0 < rc_amount r \<and> block_timestamp m \<le> rc_denyTimeout r \<and>
    rc_amount r \<le> collateralUnderPendingReclaims s k \<and>
    t = s\<lparr>reclaims := (reclaims s)(i := no_reclaim),
          collateralUnderPendingReclaims := (collateralUnderPendingReclaims s)(k :=
            collateralUnderPendingReclaims s k - rc_amount r),
          logs := logs s @ [(block_timestamp m, Denied i url md5)]\<rparr>"
  using assms(1) unfolding denyReclaimRequest_def k_def r_def
  by (auto split: if_splits)

lemma slashCollateral_InrD:
  assumes "slashCollateral m h e url md5 s = (Inr (), t)"
  shows "msg_sender m = TRUSTEE s \<and> 0 < collaterals s (h, e) \<and> collaterals s (h, e) \<le> balance s \<and>
    t = s\<lparr>executorToMiner := (executorToMiner s)((h, e) := 0),
          collaterals := (collaterals s)((h, e) := 0),
          balance := balance s - collaterals s (h, e),
          logs := logs s @ [(block_timestamp m,
            Slashed h e (executorToMiner s (h, e)) (collaterals s (h, e)) url md5)]\<rparr>"
  using assms unfolding slashCollateral_def
  by (auto simp: andthen_def [of "call_value no_code (collaterals s (h, e))"] call_value_def no_code_def split: if_splits)

text \<open>The state in which the code of the miner runs when a request is paid.\<close>

definition after_finalize :: "nat \<Rightarrow> nat \<Rightarrow> 'oz contract \<Rightarrow> 'oz contract" where
  "after_finalize now i s =
     (let r = reclaims s i; k = (rc_hotkey r, rc_executorId r) in
      s\<lparr>reclaims := (reclaims s)(i := no_reclaim),
        collateralUnderPendingReclaims := (collateralUnderPendingReclaims s)(k :=
          collateralUnderPendingReclaims s k - rc_amount r),
        collaterals := (collaterals s)(k := collaterals s k - rc_amount r),
        executorToMiner := (executorToMiner s)(k := 0),
        logs := logs s @ [(now, Reclaimed i (rc_hotkey r) (rc_executorId r) (rc_miner r) (rc_amount r))],
        balance := balance s - rc_amount r\<rparr>)"

lemma finalizeReclaim_run:
  fixes s :: "'oz contract" and i :: nat
  assumes "msg_value m = 0"
  defines "r \<equiv> reclaims s i"
  defines "k \<equiv> (rc_hotkey r, rc_executorId r)"
  shows "fst (finalizeReclaim m code i s) =
      (if rc_amount r = 0 then Inl ReclaimNotFound
       else if block_timestamp m \<le> rc_denyTimeout r then Inl BeforeDenyTimeout
       else if collateralUnderPendingReclaims s k < rc_amount r then Inl ArithmeticPanic
       else if collaterals s k < rc_amount r then Inl InsufficientCollateralForReclaim
       else if balance s < rc_amount r \<or> \<not> fst (code (after_finalize (block_timestamp m) i s)) then Inl TransferFailed
       else Inr ())"
    and "fst (finalizeReclaim m code i s) = Inr () \<Longrightarrow>
      snd (finalizeReclaim m code i s) = snd (code (after_finalize (block_timestamp m) i s))"
  using assms(1)
  by (auto simp: finalizeReclaim_def Let_def andthen_def [of "call_value code (rc_amount (reclaims s i))"]
      call_value_def after_finalize_def k_def r_def split: if_splits prod.splits bool.splits)

subsection \<open>The contract as a state machine\<close>

text \<open>
  What one function does to the storage, as a step of a machine. Whatever messages arrive and whatever the paid
  accounts send back while they are paid, the contract moves by these steps (\<open>reach_run_message\<close>), so an invariant of
  the machine is an invariant of the contract under reentrancy.
\<close>

fun administrative :: "event \<Rightarrow> bool" where
  "administrative (TrusteeUpdated a b) = True"
| "administrative (DecisionTimeoutUpdated a b) = True"
| "administrative (MinCollateralIncreaseUpdated a b) = True"
| "administrative _ = False"

inductive effect :: "nat \<Rightarrow> 'oz contract \<Rightarrow> 'oz contract \<Rightarrow> bool" for now where
  Eff_Deposit:
    "executorToMiner s (h, e) = 0 \<or> executorToMiner s (h, e) = a \<Longrightarrow> collaterals s (h, e) + v < 2 ^ 256 \<Longrightarrow>
     effect now s (s\<lparr>balance := balance s + v, executorToMiner := (executorToMiner s)((h, e) := a),
       collaterals := (collaterals s)((h, e) := collaterals s (h, e) + v),
       logs := logs s @ [(now, Deposit h e a v)]\<rparr>)"
| Eff_Request:
    "collaterals s (h, e) = collateralUnderPendingReclaims s (h, e) + v \<Longrightarrow> 0 < v \<Longrightarrow>
     effect now s (s\<lparr>reclaims := (reclaims s)(nextReclaimId s :=
         \<lparr>rc_hotkey = h, rc_executorId = e, rc_miner = a, rc_amount = v, rc_denyTimeout = d\<rparr>),
       collateralUnderPendingReclaims := (collateralUnderPendingReclaims s)((h, e) := collaterals s (h, e)),
       logs := logs s @ [(now, ReclaimProcessStarted (nextReclaimId s) h e a v d url md5)],
       nextReclaimId := Suc (nextReclaimId s)\<rparr>)"
| Eff_Pay:
    "0 < rc_amount (reclaims s i) \<Longrightarrow> rc_denyTimeout (reclaims s i) < now \<Longrightarrow>
     rc_amount (reclaims s i) \<le> collaterals s (rc_hotkey (reclaims s i), rc_executorId (reclaims s i)) \<Longrightarrow>
     rc_amount (reclaims s i) \<le> balance s \<Longrightarrow> effect now s (after_finalize now i s)"
| Eff_Deny:
    "r = reclaims s i \<Longrightarrow> k = (rc_hotkey r, rc_executorId r) \<Longrightarrow> 0 < rc_amount r \<Longrightarrow> now \<le> rc_denyTimeout r \<Longrightarrow>
     effect now s (s\<lparr>reclaims := (reclaims s)(i := no_reclaim),
       collateralUnderPendingReclaims := (collateralUnderPendingReclaims s)(k :=
         collateralUnderPendingReclaims s k - rc_amount r),
       logs := logs s @ [(now, Denied i url md5)]\<rparr>)"
| Eff_Slash:
    "0 < collaterals s (h, e) \<Longrightarrow> collaterals s (h, e) \<le> balance s \<Longrightarrow>
     effect now s (s\<lparr>executorToMiner := (executorToMiner s)((h, e) := 0),
       collaterals := (collaterals s)((h, e) := 0), balance := balance s - collaterals s (h, e),
       logs := logs s @ [(now, Slashed h e a (collaterals s (h, e)) url md5)]\<rparr>)"
| Eff_Admin:
    "executorToMiner t = executorToMiner s \<Longrightarrow> collaterals t = collaterals s \<Longrightarrow> reclaims t = reclaims s \<Longrightarrow>
     collateralUnderPendingReclaims t = collateralUnderPendingReclaims s \<Longrightarrow>
     nextReclaimId t = nextReclaimId s \<Longrightarrow> balance t = balance s \<Longrightarrow>
     logs t = logs s @ new \<Longrightarrow> list_all (\<lambda>x. administrative (snd x)) new \<Longrightarrow> effect now s t"

inductive reach :: "'oz contract \<Rightarrow> bool" where
  Reach_Fresh: "reach (fresh_contract oz)"
| Reach_Forced: "reach s \<Longrightarrow> reach (s\<lparr>balance := balance s + v\<rparr>)"
| Reach_Effect: "reach s \<Longrightarrow> effect now s t \<Longrightarrow> reach t"

lemma effect_admin_calls:
  "initialize Z m netuid trustee minimum timeout admin s = (Inr (), t) \<Longrightarrow> effect (block_timestamp m) s t"
  "updateTrustee Z m a s = (Inr (), t) \<Longrightarrow> effect (block_timestamp m) s t"
  "updateDecisionTimeout Z m d s = (Inr (), t) \<Longrightarrow> effect (block_timestamp m) s t"
  "updateMinCollateralIncrease Z m v s = (Inr (), t) \<Longrightarrow> effect (block_timestamp m) s t"
  "role_call Z m data s = (Inr (), t) \<Longrightarrow> effect (block_timestamp m) s t"
  by (auto simp: initialize_def updateTrustee_def updateDecisionTimeout_def updateMinCollateralIncrease_def
      role_call_def split: if_splits option.splits intro!: Eff_Admin)

lemma effect_reclaimCollateral:
  assumes "reclaimCollateral m h e url md5 s = (Inr (), t)"
  shows "effect (block_timestamp m) s t"
  using reclaimCollateral_InrD [OF assms] by (elim exE conjE) (hypsubst, rule Eff_Request)

lemma effect_denyReclaimRequest:
  assumes "denyReclaimRequest m i url md5 s = (Inr (), t)"
  shows "effect (block_timestamp m) s t"
  using denyReclaimRequest_InrD [OF assms] by (elim conjE) (hypsubst, rule Eff_Deny [OF refl refl])

lemma effect_slashCollateral:
  assumes "slashCollateral m h e url md5 s = (Inr (), t)"
  shows "effect (block_timestamp m) s t"
  using slashCollateral_InrD [OF assms] by (elim conjE) (hypsubst, rule Eff_Slash)

lemmas effect_calls = effect_reclaimCollateral effect_denyReclaimRequest effect_slashCollateral effect_admin_calls

lemma admin_calls_nonpayable:
  "initialize Z m netuid trustee minimum timeout admin s = (Inr (), t) \<Longrightarrow> msg_value m = 0"
  "updateTrustee Z m a s = (Inr (), t) \<Longrightarrow> msg_value m = 0"
  "updateDecisionTimeout Z m d s = (Inr (), t) \<Longrightarrow> msg_value m = 0"
  "updateMinCollateralIncrease Z m v s = (Inr (), t) \<Longrightarrow> msg_value m = 0"
  "role_call Z m data s = (Inr (), t) \<Longrightarrow> msg_value m = 0"
  "reclaimCollateral m h e url md5 s = (Inr (), t) \<Longrightarrow> msg_value m = 0"
  "finalizeReclaim m code i s = (Inr (), t) \<Longrightarrow> msg_value m = 0"
  "denyReclaimRequest m i url md5 s = (Inr (), t) \<Longrightarrow> msg_value m = 0"
  "slashCollateral m h e url md5 s = (Inr (), t) \<Longrightarrow> msg_value m = 0"
  by (simp_all add: initialize_def updateTrustee_def updateDecisionTimeout_def updateMinCollateralIncrease_def
      role_call_def reclaimCollateral_def finalizeReclaim_def denyReclaimRequest_def slashCollateral_def
      split: if_splits)

lemma reach_transact:
  assumes "reach s" and code: "\<And>t. reach t \<Longrightarrow> reach (snd (code t))" and m: "v = msg_value m"
  shows "reach (snd (transact v (perform Z m code c) s))"
proof (cases "transact v (perform Z m code c) s")
  case (Pair res t)
  show ?thesis
  proof (cases res)
    case (Inl e)
    with Pair have "t = s" by (auto simp: transact_def split: prod.splits sum.splits)
    with Pair assms(1) show ?thesis by simp
  next
    case (Inr x)
    let ?s = "s\<lparr>balance := balance s + v\<rparr>"
    have run: "perform Z m code c ?s = (Inr (), t)"
      using Pair Inr by (intro transact_InrD [of v _ s x]) simp
    have forced: "reach ?s" using assms(1) by (rule Reach_Forced)
    have "reach t"
    proof (cases c)
      case (CallDeposit h e)
      show ?thesis
        using deposit_InrD [of m h e ?s t] run CallDeposit m
          Reach_Effect [OF assms(1) Eff_Deposit [of s h e "msg_sender m" v "block_timestamp m"]] by simp
    next
      case (CallFinalizeReclaim i)
      with run have fin: "finalizeReclaim m code i ?s = (Inr (), t)" by simp
      note v = admin_calls_nonpayable(7) [OF fin]
      have "reach (after_finalize (block_timestamp m) i ?s)"
        using finalizeReclaim_run(1) [OF v, of code i ?s] fin
        by (intro Reach_Effect [OF forced Eff_Pay]) (auto split: if_splits)
      then show ?thesis using finalizeReclaim_run(2) [OF v, of code i ?s] fin code by auto
    qed (use run forced in \<open>auto simp: receive_or_fallback_def intro: Reach_Effect effect_calls\<close>)
    with Pair show ?thesis by simp
  qed
qed

lemma reach_run_message:
  "reach s \<Longrightarrow> reach (snd (run_message Z now m s))"
  "reach s \<Longrightarrow> reach (run_messages Z now ms s)"
proof (induction Z now m s and Z now ms s rule: run_message_run_messages.induct)
  case (1 Z now a v c cb acc s)
  then show ?case by (simp del: perform.simps) (rule reach_transact; simp)
qed simp_all

lemma reach_chain_run: "reach s \<Longrightarrow> reach (chain_run Z steps s)"
  by (induction Z steps s rule: chain_run.induct) (simp_all add: reach_run_message(1) Reach_Forced)

lemma reach_history: "reach (chain_run Z steps (fresh_contract oz))"
  by (intro reach_chain_run Reach_Fresh)

subsection \<open>Invariants\<close>

text \<open>All money locked, the open requests of a key, what the log says the collaterals are, and the log of one request.\<close>

definition locked_keys :: "(executor_key \<Rightarrow> nat) \<Rightarrow> executor_key set" where
  "locked_keys f = {k. f k \<noteq> 0}"

definition locked_total :: "(executor_key \<Rightarrow> nat) \<Rightarrow> nat" where
  "locked_total f = sum f (locked_keys f)"

definition open_amount :: "executor_key \<Rightarrow> reclaim \<Rightarrow> nat" where
  "open_amount k r = (if (rc_hotkey r, rc_executorId r) = k then rc_amount r else 0)"

definition pending_of :: "'oz contract \<Rightarrow> executor_key \<Rightarrow> nat" where
  "pending_of s k = (\<Sum>i<nextReclaimId s. open_amount k (reclaims s i))"

fun replay_event :: "event \<Rightarrow> (executor_key \<Rightarrow> nat) \<Rightarrow> executor_key \<Rightarrow> nat" where
  "replay_event (Deposit h e a v) f = f((h, e) := f (h, e) + v)"
| "replay_event (Reclaimed i h e a v) f = f((h, e) := f (h, e) - v)"
| "replay_event (Slashed h e a v url md5) f = f((h, e) := 0)"
| "replay_event _ f = f"

definition replay :: "(nat \<times> event) list \<Rightarrow> executor_key \<Rightarrow> nat" where
  "replay xs = fold (\<lambda>x. replay_event (snd x)) xs (\<lambda>_. 0)"

fun request_of :: "event \<Rightarrow> nat option" where
  "request_of (ReclaimProcessStarted i h e a v d url md5) = Some i"
| "request_of (Reclaimed i h e a v) = Some i"
| "request_of (Denied i url md5) = Some i"
| "request_of _ = None"

definition request_log :: "nat \<Rightarrow> (nat \<times> event) list \<Rightarrow> (nat \<times> event) list" where
  "request_log i xs = filter (\<lambda>x. request_of (snd x) = Some i) xs"

text \<open>The life of a request: not yet made, open, paid after its deadline, or denied by it.\<close>

definition request_started :: "nat \<Rightarrow> event \<Rightarrow> reclaim \<Rightarrow> bool" where
  "request_started i ev r =
     (case ev of
        ReclaimProcessStarted j h e a v d url md5 \<Rightarrow>
          j = i \<and> 0 < v \<and> r = \<lparr>rc_hotkey = h, rc_executorId = e, rc_miner = a, rc_amount = v, rc_denyTimeout = d\<rparr>
      | _ \<Rightarrow> False)"

fun started_reclaim :: "event \<Rightarrow> reclaim" where
  "started_reclaim (ReclaimProcessStarted j h e a v d url md5) =
     \<lparr>rc_hotkey = h, rc_executorId = e, rc_miner = a, rc_amount = v, rc_denyTimeout = d\<rparr>"
| "started_reclaim _ = no_reclaim"

definition request_settled :: "nat \<Rightarrow> reclaim \<Rightarrow> nat \<Rightarrow> event \<Rightarrow> bool" where
  "request_settled i r t ev =
     (case ev of
        Reclaimed j h e a v \<Rightarrow>
          j = i \<and> h = rc_hotkey r \<and> e = rc_executorId r \<and> a = rc_miner r \<and> v = rc_amount r \<and> rc_denyTimeout r < t
      | Denied j url md5 \<Rightarrow> j = i \<and> t \<le> rc_denyTimeout r
      | _ \<Rightarrow> False)"

definition request_life :: "nat \<Rightarrow> (nat \<times> event) list \<Rightarrow> reclaim \<Rightarrow> bool" where
  "request_life i xs r =
     (case xs of
        [] \<Rightarrow> r = no_reclaim
      | [(_, e)] \<Rightarrow> request_started i e r
      | [(_, e), (t, f)] \<Rightarrow>
          request_started i e (started_reclaim e) \<and> request_settled i (started_reclaim e) t f \<and> r = no_reclaim
      | _ \<Rightarrow> False)"

definition never_slashed :: "executor_key \<Rightarrow> (nat \<times> event) list \<Rightarrow> bool" where
  "never_slashed k xs =
     list_all (\<lambda>x. case snd x of Slashed h e a v url md5 \<Rightarrow> (h, e) \<noteq> k | _ \<Rightarrow> True) xs"

lemma locked_total_upd:
  assumes "finite (locked_keys f)"
  shows "locked_total (f(k := v)) + f k = locked_total f + v"
proof -
  let ?A = "insert k (locked_keys f)"
  have fin: "finite ?A" using assms by simp
  have total: "locked_total g = sum g ?A" if "locked_keys g \<subseteq> ?A" for g
    unfolding locked_total_def using fin that by (intro sum.mono_neutral_left) (auto simp: locked_keys_def)
  have "locked_total (f(k := v)) = sum (f(k := v)) ?A" by (rule total) (auto simp: locked_keys_def)
  also have "\<dots> = v + sum f (?A - {k})" using fin by (subst sum.remove [of _ k]) (auto intro!: sum.cong)
  finally have "locked_total (f(k := v)) = v + sum f (?A - {k})" .
  moreover have "locked_total f = f k + sum f (?A - {k})"
    using fin total [of f] sum.remove [of ?A k f] by auto
  ultimately show ?thesis by simp
qed

lemma locked_total_le: "finite (locked_keys f) \<Longrightarrow> f k \<le> locked_total f"
  using locked_total_upd [of f k 0] by simp

lemma finite_locked_keys_upd [simp]: "finite (locked_keys f) \<Longrightarrow> finite (locked_keys (f(k := v)))"
  by (rule finite_subset [of _ "insert k (locked_keys f)"]) (auto simp: locked_keys_def)

definition covered :: "'oz contract \<Rightarrow> bool" where
  "covered s \<longleftrightarrow> finite (locked_keys (collaterals s)) \<and> locked_total (collaterals s) \<le> balance s"

lemma covered_upd:
  assumes "covered s" and "collaterals t = (collaterals s)(k := v)"
    and "balance s + v \<le> balance t + collaterals s k"
  shows "covered t"
  using assms locked_total_upd [of "collaterals s" k v] by (simp add: covered_def)

lemma reach_covered: "reach s \<Longrightarrow> covered s"
proof (induction rule: reach.induct)
  case (Reach_Effect s now t)
  from Reach_Effect(2) show ?case
  proof cases
    case (Eff_Deposit h e a v)
    then show ?thesis by (intro covered_upd [OF Reach_Effect.IH, of _ "(h, e)" "collaterals s (h, e) + v"]) simp_all
  next
    case (Eff_Pay i)
    then show ?thesis by (intro covered_upd [OF Reach_Effect.IH]) (simp_all add: after_finalize_def Let_def, linarith)
  next
    case (Eff_Slash h e a url md5)
    then show ?thesis by (intro covered_upd [OF Reach_Effect.IH, of _ "(h, e)" 0]) simp_all
  qed (use Reach_Effect.IH in \<open>simp_all add: covered_def\<close>)
qed (simp_all add: covered_def fresh_contract_def locked_total_def locked_keys_def)

text \<open>The pending amount of a key is the sum of its open requests.\<close>

definition pending_ok :: "'oz contract \<Rightarrow> bool" where
  "pending_ok s \<longleftrightarrow> (\<forall>i\<ge>nextReclaimId s. reclaims s i = no_reclaim) \<and>
     collateralUnderPendingReclaims s = pending_of s"

lemma no_reclaim_amount [simp]: "rc_amount no_reclaim = 0" "open_amount k no_reclaim = 0"
  by (simp_all add: no_reclaim_def open_amount_def)

lemma open_request_id: "pending_ok s \<Longrightarrow> 0 < rc_amount (reclaims s i) \<Longrightarrow> i < nextReclaimId s"
  by (rule ccontr) (simp add: pending_ok_def)

lemma pending_of_close:
  assumes "i < nextReclaimId s" and "nextReclaimId t = nextReclaimId s" and "reclaims t = (reclaims s)(i := no_reclaim)"
  shows "pending_of s k = pending_of t k + open_amount k (reclaims s i)"
proof -
  have "pending_of s k = open_amount k (reclaims s i) + (\<Sum>j\<in>{..<nextReclaimId s} - {i}. open_amount k (reclaims s j))"
    using assms(1) by (simp add: pending_of_def sum.remove)
  also have "(\<Sum>j\<in>{..<nextReclaimId s} - {i}. open_amount k (reclaims s j)) = pending_of t k"
    using assms by (simp add: pending_of_def sum.remove [of _ i])
  finally show ?thesis by simp
qed

lemma pending_of_open:
  assumes "nextReclaimId t = Suc (nextReclaimId s)" and "reclaims t = (reclaims s)(nextReclaimId s := r)"
  shows "pending_of t k = pending_of s k + open_amount k r"
  using assms by (simp add: pending_of_def)

lemma pending_ok_close:
  assumes "pending_ok s" and "0 < rc_amount (reclaims s i)"
    and "k = (rc_hotkey (reclaims s i), rc_executorId (reclaims s i))"
    and "nextReclaimId t = nextReclaimId s" and "reclaims t = (reclaims s)(i := no_reclaim)"
    and "collateralUnderPendingReclaims t =
           (collateralUnderPendingReclaims s)(k := collateralUnderPendingReclaims s k - rc_amount (reclaims s i))"
  shows "pending_ok t"
  using assms(1) pending_of_close [OF open_request_id [OF assms(1,2)] assms(4,5)] assms(3-6)
  by (simp add: pending_ok_def fun_eq_iff open_amount_def del: split_paired_All)

lemma reach_pending: "reach s \<Longrightarrow> pending_ok s"
proof (induction rule: reach.induct)
  case (Reach_Forced s v)
  then show ?case by (simp add: pending_ok_def pending_of_def fun_eq_iff)
next
  case (Reach_Effect s now t)
  note keep = pending_ok_def pending_of_def fun_eq_iff
  from Reach_Effect(2) show ?case
  proof cases
    case (Eff_Request h e v a d url md5)
    then show ?thesis using Reach_Effect.IH pending_of_open [of t s]
      by (simp add: pending_ok_def fun_eq_iff open_amount_def del: split_paired_All)
  next
    case (Eff_Pay i)
    then show ?thesis by (intro pending_ok_close [OF Reach_Effect.IH]) (simp_all add: after_finalize_def Let_def)
  next
    case (Eff_Deny r i k url md5)
    then show ?thesis by (intro pending_ok_close [OF Reach_Effect.IH, of i k]) simp_all
  qed (use Reach_Effect.IH in \<open>simp_all add: keep\<close>)
qed (simp add: pending_ok_def pending_of_def fun_eq_iff fresh_contract_def)

text \<open>The log determines the collaterals.\<close>

lemma replay_snoc [simp]: "replay (xs @ [x]) = replay_event (snd x) (replay xs)"
  by (simp add: replay_def)

lemma replay_administrative: "list_all (\<lambda>x. administrative (snd x)) ys \<Longrightarrow> replay (xs @ ys) = replay xs"
proof (induction ys rule: rev_induct)
  case (snoc y ys)
  then show ?case by (cases "snd y") (simp_all flip: append_assoc)
qed simp

lemma reach_replay: "reach s \<Longrightarrow> collaterals s = replay (logs s)"
proof (induction rule: reach.induct)
  case (Reach_Effect s now t)
  from Reach_Effect(2) show ?case
    using Reach_Effect.IH by cases (simp_all add: after_finalize_def Let_def replay_administrative)
qed (simp_all add: fresh_contract_def replay_def)

text \<open>Every event is one the collaterals before it allow.\<close>

fun event_valid :: "(executor_key \<Rightarrow> nat) \<Rightarrow> event \<Rightarrow> bool" where
  "event_valid f (Deposit h e a v) = (f (h, e) + v < 2 ^ 256)"
| "event_valid f (Reclaimed i h e a v) = (0 < v \<and> v \<le> f (h, e))"
| "event_valid f (Slashed h e a v url md5) = (0 < v \<and> v = f (h, e))"
| "event_valid f _ = True"

fun log_valid :: "(executor_key \<Rightarrow> nat) \<Rightarrow> event list \<Rightarrow> bool" where
  "log_valid f [] = True"
| "log_valid f (x # xs) = (event_valid f x \<and> log_valid (replay_event x f) xs)"

lemma log_valid_append:
  "log_valid f (xs @ ys) \<longleftrightarrow> log_valid f xs \<and> log_valid (fold replay_event xs f) ys"
  by (induction xs arbitrary: f) simp_all

lemma replay_fold: "replay xs = fold replay_event (map snd xs) (\<lambda>_. 0)"
  by (simp add: replay_def fold_map comp_def)

lemma log_valid_administrative: "list_all (\<lambda>x. administrative (snd x)) xs \<Longrightarrow> log_valid f (map snd xs)"
proof (induction xs)
  case (Cons x xs)
  then show ?case by (cases "snd x") simp_all
qed simp

lemma reach_log_valid: "reach s \<Longrightarrow> log_valid (\<lambda>_. 0) (map snd (logs s))"
proof (induction rule: reach.induct)
  case (Reach_Effect s now t)
  note coll = reach_replay [OF Reach_Effect(1), unfolded replay_fold, symmetric]
  from Reach_Effect(2) show ?case
    using Reach_Effect.IH
    by cases (simp_all add: log_valid_append coll after_finalize_def Let_def log_valid_administrative)
qed (simp_all add: fresh_contract_def)

text \<open>Without slashing, the pending requests of a key never exceed its collateral.\<close>

lemma never_slashed_simps [simp]:
  "never_slashed k (xs @ ys) \<longleftrightarrow> never_slashed k xs \<and> never_slashed k ys"
  "never_slashed k [x] \<longleftrightarrow> (case snd x of Slashed h e a v url md5 \<Rightarrow> (h, e) \<noteq> k | _ \<Rightarrow> True)"
  by (simp_all add: never_slashed_def)

lemma reach_backed:
  "reach s \<Longrightarrow> never_slashed k (logs s) \<Longrightarrow> collateralUnderPendingReclaims s k \<le> collaterals s k"
proof (induction rule: reach.induct)
  case (Reach_Effect s now t)
  from Reach_Effect(2) show ?case
  proof cases
    case (Eff_Pay i)
    let ?r = "reclaims s i"
    have "open_amount k ?r \<le> collateralUnderPendingReclaims s k"
      using reach_pending [OF Reach_Effect(1)] Eff_Pay(2)
        pending_of_close [OF open_request_id, of s i "s\<lparr>reclaims := (reclaims s)(i := no_reclaim)\<rparr>" k]
      by (simp add: pending_ok_def)
    with Eff_Pay Reach_Effect.IH Reach_Effect.prems show ?thesis
      by (auto simp: after_finalize_def Let_def open_amount_def)
  next
    case (Eff_Deny r i k' url md5)
    with Reach_Effect.IH Reach_Effect.prems show ?thesis by (auto intro: le_trans [OF diff_le_self])
  qed (use Reach_Effect.IH Reach_Effect.prems in \<open>auto simp: never_slashed_def\<close>)
qed (simp_all add: fresh_contract_def)

text \<open>Every request lives one of its lives.\<close>

definition requests_ok :: "'oz contract \<Rightarrow> bool" where
  "requests_ok s \<longleftrightarrow> (\<forall>i. request_life i (request_log i (logs s)) (reclaims s i)) \<and>
     (\<forall>i\<ge>nextReclaimId s. request_log i (logs s) = [])"

lemma request_log_simps [simp]:
  "request_log i (xs @ ys) = request_log i xs @ request_log i ys"
  "request_log i [x] = (if request_of (snd x) = Some i then [x] else [])"
  by (simp_all add: request_log_def)

lemma request_log_administrative: "list_all (\<lambda>x. administrative (snd x)) xs \<Longrightarrow> request_log i xs = []"
proof (induction xs)
  case (Cons x xs)
  then show ?case by (cases "snd x") (simp_all add: request_log_def)
qed (simp add: request_log_def)

lemma request_life_open:
  assumes "request_life i xs r" and "0 < rc_amount r"
  obtains t ev where "xs = [(t, ev)]" and "request_started i ev r" and "started_reclaim ev = r"
proof (cases xs rule: remdups_adj.cases)
  case 1
  with assms show ?thesis by (simp add: request_life_def)
next
  case (2 x)
  with assms(1) have "request_started i (snd x) r" by (cases x) (simp add: request_life_def)
  moreover from this have "started_reclaim (snd x) = r" by (cases "snd x") (simp_all add: request_started_def)
  ultimately show ?thesis using 2 that [of "fst x" "snd x"] by simp
next
  case (3 x y zs)
  with assms show ?thesis by (cases x; cases y; cases zs) (simp_all add: request_life_def)
qed

lemma request_life_settle:
  assumes "request_life i xs r" and "0 < rc_amount r" and "request_settled i r t ev"
  shows "request_life i (xs @ [(t, ev)]) no_reclaim"
  by (rule request_life_open [OF assms(1,2)]) (use assms(3) in \<open>simp add: request_life_def\<close>)

lemma requests_ok_settle:
  assumes "requests_ok s" and "0 < rc_amount (reclaims s i)" and "request_settled i (reclaims s i) now ev"
    and "request_of ev = Some i" and "nextReclaimId t = nextReclaimId s"
    and "reclaims t = (reclaims s)(i := no_reclaim)" and "logs t = logs s @ [(now, ev)]"
  shows "requests_ok t"
proof -
  have "i < nextReclaimId s"
  proof (rule ccontr)
    assume "\<not> ?thesis"
    with assms(1) have "request_life i [] (reclaims s i)" by (auto simp: requests_ok_def dest!: spec [of _ i])
    with assms(2) show False by (simp add: request_life_def)
  qed
  with assms(1,4-7) request_life_settle [OF _ assms(2,3)] show ?thesis by (auto simp: requests_ok_def)
qed

lemma reach_requests: "reach s \<Longrightarrow> requests_ok s"
proof (induction rule: reach.induct)
  case (Reach_Effect s now t)
  from Reach_Effect(2) show ?case
  proof cases
    case (Eff_Request h e v a d url md5)
    with Reach_Effect.IH show ?thesis
      by (auto simp: requests_ok_def request_life_def request_started_def)
  next
    case (Eff_Pay i)
    then show ?thesis
      by (intro requests_ok_settle [OF Reach_Effect.IH])
        (simp_all add: after_finalize_def Let_def request_settled_def)
  next
    case (Eff_Deny r i k url md5)
    then show ?thesis
      by (intro requests_ok_settle [OF Reach_Effect.IH, of i now "Denied i url md5"]) (simp_all add: request_settled_def)
  qed (use Reach_Effect.IH in \<open>simp_all add: requests_ok_def request_log_administrative\<close>)
qed (simp_all add: requests_ok_def fresh_contract_def request_log_def request_life_def)

subsection \<open>A history\<close>

text \<open>An admin (8) initialises the contract with trustee 7, a minimum of 10 and a delay of 100; miner 1 deposits 50 for
  the executor (3, 4) and asks for it back at time 6.\<close>

definition demo_oz :: "(bool \<times> (role \<times> address) list) openzeppelin" where
  "demo_oz =
     \<lparr>oz_initializer = (\<lambda>(done, rs). if done then None else Some (True, rs)),
      oz_grantRole = (\<lambda>r a (done, rs). (done, (r, a) # rs)),
      oz_hasRole = (\<lambda>r a (done, rs). (r, a) \<in> set rs),
      oz_roleCall = (\<lambda>a data oz. None)\<rparr>"

definition demo_steps :: "chain_step list" where
  "demo_steps =
     [Tx 1 (Message 8 0 (CallInitialize 39 7 10 100 8) [] True),
      Tx 5 (Message 1 50 (CallDeposit 3 4) [] True),
      Tx 6 (Message 1 0 (CallReclaimCollateral 3 4 ''url'' 0) [] True)]"

definition demo_late_steps :: "chain_step list" where
  "demo_late_steps = demo_steps @ [Tx 7 (Message 1 20 (CallDeposit 3 4) [] True)]"

abbreviation demo_contract :: "(bool \<times> (role \<times> address) list) contract" where
  "demo_contract \<equiv> chain_run demo_oz demo_steps (fresh_contract (False, []))"

abbreviation demo_late_contract :: "(bool \<times> (role \<times> address) list) contract" where
  "demo_late_contract \<equiv> chain_run demo_oz demo_late_steps (fresh_contract (False, []))"

lemmas demo_simps = demo_steps_def demo_late_steps_def demo_oz_def fresh_contract_def transact_def initialize_def
  deposit_def reclaimCollateral_def andthen_if no_reclaim_def

lemma demo_contract_fields:
  "TRUSTEE demo_contract = 7" "MIN_COLLATERAL_INCREASE demo_contract = 10" "DECISION_TIMEOUT demo_contract = 100"
  "collaterals demo_contract (3, 4) = 50" "nextReclaimId demo_contract = 1"
  "reclaims demo_contract 0 =
     \<lparr>rc_hotkey = 3, rc_executorId = 4, rc_miner = 1, rc_amount = 50, rc_denyTimeout = 106\<rparr>"
  "never_slashed (3, 4) (logs demo_contract)"
  by (simp_all add: demo_simps never_slashed_def)

lemma demo_late_contract_fields:
  "TRUSTEE demo_late_contract = 7" "MIN_COLLATERAL_INCREASE demo_late_contract = 10"
  "DECISION_TIMEOUT demo_late_contract = 100" "collaterals demo_late_contract (3, 4) = 70"
  "nextReclaimId demo_late_contract = 1" "collateralUnderPendingReclaims demo_late_contract (3, 4) = 50"
  "reclaims demo_late_contract 0 =
     \<lparr>rc_hotkey = 3, rc_executorId = 4, rc_miner = 1, rc_amount = 50, rc_denyTimeout = 106\<rparr>"
  by (simp_all add: demo_simps)

subsection \<open>Properties of the contract\<close>

text \<open>C17: Whatever messages arrive, in whatever order and with whatever calls back from the accounts that are paid, the
  balance covers the sum of all collaterals, the pending amount of every key is the sum of its open requests, and
  the log of the contract determines its collaterals.\<close>

theorem collateral_is_covered:
  "let s = chain_run Z steps (fresh_contract oz) in
   locked_total (collaterals s) \<le> balance s \<and>
   collateralUnderPendingReclaims s = pending_of s \<and>
   collaterals s = replay (logs s)"
  using reach_history [of Z steps oz] reach_covered reach_pending reach_replay
  unfolding Let_def covered_def pending_ok_def by blast

text \<open>C18: Every reclaim request is opened once and settled at most once: it is paid, with the amount and to the
  miner it was opened with, only after its deadline, or it is denied, only up to its deadline, and never both; the
  storage has the request exactly while it is open.\<close>

theorem request_settled_once:
  "request_life i (request_log i (logs (chain_run Z steps (fresh_contract oz))))
     (reclaims (chain_run Z steps (fresh_contract oz)) i)"
  using reach_requests [OF reach_history [of Z steps oz]] unfolding requests_ok_def by blast

lemma reach_finalize:
  assumes "reach s" and "0 < rc_amount (reclaims s i)" and "rc_denyTimeout (reclaims s i) < now"
    and "rc_amount (reclaims s i) \<le> collaterals s (rc_hotkey (reclaims s i), rc_executorId (reclaims s i))"
  shows "run_message Z now (Message a 0 (CallFinalizeReclaim i) cb True) s =
    (Inr (), run_messages Z now cb (after_finalize now i s))"
proof -
  let ?r = "reclaims s i" and ?m = "\<lparr>msg_sender = a, msg_value = 0, block_timestamp = now\<rparr>"
  let ?k = "(rc_hotkey ?r, rc_executorId ?r)" and ?code = "\<lambda>t. (True, run_messages Z now cb t)"
  note pend = reach_pending [OF assms(1)]
  have "rc_amount ?r \<le> collateralUnderPendingReclaims s ?k"
    using pending_of_close [OF open_request_id [OF pend assms(2)], of "s\<lparr>reclaims := (reclaims s)(i := no_reclaim)\<rparr>" ?k]
      pend by (simp add: pending_ok_def open_amount_def)
  moreover have "rc_amount ?r \<le> balance s"
    using reach_covered [OF assms(1)] locked_total_le [of "collaterals s" ?k] assms(4) by (simp add: covered_def)
  ultimately have "fst (finalizeReclaim ?m ?code i s) = Inr ()"
    using finalizeReclaim_run(1) [of ?m ?code i s] assms(2-4) by simp
  moreover from this have "snd (finalizeReclaim ?m ?code i s) = run_messages Z now cb (after_finalize now i s)"
    using finalizeReclaim_run(2) [of ?m ?code i s] by simp
  ultimately have "finalizeReclaim ?m ?code i s = (Inr (), run_messages Z now cb (after_finalize now i s))"
    by (metis prod.collapse)
  then show ?thesis by (simp add: transact_def)
qed

text \<open>C19: While a key has never been slashed, every open request of it can be paid once its deadline has passed: the
  call succeeds for every account that accepts the money, whatever else that account does in the meantime.\<close>

theorem unslashed_request_is_paid:
  assumes "s = chain_run Z steps (fresh_contract oz)"
    and "never_slashed (rc_hotkey (reclaims s i), rc_executorId (reclaims s i)) (logs s)"
    and "0 < rc_amount (reclaims s i)" and "rc_denyTimeout (reclaims s i) < now"
  shows "run_message Z now (Message a 0 (CallFinalizeReclaim i) cb True) s =
    (Inr (), run_messages Z now cb (after_finalize now i s))"
proof (rule reach_finalize [OF _ assms(3,4)])
  show reach: "reach s" unfolding assms(1) by (rule reach_history)
  let ?k = "(rc_hotkey (reclaims s i), rc_executorId (reclaims s i))"
  have "open_amount ?k (reclaims s i) \<le> collateralUnderPendingReclaims s ?k"
    using reach_pending [OF reach]
      pending_of_close [OF open_request_id [OF reach_pending [OF reach] assms(3)],
        of "s\<lparr>reclaims := (reclaims s)(i := no_reclaim)\<rparr>" ?k]
    by (simp add: pending_ok_def)
  with reach_backed [OF reach assms(2)] show "rc_amount (reclaims s i) \<le> collaterals s ?k"
    by (simp add: open_amount_def)
qed

theorem unslashed_request_is_paid_witness:
  "run_message demo_oz 107 (Message 9 0 (CallFinalizeReclaim 0) [] True) demo_contract =
    (Inr (), run_messages demo_oz 107 [] (after_finalize 107 0 demo_contract))"
  by (rule unslashed_request_is_paid [OF refl]) (simp_all add: demo_contract_fields)

text \<open>The calls of the scenarios below, with their effect in any reachable state.\<close>

lemma reach_slash:
  assumes "reach s" and "0 < collaterals s (h, e)"
  shows "run_message Z now (Message (TRUSTEE s) 0 (CallSlashCollateral h e url md5) cb acc) s =
    (Inr (), s\<lparr>collaterals := (collaterals s)((h, e) := 0), balance := balance s - collaterals s (h, e),
       executorToMiner := (executorToMiner s)((h, e) := 0),
       logs := logs s @ [(now, Slashed h e (executorToMiner s (h, e)) (collaterals s (h, e)) url md5)]\<rparr>)"
proof -
  have "\<not> balance s < collaterals s (h, e)"
    using reach_covered [OF assms(1)] locked_total_le [of "collaterals s" "(h, e)"] by (simp add: covered_def)
  with assms(2) show ?thesis
    by (simp add: transact_def slashCollateral_def call_value_def no_code_def
        andthen_def [of "call_value no_code (collaterals s (h, e))"])
qed

lemma deposit_new_owner:
  assumes "executorToMiner s (h, e) = 0" and "MIN_COLLATERAL_INCREASE s \<le> v" and "collaterals s (h, e) + v < 2 ^ 256"
  shows "run_message Z now (Message a v (CallDeposit h e) cb acc) s =
    (Inr (), s\<lparr>balance := balance s + v, executorToMiner := (executorToMiner s)((h, e) := a),
       collaterals := (collaterals s)((h, e) := collaterals s (h, e) + v),
       logs := logs s @ [(now, Deposit h e a v)]\<rparr>)"
  using assms by (simp add: transact_def deposit_def andthen_if)

text \<open>C20: Slashing leaves open requests in place. When a key is slashed while a request for it is open, and anyone
  then deposits at least the requested amount for the key, the slashed miner's request is paid out of the new deposit
  once its deadline has passed, and the depositor loses the key.\<close>

theorem slashed_request_takes_new_deposit:
  assumes "s = chain_run Z steps (fresh_contract oz)"
    and "reclaims s i = \<lparr>rc_hotkey = h, rc_executorId = e, rc_miner = miner, rc_amount = v, rc_denyTimeout = d\<rparr>"
    and "0 < v" and "0 < collaterals s (h, e)" and "v \<le> w" and "MIN_COLLATERAL_INCREASE s \<le> w" and "w < 2 ^ 256"
    and "d < t3"
    and "s' = chain_run Z
      [Tx t1 (Message (TRUSTEE s) 0 (CallSlashCollateral h e url md5) [] True),
       Tx t2 (Message b w (CallDeposit h e) [] True),
       Tx t3 (Message c 0 (CallFinalizeReclaim i) [] True)] s"
  shows "collaterals s' (h, e) = w - v \<and> executorToMiner s' (h, e) = 0 \<and>
    balance s' + v = balance s - collaterals s (h, e) + w \<and>
    logs s' = logs s @ [(t1, Slashed h e (executorToMiner s (h, e)) (collaterals s (h, e)) url md5),
      (t2, Deposit h e b w), (t3, Reclaimed i h e miner v)]"
proof -
  define s1 where "s1 = snd (run_message Z t1 (Message (TRUSTEE s) 0 (CallSlashCollateral h e url md5) [] True) s)"
  define s2 where "s2 = snd (run_message Z t2 (Message b w (CallDeposit h e) [] True) s1)"
  have reach: "reach s" unfolding assms(1) by (rule reach_history)
  note s1 = s1_def [unfolded reach_slash [OF reach assms(4)] snd_conv]
  have "s2 = s1\<lparr>balance := balance s1 + w, executorToMiner := (executorToMiner s1)((h, e) := b),
       collaterals := (collaterals s1)((h, e) := collaterals s1 (h, e) + w),
       logs := logs s1 @ [(t2, Deposit h e b w)]\<rparr>"
    unfolding s2_def using assms(6,7) by (subst deposit_new_owner) (simp_all add: s1)
  note s2 = this
  have "reach s2" unfolding s2_def s1_def by (intro reach_run_message reach)
  moreover have "reclaims s2 i = \<lparr>rc_hotkey = h, rc_executorId = e, rc_miner = miner, rc_amount = v, rc_denyTimeout = d\<rparr>"
    using assms(2) by (simp add: s2 s1)
  moreover have "collaterals s2 (h, e) = w" by (simp add: s2 s1)
  ultimately have "run_message Z t3 (Message c 0 (CallFinalizeReclaim i) [] True) s2 = (Inr (), after_finalize t3 i s2)"
    using assms(3,5,8) by (subst reach_finalize) simp_all
  then have "s' = after_finalize t3 i s2" by (simp add: assms(9) s1_def [symmetric] s2_def [symmetric] del: run_message.simps)
  with assms(2,5) show ?thesis by (simp add: after_finalize_def Let_def s2 s1)
qed

theorem slashed_request_takes_new_deposit_witness:
  "collaterals (chain_run demo_oz
      [Tx 8 (Message (TRUSTEE demo_contract) 0 (CallSlashCollateral 3 4 ''why'' 0) [] True),
       Tx 9 (Message 2 60 (CallDeposit 3 4) [] True),
       Tx 107 (Message 1 0 (CallFinalizeReclaim 0) [] True)] demo_contract) (3, 4) = 10"
  using slashed_request_takes_new_deposit [OF refl demo_contract_fields(6) _ _ _ _ _ _ refl,
      of 60 107 8 "''why''" 0 9 2 1]
  by (simp add: demo_contract_fields del: chain_run.simps)

text \<open>C21: Paying a request gives up the key even when collateral remains that was deposited after the request was
  opened. The next depositor, whoever it is, owns the remaining collateral and can request all of it.\<close>

theorem late_deposit_is_orphaned:
  assumes "s = chain_run Z steps (fresh_contract oz)"
    and "reclaims s i = \<lparr>rc_hotkey = h, rc_executorId = e, rc_miner = miner, rc_amount = v, rc_denyTimeout = d\<rparr>"
    and "0 < v" and "v < collaterals s (h, e)" and "collateralUnderPendingReclaims s (h, e) = v"
    and "0 < w" and "MIN_COLLATERAL_INCREASE s \<le> w" and "collaterals s (h, e) + w < 2 ^ 256"
    and "d < t1" and "t3 + DECISION_TIMEOUT s < 2 ^ 64" and "nextReclaimId s + 1 < 2 ^ 256"
    and "s' = chain_run Z
      [Tx t1 (Message a 0 (CallFinalizeReclaim i) [] True),
       Tx t2 (Message b w (CallDeposit h e) [] True),
       Tx t3 (Message b 0 (CallReclaimCollateral h e url md5) [] True)] s"
  shows "executorToMiner s' (h, e) = b \<and> collaterals s' (h, e) = collaterals s (h, e) - v + w \<and>
    reclaims s' (nextReclaimId s) =
      \<lparr>rc_hotkey = h, rc_executorId = e, rc_miner = b, rc_amount = collaterals s (h, e) - v + w,
       rc_denyTimeout = t3 + DECISION_TIMEOUT s\<rparr>"
proof -
  have reach: "reach s" unfolding assms(1) by (rule reach_history)
  have s1: "run_message Z t1 (Message a 0 (CallFinalizeReclaim i) [] True) s = (Inr (), after_finalize t1 i s)"
    using assms(2-4,9) by (subst reach_finalize [OF reach]) simp_all
  define s1 where "s1 = after_finalize t1 i s"
  define s2 where "s2 = snd (run_message Z t2 (Message b w (CallDeposit h e) [] True) s1)"
  have s2: "s2 = s1\<lparr>balance := balance s1 + w, executorToMiner := (executorToMiner s1)((h, e) := b),
       collaterals := (collaterals s1)((h, e) := collaterals s1 (h, e) + w),
       logs := logs s1 @ [(t2, Deposit h e b w)]\<rparr>"
    unfolding s2_def using assms(2,7,8) by (subst deposit_new_owner) (simp_all add: s1_def after_finalize_def Let_def)
  have "s' = snd (run_message Z t3 (Message b 0 (CallReclaimCollateral h e url md5) [] True) s2)"
    by (simp add: assms(12) s1 s1_def [symmetric] s2_def del: run_message.simps)
  then show ?thesis
    using assms(2,4,5,6,8,10,11)
    by (simp add: s2 s1_def after_finalize_def Let_def transact_def reclaimCollateral_def)
qed

theorem late_deposit_is_orphaned_witness:
  "executorToMiner (chain_run demo_oz
      [Tx 107 (Message 1 0 (CallFinalizeReclaim 0) [] True),
       Tx 108 (Message 2 10 (CallDeposit 3 4) [] True),
       Tx 109 (Message 2 0 (CallReclaimCollateral 3 4 ''url'' 0) [] True)] demo_late_contract) (3, 4) = 2"
  using late_deposit_is_orphaned [OF refl demo_late_contract_fields(7) _ _ _ _ _ _ _ _ _ refl,
      of 10 107 109 1 108 2 "''url''" 0]
  by (simp add: demo_late_contract_fields del: chain_run.simps)

end
