(* ===== verification/Collateral_Scan.thy ===== *)
theory Collateral_Scan
  imports Collateral_Contract Billing_Platform "HOL-Library.Multiset"
begin

section \<open>The validator's copy of the collaterals\<close>

text \<open>
  \<open>crates/collateral-contract/src/lib.rs\<close> (\<open>scan_events\<close>: the log of the contract, grouped by block),
  \<open>crates/basilica-validator/src/persistence/collateral_persistence.rs\<close> (the tables \<open>collateral_status\<close> and
  \<open>collateral_scan_status\<close> and what each event does to them) and
  \<open>crates/basilica-validator/src/collateral/collateral_scan.rs\<close> (one round of the scan loop).

  The chain node is a parameter (\<open>rpc\<close>) whose answers are what \<open>get_block_number\<close> and \<open>get_logs\<close> document; the iteration
  order of a \<open>HashMap\<close> is any permutation. The text forms of keys and 256-bit numbers are parameters with the laws of the
  locale \<open>scan_platform\<close>. Statements of the SQLite database succeed or fail as in theory \<open>Prelude\<close>.

  Lemmas: while every statement is carried out, a round brings the table to the collaterals the contract has at the last
  scanned block; when a statement in the middle of a block is lost, the next round counts the deposits before it twice.
\<close>

subsection \<open>Tables and events\<close>

record scan_ops =
  hex32 :: "bytes32 \<Rightarrow> string"
  hex16 :: "bytes16 \<Rightarrow> string"
  hex_address :: "address \<Rightarrow> string"
  u256_to_string :: "nat \<Rightarrow> string"
  u256_from_str :: "string \<Rightarrow> nat option"

datatype scan_error =
    DatabaseError
  | RpcFailed
  | FromBlockTooHigh
  | NoBlockNumber
  | DecodeFailed
  | InvalidCollateral
  | StatusNotFound

record collateral_row =
  cs_id :: nat
  cs_hotkey :: string
  cs_executor_id :: string
  cs_miner :: string
  cs_collateral :: string
  cs_url :: "string option"
  cs_md5 :: "string option"
  cs_updated_at :: time

record collateral_db = env +
  collateral_status :: "collateral_row list"
  collateral_next_id :: nat
  collateral_scan_status :: "(nat \<times> time) option"

definition collateral_key :: "collateral_row \<Rightarrow> string \<times> string" where
  "collateral_key r = (cs_hotkey r, cs_executor_id r)"

definition contract_deployed_block_number :: nat where
  "contract_deployed_block_number = 0"

definition create_scan_row :: "(collateral_db, scan_error, unit) prog" where
  "create_scan_row =
     andthen utc_now (\<lambda>now.
     andthen (attempt (sql DatabaseError
       (andthen (gets collateral_scan_status) (\<lambda>row.
          case row of
            Some _ \<Rightarrow> fail DatabaseError
          | None \<Rightarrow> modify (\<lambda>s. s\<lparr>collateral_scan_status := Some (contract_deployed_block_number, now)\<rparr>)))))
       (\<lambda>_. ok ()))"

definition get_last_scanned_block_number :: "(collateral_db, scan_error, nat) prog" where
  "get_last_scanned_block_number =
     sql DatabaseError (andthen (gets collateral_scan_status) (\<lambda>row. ok_or DatabaseError (map_option fst row)))"

definition update_last_scanned_block_number :: "nat \<Rightarrow> (collateral_db, scan_error, unit) prog" where
  "update_last_scanned_block_number n =
     andthen utc_now (\<lambda>now.
       sql DatabaseError (modify (\<lambda>s.
         s\<lparr>collateral_scan_status := map_option (\<lambda>_. (n, now)) (collateral_scan_status s)\<rparr>)))"

definition get_collateral_status_id ::
  "scan_ops \<Rightarrow> string \<Rightarrow> string \<Rightarrow> (collateral_db, scan_error, (nat \<times> nat) option) prog" where
  "get_collateral_status_id O' hotkey executor_id =
     andthen (sql DatabaseError (gets (\<lambda>s. row_of collateral_key (hotkey, executor_id) (collateral_status s)))) (\<lambda>row.
       case row of
         Some r \<Rightarrow> (case u256_from_str O' (cs_collateral r) of
                      None \<Rightarrow> fail InvalidCollateral
                    | Some collateral \<Rightarrow> ok (Some (cs_id r, collateral)))
       | None \<Rightarrow> ok None)"

definition set_collateral :: "nat \<Rightarrow> string \<Rightarrow> (collateral_db, scan_error, unit) prog" where
  "set_collateral i collateral =
     andthen utc_now (\<lambda>now.
       sql DatabaseError (modify (\<lambda>s. s\<lparr>collateral_status :=
         update_where (\<lambda>r. cs_id r = i) (\<lambda>r. r\<lparr>cs_collateral := collateral, cs_updated_at := now\<rparr>)
           (collateral_status s)\<rparr>)))"

definition saturating_add :: "nat \<Rightarrow> nat \<Rightarrow> nat" where
  "saturating_add a b = min (a + b) (2 ^ 256 - 1)"

definition insert_status :: "collateral_row \<Rightarrow> (collateral_db, scan_error, unit) prog" where
  "insert_status r =
     sql DatabaseError (andthen (gets collateral_status) (\<lambda>rows.
       if row_of collateral_key (collateral_key r) rows \<noteq> None then fail DatabaseError
       else modify (\<lambda>s. s\<lparr>collateral_status := rows @ [r\<lparr>cs_id := collateral_next_id s\<rparr>],
                           collateral_next_id := Suc (collateral_next_id s)\<rparr>)))"

definition handle_deposit ::
  "scan_ops \<Rightarrow> bytes32 \<Rightarrow> bytes16 \<Rightarrow> address \<Rightarrow> nat \<Rightarrow> (collateral_db, scan_error, unit) prog" where
  "handle_deposit O' hotkey executorId miner amount =
     andthen (get_collateral_status_id O' (hex32 O' hotkey) (hex16 O' executorId)) (\<lambda>status.
       case status of
         Some (i, collateral) \<Rightarrow> set_collateral i (u256_to_string O' (saturating_add collateral amount))
       | None \<Rightarrow>
           andthen utc_now (\<lambda>now.
             insert_status \<lparr>cs_id = 0, cs_hotkey = hex32 O' hotkey, cs_executor_id = hex16 O' executorId,
               cs_miner = ''0x'' @ hex_address O' miner, cs_collateral = u256_to_string O' amount,
               cs_url = None, cs_md5 = None, cs_updated_at = now\<rparr>))"

definition handle_reclaimed ::
  "scan_ops \<Rightarrow> bytes32 \<Rightarrow> bytes16 \<Rightarrow> nat \<Rightarrow> (collateral_db, scan_error, unit) prog" where
  "handle_reclaimed O' hotkey executorId amount =
     andthen (get_collateral_status_id O' (hex32 O' hotkey) (hex16 O' executorId)) (\<lambda>status.
       case status of
         Some (i, collateral) \<Rightarrow> set_collateral i (u256_to_string O' (collateral - amount))
       | None \<Rightarrow> fail StatusNotFound)"

definition handle_slashed ::
  "scan_ops \<Rightarrow> bytes32 \<Rightarrow> bytes16 \<Rightarrow> string \<Rightarrow> bytes16 \<Rightarrow> (collateral_db, scan_error, unit) prog" where
  "handle_slashed O' hotkey executorId url md5 =
     andthen (get_collateral_status_id O' (hex32 O' hotkey) (hex16 O' executorId)) (\<lambda>status.
       case status of
         Some (i, collateral) \<Rightarrow>
           andthen utc_now (\<lambda>now.
             sql DatabaseError (modify (\<lambda>s. s\<lparr>collateral_status :=
               update_where (\<lambda>r. cs_id r = i)
                 (\<lambda>r. r\<lparr>cs_collateral := ''0'', cs_miner := ''0x'' @ hex_address O' 0, cs_url := Some url,
                        cs_md5 := Some (hex16 O' md5), cs_updated_at := now\<rparr>)
                 (collateral_status s)\<rparr>)))
       | None \<Rightarrow> fail StatusNotFound)"

subsection \<open>Reading the log of the contract\<close>

record chain_log =
  lg_removed :: bool
  lg_block_number :: "nat option"
  lg_event :: "event option"

record rpc =
  rpc_connects :: bool
  rpc_block_number :: "nat option"
  rpc_get_logs :: "nat \<Rightarrow> nat \<Rightarrow> chain_log list option"

type_synonym event_groups = "(nat \<times> event list) list"

definition max_blocks_per_scan :: nat where
  "max_blocks_per_scan = 1000"

fun collateral_event :: "event \<Rightarrow> bool" where
  "collateral_event (Deposit h e a v) = True"
| "collateral_event (Reclaimed i h e a v) = True"
| "collateral_event (Slashed h e a v url md5) = True"
| "collateral_event _ = False"

definition push_event :: "nat \<Rightarrow> event \<Rightarrow> event_groups \<Rightarrow> event_groups" where
  "push_event b ev g =
     (if b \<in> fst ` set g then map (\<lambda>(c, evs). if c = b then (c, evs @ [ev]) else (c, evs)) g else g @ [(b, [ev])])"

fun collect_logs :: "chain_log list \<Rightarrow> event_groups \<Rightarrow> scan_error + event_groups" where
  "collect_logs [] g = Inr g"
| "collect_logs (lg # lgs) g =
     (if lg_removed lg then collect_logs lgs g
      else case lg_block_number lg of
             None \<Rightarrow> Inl NoBlockNumber
           | Some b \<Rightarrow>
               (case lg_event lg of
                  None \<Rightarrow> Inl DecodeFailed
                | Some ev \<Rightarrow> collect_logs lgs (if collateral_event ev then push_event b ev g else g)))"

definition scan_events_with_scope :: "rpc \<Rightarrow> nat \<Rightarrow> nat \<Rightarrow> scan_error + nat \<times> event_groups" where
  "scan_events_with_scope R from_block to_block =
     (if \<not> rpc_connects R then Inl RpcFailed
      else case rpc_get_logs R from_block to_block of
             None \<Rightarrow> Inl RpcFailed
           | Some lgs \<Rightarrow> (case collect_logs lgs [] of Inl e \<Rightarrow> Inl e | Inr g \<Rightarrow> Inr (to_block, g)))"

definition scan_events :: "rpc \<Rightarrow> nat \<Rightarrow> scan_error + nat \<times> event_groups" where
  "scan_events R from_block =
     (if \<not> rpc_connects R then Inl RpcFailed
      else case rpc_block_number R of
             None \<Rightarrow> Inl RpcFailed
           | Some n \<Rightarrow>
               let current_block = n - 1 in
               if current_block < from_block then Inl FromBlockTooHigh
               else let to_block = from_block + max_blocks_per_scan in
                 scan_events_with_scope R from_block (if current_block < to_block then current_block else to_block))"

subsection \<open>One round of the scan\<close>

fun handle_event :: "scan_ops \<Rightarrow> event \<Rightarrow> (collateral_db, scan_error, unit) prog" where
  "handle_event O' (Deposit h e a v) = handle_deposit O' h e a v"
| "handle_event O' (Reclaimed i h e a v) = handle_reclaimed O' h e v"
| "handle_event O' (Slashed h e a v url md5) = handle_slashed O' h e url md5"
| "handle_event O' _ = ok ()"

definition handle_block :: "scan_ops \<Rightarrow> nat \<times> event list \<Rightarrow> (collateral_db, scan_error, unit) prog" where
  "handle_block O' x =
     (case x of (block_number, events_vec) \<Rightarrow>
        andthen (for_each (handle_event O') events_vec) (\<lambda>_. update_last_scanned_block_number block_number))"

definition scan_handle_collateral_events ::
  "scan_ops \<Rightarrow> rpc \<Rightarrow> (event_groups \<Rightarrow> event_groups) \<Rightarrow> (collateral_db, scan_error, unit) prog" where
  "scan_handle_collateral_events O' R hash_order =
     andthen get_last_scanned_block_number (\<lambda>last_block.
     andthen (of_result (scan_events R (last_block + 1))) (\<lambda>(to_block, events_map).
     andthen (for_each (handle_block O') (sort_key fst (hash_order events_map))) (\<lambda>_.
       update_last_scanned_block_number to_block)))"

definition scan_round :: "scan_ops \<Rightarrow> rpc \<Rightarrow> (event_groups \<Rightarrow> event_groups) \<Rightarrow> collateral_db \<Rightarrow> collateral_db" where
  "scan_round O' R hash_order s = snd (scan_handle_collateral_events O' R hash_order s)"

subsection \<open>Laws of the text forms\<close>

locale scan_platform =
  fixes O' :: scan_ops
  assumes hex32_inj: "hex32 O' x = hex32 O' y \<Longrightarrow> x = y"
    and hex16_inj: "hex16 O' x' = hex16 O' y' \<Longrightarrow> x' = y'"
    and u256_round_trip: "n < 2 ^ 256 \<Longrightarrow> u256_from_str O' (u256_to_string O' n) = Some n"
    and u256_range: "u256_from_str O' str = Some n \<Longrightarrow> n < 2 ^ 256"
    and u256_zero: "u256_from_str O' ''0'' = Some 0"
begin

lemma hex_key_eq: "(hex32 O' h, hex16 O' e) = (hex32 O' h', hex16 O' e') \<longleftrightarrow> (h, e) = (h', e')"
  using hex32_inj hex16_inj by auto

end

subsection \<open>What a handler does to the table\<close>

text \<open>From here on every statement is carried out.\<close>

definition steady :: "'z env_scheme \<Rightarrow> bool" where
  "steady s \<longleftrightarrow> (\<forall>i\<ge>tick s. db_outcome s i = Done)"

lemma steady_sql: "steady s \<Longrightarrow> sql e stmt s = stmt (s\<lparr>tick := Suc (tick s)\<rparr>)"
  by (simp add: steady_def sql_def)

lemma steady_Suc: "steady s \<Longrightarrow> tick s \<le> n \<Longrightarrow> steady (s\<lparr>tick := n\<rparr>)"
  by (simp add: steady_def)

lemma steady_tables [simp]:
  "steady (s\<lparr>collateral_status := x\<rparr>) = steady s" "steady (s\<lparr>collateral_next_id := n\<rparr>) = steady s"
  "steady (s\<lparr>collateral_scan_status := y\<rparr>) = steady s"
  by (simp_all add: steady_def)

definition key_text :: "scan_ops \<Rightarrow> executor_key \<Rightarrow> string \<times> string" where
  "key_text O' k = (hex32 O' (fst k), hex16 O' (snd k))"

definition stored_collateral :: "scan_ops \<Rightarrow> collateral_row list \<Rightarrow> executor_key \<Rightarrow> nat option" where
  "stored_collateral O' rows k =
     (case row_of collateral_key (key_text O' k) rows of
        None \<Rightarrow> Some 0
      | Some r \<Rightarrow> u256_from_str O' (cs_collateral r))"

text \<open>The table shows the collaterals \<open>f\<close>.\<close>

definition mirrors :: "scan_ops \<Rightarrow> collateral_db \<Rightarrow> (executor_key \<Rightarrow> nat) \<Rightarrow> bool" where
  "mirrors O' s f \<longleftrightarrow>
     unique_key cs_id (collateral_status s) \<and> unique_key collateral_key (collateral_status s) \<and>
     list_all (\<lambda>r. cs_id r < collateral_next_id s) (collateral_status s) \<and>
     stored_collateral O' (collateral_status s) = (\<lambda>k. Some (f k))"

lemma mirrors_stored: "mirrors O' s f \<Longrightarrow> stored_collateral O' (collateral_status s) k = Some (f k)"
  by (simp add: mirrors_def)

lemma mirrorsI:
  assumes "unique_key cs_id (collateral_status s)" and "unique_key collateral_key (collateral_status s)"
    and "list_all (\<lambda>r. cs_id r < collateral_next_id s) (collateral_status s)"
    and "\<And>k. stored_collateral O' (collateral_status s) k = Some (f k)"
  shows "mirrors O' s f"
  using assms by (simp add: mirrors_def ext)

lemma mirrors_tick [simp]: "mirrors O' (s\<lparr>tick := n\<rparr>) f = mirrors O' s f"
  by (simp add: mirrors_def)

lemma mirrors_scan_status [simp]: "mirrors O' (s\<lparr>collateral_scan_status := x\<rparr>) f = mirrors O' s f"
  by (simp add: mirrors_def)

text \<open>A result that leaves the table showing \<open>f\<close> and the scan status alone.\<close>

definition shows_after ::
  "scan_ops \<Rightarrow> collateral_db \<Rightarrow> (executor_key \<Rightarrow> nat) \<Rightarrow> (scan_error + unit) \<times> collateral_db \<Rightarrow> bool" where
  "shows_after O' s f res \<longleftrightarrow> fst res = Inr () \<and> steady (snd res) \<and> mirrors O' (snd res) f \<and>
     collateral_scan_status (snd res) = collateral_scan_status s"

lemma shows_after_ok: "steady s \<Longrightarrow> mirrors O' s f \<Longrightarrow> shows_after O' s f (Inr (), s)"
  by (simp add: shows_after_def)

lemma update_by_id:
  assumes "unique_key cs_id rs" and "unique_key collateral_key rs" and "row_of collateral_key k rs = Some r"
  shows "update_where (\<lambda>x. cs_id x = cs_id r) f rs = update_where (\<lambda>x. collateral_key x = k) f rs"
  unfolding update_where_def
proof (rule map_cong [OF refl])
  fix x assume x: "x \<in> set rs"
  have r: "r \<in> set rs" "collateral_key r = k" using row_of_Some [OF assms(3)] by simp_all
  have "cs_id x = cs_id r \<longleftrightarrow> x = r"
    using unique_key_row_of [OF assms(1) x] unique_key_row_of [OF assms(1) r(1)] by (metis option.inject)
  moreover have "collateral_key x = k \<longleftrightarrow> x = r"
    using unique_key_row_of [OF assms(2) x] assms(3) r(2) by (metis option.inject)
  ultimately show "(if cs_id x = cs_id r then f x else x) = (if collateral_key x = k then f x else x)" by simp
qed

context scan_platform
begin

lemma key_text_eq: "key_text O' k = key_text O' j \<longleftrightarrow> k = j"
  using hex_key_eq [of "fst k" "snd k" "fst j" "snd j"] by (simp add: key_text_def prod_eq_iff)

lemma mirrors_update:
  assumes "mirrors O' s f" and "row_of collateral_key (key_text O' k) (collateral_status s) = Some r"
    and "\<And>x. cs_id (g x) = cs_id x" and "\<And>x. collateral_key (g x) = collateral_key x"
    and "u256_from_str O' (cs_collateral (g r)) = Some v"
  shows "mirrors O' (s\<lparr>collateral_status := update_where (\<lambda>x. cs_id x = cs_id r) g (collateral_status s)\<rparr>) (f(k := v))"
proof -
  let ?rs = "update_where (\<lambda>x. collateral_key x = key_text O' k) g (collateral_status s)"
  have eq: "update_where (\<lambda>x. cs_id x = cs_id r) g (collateral_status s) = ?rs"
    using assms(1,2) by (intro update_by_id) (simp_all add: mirrors_def)
  have stored: "stored_collateral O' ?rs j = Some ((f(k := v)) j)" for j
  proof (cases "j = k")
    case True
    with assms(2,4,5) show ?thesis by (simp add: stored_collateral_def row_of_update_same)
  next
    case False
    then have "row_of collateral_key (key_text O' j) ?rs = row_of collateral_key (key_text O' j) (collateral_status s)"
      using assms(4) by (intro row_of_update_other) (auto simp: key_text_eq)
    with mirrors_stored [OF assms(1), of j] False show ?thesis by (simp add: stored_collateral_def)
  qed
  have ids: "list_all (\<lambda>r. cs_id r < collateral_next_id s) ?rs"
    using assms(1,3) by (auto simp: mirrors_def list_all_iff set_update_where)
  show ?thesis
    unfolding eq by (rule mirrorsI) (use assms(1,3,4) stored ids in \<open>simp_all add: mirrors_def\<close>)
qed

lemma mirrors_insert:
  assumes "mirrors O' s f" and "row_of collateral_key (key_text O' k) (collateral_status s) = None"
    and "collateral_key r = key_text O' k" and "cs_id r = collateral_next_id s"
    and "u256_from_str O' (cs_collateral r) = Some v"
  shows "mirrors O' (s\<lparr>collateral_status := collateral_status s @ [r], collateral_next_id := Suc (collateral_next_id s)\<rparr>)
    (f(k := v))"
proof -
  have fresh: "row_of cs_id (collateral_next_id s) (collateral_status s) = None"
    using assms(1) by (auto simp: mirrors_def row_of_None list_all_iff)
  have stored: "stored_collateral O' (collateral_status s @ [r]) j = Some ((f(k := v)) j)" for j
    using mirrors_stored [OF assms(1), of j] assms(2,3,5)
    by (auto simp: stored_collateral_def row_of_append key_text_eq split: option.splits)
  have ids: "list_all (\<lambda>r. cs_id r < Suc (collateral_next_id s)) (collateral_status s @ [r])"
    using assms(1,4) by (auto simp: mirrors_def list_all_iff)
  show ?thesis
    by (rule mirrorsI) (use assms(1-4) fresh stored ids in \<open>simp_all add: mirrors_def unique_key_snoc\<close>)
qed

text \<open>The row of a key, as \<open>get_collateral_status_id\<close> finds it.\<close>

lemma status_found:
  assumes "steady s" and "mirrors O' s f" and "row_of collateral_key (key_text O' (h, e)) (collateral_status s) = Some r"
  shows "get_collateral_status_id O' (hex32 O' h) (hex16 O' e) s = (Inr (Some (cs_id r, f (h, e))), s\<lparr>tick := Suc (tick s)\<rparr>)"
proof -
  have "stored_collateral O' (collateral_status s) (h, e) = Some (f (h, e))"
    using assms(2) by (rule mirrors_stored)
  with assms(1,3) show ?thesis
    by (simp add: get_collateral_status_id_def andthen_def steady_sql stored_collateral_def key_text_def)
qed

lemma status_missing:
  assumes "steady s" and "row_of collateral_key (key_text O' (h, e)) (collateral_status s) = None"
  shows "get_collateral_status_id O' (hex32 O' h) (hex16 O' e) s = (Inr None, s\<lparr>tick := Suc (tick s)\<rparr>)"
  using assms by (simp add: get_collateral_status_id_def andthen_def steady_sql key_text_def)

lemma row_present:
  assumes "mirrors O' s f" and "0 < f k"
  obtains r where "row_of collateral_key (key_text O' k) (collateral_status s) = Some r"
proof (cases "row_of collateral_key (key_text O' k) (collateral_status s)")
  case None
  have "stored_collateral O' (collateral_status s) k = Some (f k)"
    using assms(1) by (rule mirrors_stored)
  with None assms(2) show ?thesis by (simp add: stored_collateral_def)
qed (rule that)

lemma mirrors_range:
  assumes "mirrors O' s f"
  shows "f k < 2 ^ 256"
proof (cases "row_of collateral_key (key_text O' k) (collateral_status s)")
  case None
  have "stored_collateral O' (collateral_status s) k = Some (f k)" using assms by (rule mirrors_stored)
  with None show ?thesis by (simp add: stored_collateral_def)
next
  case (Some r)
  have "stored_collateral O' (collateral_status s) k = Some (f k)" using assms by (rule mirrors_stored)
  with Some show ?thesis using u256_range [of "cs_collateral r" "f k"] by (simp add: stored_collateral_def)
qed

lemma insert_shows:
  assumes "steady s" and "mirrors O' s f" and "f (h, e) + v < 2 ^ 256"
    and none: "row_of collateral_key (key_text O' (h, e)) (collateral_status s) = None"
  shows "shows_after O' s (f((h, e) := f (h, e) + v)) (handle_deposit O' h e a v s)"
proof -
  let ?r = "\<lparr>cs_id = collateral_next_id s, cs_hotkey = hex32 O' h, cs_executor_id = hex16 O' e,
    cs_miner = ''0x'' @ hex_address O' a, cs_collateral = u256_to_string O' v, cs_url = None, cs_md5 = None,
    cs_updated_at = clock s (Suc (tick s))\<rparr>"
  let ?s = "s\<lparr>tick := Suc (Suc (Suc (tick s)))\<rparr>"
  let ?t = "?s\<lparr>collateral_status := collateral_status ?s @ [?r], collateral_next_id := Suc (collateral_next_id ?s)\<rparr>"
  have "f (h, e) = 0" using mirrors_stored [OF assms(2), of "(h, e)"] none by (simp add: stored_collateral_def)
  with assms(3) have v: "f (h, e) + v = v" "v < 2 ^ 256" by simp_all
  have "mirrors O' ?t (f((h, e) := v))"
    using assms(2) none v(2) by (intro mirrors_insert) (simp_all add: collateral_key_def key_text_def u256_round_trip)
  moreover have "handle_deposit O' h e a v s = (Inr (), ?t)"
    using assms(1) none status_missing [OF assms(1) none]
    by (simp add: handle_deposit_def insert_status_def andthen_def steady_sql steady_Suc key_text_def collateral_key_def)
  ultimately show ?thesis using assms(1) v(1) by (simp add: shows_after_def steady_Suc)
qed

lemma update_shows:
  assumes "steady s" and "mirrors O' s f" and "row_of collateral_key (key_text O' (h, e)) (collateral_status s) = Some r"
    and "\<And>x. cs_id (g x) = cs_id x" and "\<And>x. collateral_key (g x) = collateral_key x"
    and "u256_from_str O' (cs_collateral (g r)) = Some v" and "tick s \<le> n"
  shows "shows_after O' s (f((h, e) := v)) (Inr (), s\<lparr>tick := n,
    collateral_status := update_where (\<lambda>x. cs_id x = cs_id r) g (collateral_status s)\<rparr>)"
proof -
  have "mirrors O' (s\<lparr>tick := n\<rparr>) f" using assms(2) by simp
  from mirrors_update [OF this, of "(h, e)" r g v] assms(3-6)
  have "mirrors O' (s\<lparr>tick := n, collateral_status := update_where (\<lambda>x. cs_id x = cs_id r) g (collateral_status s)\<rparr>)
    (f((h, e) := v))" by simp
  with assms(1,7) show ?thesis by (simp add: shows_after_def steady_Suc)
qed

lemma deposit_shows:
  assumes "steady s" and "mirrors O' s f" and "f (h, e) + v < 2 ^ 256"
  shows "shows_after O' s (f((h, e) := f (h, e) + v)) (handle_deposit O' h e a v s)"
proof (cases "row_of collateral_key (key_text O' (h, e)) (collateral_status s)")
  case None
  with assms show ?thesis by (rule insert_shows)
next
  case (Some r)
  let ?g = "\<lambda>x. x\<lparr>cs_collateral := u256_to_string O' (f (h, e) + v), cs_updated_at := clock s (Suc (tick s))\<rparr>"
  have "handle_deposit O' h e a v s = (Inr (), s\<lparr>tick := Suc (Suc (Suc (tick s))),
    collateral_status := update_where (\<lambda>x. cs_id x = cs_id r) ?g (collateral_status s)\<rparr>)"
    using assms(1,3) status_found [OF assms(1,2) Some]
    by (simp add: handle_deposit_def set_collateral_def andthen_def steady_sql steady_Suc saturating_add_def min_def)
  with assms Some show ?thesis
    by (simp only:) (rule update_shows, simp_all add: collateral_key_def u256_round_trip)
qed

lemma reclaimed_shows:
  assumes "steady s" and "mirrors O' s f" and "0 < f (h, e)"
  shows "shows_after O' s (f((h, e) := f (h, e) - v)) (handle_reclaimed O' h e v s)"
proof -
  from row_present [OF assms(2,3)] obtain r
    where r: "row_of collateral_key (key_text O' (h, e)) (collateral_status s) = Some r" .
  let ?g = "\<lambda>x. x\<lparr>cs_collateral := u256_to_string O' (f (h, e) - v), cs_updated_at := clock s (Suc (tick s))\<rparr>"
  have "handle_reclaimed O' h e v s = (Inr (), s\<lparr>tick := Suc (Suc (Suc (tick s))),
    collateral_status := update_where (\<lambda>x. cs_id x = cs_id r) ?g (collateral_status s)\<rparr>)"
    using assms(1) status_found [OF assms(1,2) r]
    by (simp add: handle_reclaimed_def set_collateral_def andthen_def steady_sql steady_Suc)
  with assms r mirrors_range [OF assms(2), of "(h, e)"] show ?thesis
    by (simp only:) (rule update_shows, simp_all add: collateral_key_def u256_round_trip)
qed

lemma slashed_shows:
  assumes "steady s" and "mirrors O' s f" and "0 < f (h, e)"
  shows "shows_after O' s (f((h, e) := 0)) (handle_slashed O' h e url md5 s)"
proof -
  from row_present [OF assms(2,3)] obtain r
    where r: "row_of collateral_key (key_text O' (h, e)) (collateral_status s) = Some r" .
  let ?g = "\<lambda>x. x\<lparr>cs_collateral := ''0'', cs_miner := ''0x'' @ hex_address O' 0, cs_url := Some url,
    cs_md5 := Some (hex16 O' md5), cs_updated_at := clock s (Suc (tick s))\<rparr>"
  have "handle_slashed O' h e url md5 s = (Inr (), s\<lparr>tick := Suc (Suc (Suc (tick s))),
    collateral_status := update_where (\<lambda>x. cs_id x = cs_id r) ?g (collateral_status s)\<rparr>)"
    using assms(1) status_found [OF assms(1,2) r]
    by (simp add: handle_slashed_def andthen_def steady_sql steady_Suc)
  with assms r show ?thesis
    by (simp only:) (rule update_shows, simp_all add: collateral_key_def u256_zero)
qed

lemma event_shows:
  assumes "steady s" and "mirrors O' s f" and "event_valid f ev"
  shows "shows_after O' s (replay_event ev f) (handle_event O' ev s)"
  using assms by (cases ev) (auto intro: deposit_shows reclaimed_shows slashed_shows shows_after_ok)

lemma events_show:
  assumes "steady s" and "mirrors O' s f" and "log_valid f evs"
  shows "shows_after O' s (fold replay_event evs f) (for_each (handle_event O') evs s)"
  using assms
proof (induction evs arbitrary: s f)
  case Nil
  then show ?case by (simp add: shows_after_def)
next
  case (Cons ev evs)
  obtain res t where run: "handle_event O' ev s = (res, t)" by (cases "handle_event O' ev s")
  have "shows_after O' s (replay_event ev f) (res, t)"
    using event_shows [OF Cons.prems(1,2), of ev] Cons.prems(3) run by simp
  with Cons.IH [of t "replay_event ev f"] Cons.prems(3) run show ?case
    by (simp add: shows_after_def andthen_def)
qed

lemma block_shows:
  assumes "steady s" and "mirrors O' s f" and "log_valid f evs" and "collateral_scan_status s = Some st"
  obtains t now where "handle_block O' (b, evs) s = (Inr (), t)" and "steady t"
    and "mirrors O' t (fold replay_event evs f)" and "collateral_scan_status t = Some (b, now)"
proof -
  obtain res u where run: "for_each (handle_event O') evs s = (res, u)" by (cases "for_each (handle_event O') evs s")
  from events_show [OF assms(1-3)] run
  have u: "res = Inr ()" "steady u" "mirrors O' u (fold replay_event evs f)"
    "collateral_scan_status u = collateral_scan_status s"
    by (simp_all add: shows_after_def)
  let ?t = "u\<lparr>tick := Suc (Suc (tick u)), collateral_scan_status := Some (b, clock u (tick u))\<rparr>"
  have "handle_block O' (b, evs) s = (Inr (), ?t)"
    using run u assms(4)
    by (simp add: handle_block_def update_last_scanned_block_number_def andthen_def steady_sql steady_Suc)
  then show ?thesis using u by (intro that [of ?t]) (simp_all add: steady_Suc)
qed

lemma blocks_show:
  assumes "steady s" and "mirrors O' s f" and "log_valid f (concat (map snd g))" and "collateral_scan_status s = Some st"
  shows "\<exists>t st'. for_each (handle_block O') g s = (Inr (), t) \<and> steady t \<and>
    mirrors O' t (fold replay_event (concat (map snd g)) f) \<and> collateral_scan_status t = Some st'"
  using assms
proof (induction g arbitrary: s f st)
  case (Cons x g)
  obtain b evs where x: "x = (b, evs)" by (cases x)
  from Cons.prems(3) x have valid: "log_valid f evs" "log_valid (fold replay_event evs f) (concat (map snd g))"
    by (simp_all add: log_valid_append)
  from block_shows [OF Cons.prems(1,2) valid(1) Cons.prems(4)] obtain u now
    where u: "handle_block O' (b, evs) s = (Inr (), u)" "steady u" "mirrors O' u (fold replay_event evs f)"
      "collateral_scan_status u = Some (b, now)" .
  from Cons.IH [OF u(2,3) valid(2) u(4)] u(1) x show ?case by (simp add: andthen_def)
qed simp

end

subsection \<open>Grouping by block keeps the order of the log\<close>

lemma push_event_sorted:
  assumes "sorted_wrt (<) (map fst g)" and "\<And>c. c \<in> fst ` set g \<Longrightarrow> c \<le> b"
  shows "sorted_wrt (<) (map fst (push_event b ev g)) \<and>
    concat (map snd (push_event b ev g)) = concat (map snd g) @ [ev] \<and>
    fst ` set (push_event b ev g) = insert b (fst ` set g)"
proof (cases g rule: rev_cases)
  case Nil
  then show ?thesis by (simp add: push_event_def)
next
  case (snoc g' x)
  obtain c evs where x: "x = (c, evs)" by (cases x)
  have less: "d < c" if "d \<in> fst ` set g'" for d
    using assms(1) that snoc x by (auto simp: sorted_wrt_append)
  show ?thesis
  proof (cases "c = b")
    case True
    have "map (\<lambda>(c, evs). if c = b then (c, evs @ [ev]) else (c, evs)) g' = g'"
      using less True by (intro map_idI) force
    with snoc x True assms(1) show ?thesis by (simp add: push_event_def sorted_wrt_append)
  next
    case False
    with assms(2) [of c] snoc x have "c < b" by simp
    moreover have "b \<notin> fst ` set g" using less \<open>c < b\<close> snoc x by force
    ultimately show ?thesis
      using assms(1) snoc x less by (auto simp: push_event_def sorted_wrt_append dest: order.strict_trans)
  qed
qed

definition log_of :: "nat \<times> event \<Rightarrow> chain_log" where
  "log_of x = \<lparr>lg_removed = False, lg_block_number = Some (fst x), lg_event = Some (snd x)\<rparr>"

lemma collect_logs_sorted:
  assumes "sorted (map fst xs)" and "sorted_wrt (<) (map fst g)"
    and "\<And>c x. c \<in> fst ` set g \<Longrightarrow> x \<in> set xs \<Longrightarrow> c \<le> fst x"
  shows "\<exists>g'. collect_logs (map log_of xs) g = Inr g' \<and> sorted_wrt (<) (map fst g') \<and>
    concat (map snd g') = concat (map snd g) @ filter collateral_event (map snd xs)"
  using assms
proof (induction xs arbitrary: g)
  case (Cons x xs)
  define g1 where "g1 = (if collateral_event (snd x) then push_event (fst x) (snd x) g else g)"
  have push: "sorted_wrt (<) (map fst g1)" "fst ` set g1 \<subseteq> insert (fst x) (fst ` set g)"
    "concat (map snd g1) = concat (map snd g) @ filter collateral_event [snd x]"
    using push_event_sorted [OF Cons.prems(2), of "fst x" "snd x"] Cons.prems(2,3) by (auto simp: g1_def)
  have "c \<le> fst y" if "c \<in> fst ` set g1" "y \<in> set xs" for c y
  proof -
    from that(1) push(2) consider "c = fst x" | "c \<in> fst ` set g" by auto
    then show ?thesis using that(2) Cons.prems(1) Cons.prems(3) [of c y] by cases simp_all
  qed
  from Cons.IH [OF _ push(1) this] Cons.prems(1) obtain g' where g':
    "collect_logs (map log_of xs) g1 = Inr g'" "sorted_wrt (<) (map fst g')"
    "concat (map snd g') = concat (map snd g1) @ filter collateral_event (map snd xs)" by auto
  have "collect_logs (map log_of (x # xs)) g = collect_logs (map log_of xs) g1"
    by (simp add: log_of_def [of x] g1_def)
  with g' push(3) show ?case by simp
qed simp

lemma sort_key_permuted:
  assumes "sorted_wrt (<) (map fst g)" and "mset g' = mset g"
  shows "sort_key fst g' = (g :: (nat \<times> 'b) list)"
proof (rule properties_for_sort_key)
  show "mset g = mset g'" using assms(2) by simp
  show "sorted (map fst g)" using assms(1) by (simp add: strict_sorted_iff)
  have dist: "distinct (map fst g)" using assms(1) by (simp add: strict_sorted_iff)
  fix k assume k: "k \<in> set g"
  have one: "filter (\<lambda>x. fst k = fst x) g = [k]"
    using k dist by (induction g) (auto simp: filter_empty_conv image_iff)
  have "mset (filter (\<lambda>x. fst k = fst x) g') = {#k#}"
    using one assms(2) by (metis mset_filter mset_single_iff)
  then have "filter (\<lambda>x. fst k = fst x) g' = [k]" by (simp only: mset_single_iff)
  with one show "filter (\<lambda>x. fst k = fst x) g = filter (\<lambda>x. fst k = fst x) g'" by simp
qed

lemma irrelevant_event: "\<not> collateral_event ev \<Longrightarrow> replay_event ev f = f"
  by (cases ev) simp_all

lemma replay_relevant: "fold replay_event (filter collateral_event xs) f = fold replay_event xs f"
  by (induction xs arbitrary: f) (simp_all add: irrelevant_event)

lemma log_valid_relevant: "log_valid f xs \<Longrightarrow> log_valid f (filter collateral_event xs)"
  by (induction xs arbitrary: f) (auto simp: irrelevant_event)

subsection \<open>A round of the scan\<close>

text \<open>What the documentation of the node promises: \<open>head\<close> is the newest block, and the log of a range of blocks is the
  log of its blocks (\<open>blocks b\<close>: what the contract emits in block \<open>b\<close>), in order.\<close>

definition rpc_serves :: "rpc \<Rightarrow> (nat \<Rightarrow> event list) \<Rightarrow> nat \<Rightarrow> bool" where
  "rpc_serves R blocks head \<longleftrightarrow> rpc_connects R \<and> rpc_block_number R = Some head \<and>
     (\<forall>a b. rpc_get_logs R a b = Some (concat (map (\<lambda>n. map (\<lambda>ev. log_of (n, ev)) (blocks n)) [a..<Suc b])))"

definition events_between :: "(nat \<Rightarrow> event list) \<Rightarrow> nat \<Rightarrow> nat \<Rightarrow> event list" where
  "events_between blocks a b = concat (map blocks [a..<Suc b])"

definition scan_target :: "nat \<Rightarrow> nat \<Rightarrow> nat" where
  "scan_target last_block head = min (head - 1) (last_block + 1 + max_blocks_per_scan)"

lemma block_logs_flat:
  "concat (map (\<lambda>n. map (\<lambda>ev. log_of (n, ev)) (blocks n)) ns) =
     map log_of (concat (map (\<lambda>n. map (\<lambda>ev. (n, ev)) (blocks n)) ns))"
  by (induction ns) (simp_all add: comp_def)

lemma block_logs_sorted:
  "sorted ns \<Longrightarrow> sorted (map fst (concat (map (\<lambda>n. map (\<lambda>ev. (n, ev)) (blocks n)) ns)))"
  by (induction ns) (auto simp: sorted_append sorted_replicate comp_def map_replicate_const)

lemma block_logs_snd: "map snd (concat (map (\<lambda>n. map (\<lambda>ev. (n, ev)) (blocks n)) ns)) = concat (map blocks ns)"
  by (induction ns) (simp_all add: comp_def)

lemma scan_events_serves:
  assumes "rpc_serves R blocks head" and "last_block + 1 < head"
  obtains g where "scan_events R (last_block + 1) = Inr (scan_target last_block head, g)"
    and "sorted_wrt (<) (map fst g)"
    and "concat (map snd g) = filter collateral_event (events_between blocks (last_block + 1) (scan_target last_block head))"
proof -
  let ?a = "last_block + 1" and ?b = "scan_target last_block head"
  let ?xs = "concat (map (\<lambda>n. map (\<lambda>ev. (n, ev)) (blocks n)) [?a..<Suc ?b])"
  obtain g where g: "collect_logs (map log_of ?xs) [] = Inr g" "sorted_wrt (<) (map fst g)"
    "concat (map snd g) = filter collateral_event (map snd ?xs)"
    using collect_logs_sorted [OF block_logs_sorted, of "[?a..<Suc ?b]" "[]" blocks] by (auto simp del: upt_Suc)
  have "scan_events R ?a = scan_events_with_scope R ?a ?b"
    using assms by (auto simp: scan_events_def rpc_serves_def scan_target_def Let_def min_def simp del: upt_Suc)
  also have "\<dots> = Inr (?b, g)"
    using assms(1) g(1) by (simp add: scan_events_with_scope_def rpc_serves_def block_logs_flat del: upt_Suc)
  finally show ?thesis using g(2,3) by (intro that) (simp_all add: block_logs_snd events_between_def del: upt_Suc)
qed

context scan_platform
begin

lemma round_shows:
  assumes "steady s" and "mirrors O' s f" and "collateral_scan_status s = Some (last_block, stamp)"
    and "rpc_serves R blocks head" and "last_block + 1 < head" and "\<And>g. mset (order g) = mset g"
    and "log_valid f (events_between blocks (last_block + 1) (scan_target last_block head))"
  shows "\<exists>t now. scan_handle_collateral_events O' R order s = (Inr (), t) \<and> steady t \<and>
    mirrors O' t (fold replay_event (events_between blocks (last_block + 1) (scan_target last_block head)) f) \<and>
    collateral_scan_status t = Some (scan_target last_block head, now)"
proof -
  let ?b = "scan_target last_block head" and ?s = "s\<lparr>tick := Suc (tick s)\<rparr>"
  obtain g where g: "scan_events R (last_block + 1) = Inr (?b, g)" "sorted_wrt (<) (map fst g)"
    "concat (map snd g) = filter collateral_event (events_between blocks (last_block + 1) ?b)"
    using assms(4,5) by (rule scan_events_serves)
  have "log_valid f (concat (map snd g))" unfolding g(3) using assms(7) by (rule log_valid_relevant)
  moreover have "steady ?s" "mirrors O' ?s f" "collateral_scan_status ?s = Some (last_block, stamp)"
    using assms(1-3) by (simp_all add: steady_Suc)
  ultimately obtain u st where u: "for_each (handle_block O') g ?s = (Inr (), u)" "steady u"
    "mirrors O' u (fold replay_event (events_between blocks (last_block + 1) ?b) f)" "collateral_scan_status u = Some st"
    using blocks_show [of ?s f g] g(3) by (auto simp: replay_relevant)
  let ?t = "u\<lparr>tick := Suc (Suc (tick u)), collateral_scan_status := Some (?b, clock u (tick u))\<rparr>"
  have "scan_handle_collateral_events O' R order s = (Inr (), ?t)"
    using assms(1,3) g(1) u sort_key_permuted [OF g(2) assms(6)]
    by (simp add: scan_handle_collateral_events_def get_last_scanned_block_number_def
        update_last_scanned_block_number_def andthen_def steady_sql steady_Suc)
  with u show ?thesis by (intro exI [of _ ?t] exI [of _ "clock u (tick u)"]) (simp add: steady_Suc)
qed

text \<open>A block with two deposits, the first statement for the second one lost.\<close>

lemma round_stops_midway:
  assumes "db_outcome s = (\<lambda>i. if i = tick s + 4 then Lost else Done)" and "mirrors O' s f"
    and "collateral_scan_status s = Some (last_block, stamp)"
    and "row_of collateral_key (key_text O' (h, e)) (collateral_status s) = Some r"
    and "rpc_serves R blocks (last_block + 2)" and "\<And>g. mset (order g) = mset g"
    and "blocks (last_block + 1) = [Deposit h e a v, Deposit h' e' a' v']" and "f (h, e) + v < 2 ^ 256"
  shows "\<exists>t. scan_handle_collateral_events O' R order s = (Inl DatabaseError, t) \<and> steady t \<and>
    mirrors O' t (f((h, e) := f (h, e) + v)) \<and> collateral_scan_status t = Some (last_block, stamp)"
proof -
  let ?g = "\<lambda>x. x\<lparr>cs_collateral := u256_to_string O' (f (h, e) + v), cs_updated_at := clock s (Suc (Suc (tick s)))\<rparr>"
  let ?s = "s\<lparr>tick := Suc (Suc (Suc (Suc (Suc (tick s)))))\<rparr>"
  let ?t = "?s\<lparr>collateral_status := update_where (\<lambda>x. cs_id x = cs_id r) ?g (collateral_status ?s)\<rparr>"
  have "scan_events R (last_block + 1) = Inr (last_block + 1, [(last_block + 1, blocks (last_block + 1))])"
    using assms(5,7)
    by (simp add: scan_events_def scan_events_with_scope_def rpc_serves_def max_blocks_per_scan_def log_of_def push_event_def)
  moreover have "order [x] = [x]" for x using assms(6) [of "[x]"] by (simp add: mset_single_iff)
  moreover have "u256_from_str O' (cs_collateral r) = Some (f (h, e))"
    using mirrors_stored [OF assms(2), of "(h, e)"] assms(4) by (simp add: stored_collateral_def)
  moreover have "db_outcome s = (\<lambda>i. if i = Suc (Suc (Suc (Suc (tick s)))) then Lost else Done)"
    unfolding assms(1) by (simp add: numeral_eq_Suc)
  ultimately have "scan_handle_collateral_events O' R order s = (Inl DatabaseError, ?t)"
    using assms(3,4,7,8)
    by (simp add: scan_handle_collateral_events_def get_last_scanned_block_number_def handle_block_def handle_deposit_def
        get_collateral_status_id_def set_collateral_def saturating_add_def min_def andthen_def sql_def key_text_def)
  moreover have "mirrors O' ?t (f((h, e) := f (h, e) + v))"
    using assms(2,4,8) by (intro mirrors_update) (simp_all add: collateral_key_def u256_round_trip)
  moreover have "steady ?t" using assms(1) by (simp add: steady_def)
  ultimately show ?thesis using assms(3) by (intro exI [of _ ?t]) simp
qed

end

subsection \<open>A scan\<close>

text \<open>Keys and numbers in decimal; a node with one block in which two executors get their collateral.\<close>

definition demo_scan_ops :: scan_ops where
  "demo_scan_ops =
     \<lparr>hex32 = (\<lambda>h. dec_digits (unat h)), hex16 = (\<lambda>e. dec_digits (unat e)), hex_address = (\<lambda>a. dec_digits (unat a)),
      u256_to_string = dec_digits,
      u256_from_str = (\<lambda>str. if is_digits str \<and> digits_value str < 2 ^ 256 then Some (digits_value str) else None)\<rparr>"

interpretation demo_scan: scan_platform demo_scan_ops
proof
  fix x y :: bytes32
  assume "hex32 demo_scan_ops x = hex32 demo_scan_ops y"
  then have "digits_value (dec_digits (unat x)) = digits_value (dec_digits (unat y))" by (simp add: demo_scan_ops_def)
  then show "x = y" by (simp add: digits_value_digits word_unat_eq_iff)
next
  fix x y :: bytes16
  assume "hex16 demo_scan_ops x = hex16 demo_scan_ops y"
  then have "digits_value (dec_digits (unat x)) = digits_value (dec_digits (unat y))" by (simp add: demo_scan_ops_def)
  then show "x = y" by (simp add: digits_value_digits word_unat_eq_iff)
next
  fix n :: nat
  assume "n < 2 ^ 256"
  then show "u256_from_str demo_scan_ops (u256_to_string demo_scan_ops n) = Some n"
    using digits_value_digits [of n] by (simp add: demo_scan_ops_def)
next
  fix n :: nat and str
  assume "u256_from_str demo_scan_ops str = Some n"
  then show "n < 2 ^ 256" by (simp add: demo_scan_ops_def split: if_splits)
next
  show "u256_from_str demo_scan_ops ''0'' = Some 0"
    by (simp add: demo_scan_ops_def is_digits_def digits_value_def digit_value_def)
qed

definition demo_rpc :: "(nat \<Rightarrow> event list) \<Rightarrow> nat \<Rightarrow> rpc" where
  "demo_rpc blocks head =
     \<lparr>rpc_connects = True, rpc_block_number = Some head,
      rpc_get_logs = (\<lambda>a b. Some (concat (map (\<lambda>n. map (\<lambda>ev. log_of (n, ev)) (blocks n)) [a..<Suc b])))\<rparr>"

definition demo_blocks :: "nat \<Rightarrow> event list" where
  "demo_blocks n = (if n = 1 then map snd (logs demo_contract) else [])"

definition demo_two_deposits :: "nat \<Rightarrow> event list" where
  "demo_two_deposits n = (if n = 1 then [Deposit 3 4 1 10, Deposit 5 6 2 20] else [])"

definition demo_collateral_db :: "(nat \<Rightarrow> outcome) \<Rightarrow> collateral_db" where
  "demo_collateral_db fate =
     \<lparr>tick = 0, clock = int, uuid_src = id, db_outcome = fate, collateral_status = [], collateral_next_id = 0,
      collateral_scan_status = Some (0, 0)\<rparr>"

definition demo_row :: collateral_row where
  "demo_row =
     \<lparr>cs_id = 0, cs_hotkey = hex32 demo_scan_ops 3, cs_executor_id = hex16 demo_scan_ops 4,
      cs_miner = ''0x1'', cs_collateral = u256_to_string demo_scan_ops 50, cs_url = None, cs_md5 = None, cs_updated_at = 0\<rparr>"

definition demo_collateral_row_db :: "(nat \<Rightarrow> outcome) \<Rightarrow> collateral_db" where
  "demo_collateral_row_db fate = (demo_collateral_db fate)\<lparr>collateral_status := [demo_row], collateral_next_id := 1\<rparr>"

lemma demo_rpc_serves: "rpc_serves (demo_rpc blocks head) blocks head"
  by (simp add: rpc_serves_def demo_rpc_def del: upt_Suc)

lemma demo_collateral_db_mirrors: "mirrors demo_scan_ops (demo_collateral_db fate) (\<lambda>_. 0)"
  by (rule mirrorsI) (simp_all add: demo_collateral_db_def unique_key_def stored_collateral_def)

lemma demo_collateral_row_db_mirrors: "mirrors demo_scan_ops (demo_collateral_row_db fate) ((\<lambda>_. 0)((3, 4) := 50))"
  using demo_scan.mirrors_insert [OF demo_collateral_db_mirrors, of "(3, 4)" fate demo_row 50]
    demo_scan.u256_round_trip [of 50]
  by (simp add: demo_collateral_row_db_def demo_collateral_db_def demo_row_def collateral_key_def key_text_def)

subsection \<open>Properties of the scan\<close>

lemma events_between_split:
  "a \<le> Suc b \<Longrightarrow> b \<le> c \<Longrightarrow> events_between blocks a c = events_between blocks a b @ events_between blocks (b + 1) c"
  unfolding events_between_def
  using upt_add_eq_append [of a "Suc b" "c - b"] by (simp del: upt_Suc)

text \<open>C22: The validator's table follows the contract: when it shows the collaterals the contract had after the last
  scanned block, and every statement is carried out, a round of the scan succeeds and leaves it showing the collaterals
  the contract has after the newest block it read, whatever order the hash map gives the blocks in.\<close>

theorem scan_mirrors_contract:
  assumes "scan_platform O'" and "steady s" and "rpc_serves R blocks head" and "\<forall>g. mset (order g) = mset g"
    and "c = chain_run Z steps (fresh_contract oz)" and "map snd (logs c) = events_between blocks 0 last_block"
    and "c' = chain_run Z steps' c" and "map snd (logs c') = events_between blocks 0 (scan_target last_block head)"
    and "mirrors O' s (collaterals c)" and "collateral_scan_status s = Some (last_block, stamp)" and "last_block + 1 < head"
  shows "\<exists>t now. scan_handle_collateral_events O' R order s = (Inr (), t) \<and> mirrors O' t (collaterals c') \<and>
    collateral_scan_status t = Some (scan_target last_block head, now)"
proof -
  let ?b = "scan_target last_block head"
  have reach: "reach c" "reach c'" unfolding assms(5,7) by (intro reach_chain_run Reach_Fresh)+
  have "last_block \<le> ?b" using assms(11) by (simp add: scan_target_def)
  then have new: "map snd (logs c') = map snd (logs c) @ events_between blocks (last_block + 1) ?b"
    unfolding assms(6,8) by (intro events_between_split) simp_all
  have coll: "collaterals c' = fold replay_event (events_between blocks (last_block + 1) ?b) (collaterals c)"
    using reach_replay [OF reach(1)] reach_replay [OF reach(2)] new by (simp add: replay_fold)
  have "log_valid (collaterals c) (events_between blocks (last_block + 1) ?b)"
    using reach_log_valid [OF reach(2)] new reach_replay [OF reach(1)] by (simp add: log_valid_append replay_fold)
  from scan_platform.round_shows [OF assms(1,2,9,10,3,11) _ this, of order] assms(4) coll
  show ?thesis by auto
qed

theorem scan_mirrors_contract_witness:
  "\<exists>t now. scan_handle_collateral_events demo_scan_ops (demo_rpc demo_blocks 3) rev (demo_collateral_db (\<lambda>_. Done)) = (Inr (), t) \<and>
    mirrors demo_scan_ops t (collaterals demo_contract) \<and>
    collateral_scan_status t = Some (scan_target 0 3, now)"
proof (rule scan_mirrors_contract [OF demo_scan.scan_platform_axioms _ demo_rpc_serves _ refl,
      where Z = demo_oz and steps = "[]" and oz = "(False, [])" and steps' = demo_steps and last_block = 0 and head = 3
        and stamp = 0])
  show "steady (demo_collateral_db (\<lambda>_. Done))" by (simp add: steady_def demo_collateral_db_def)
  show "\<forall>g. mset (rev g) = mset g" by simp
  show "map snd (logs (chain_run demo_oz [] (fresh_contract (False, [])))) = events_between demo_blocks 0 0"
    by (simp add: fresh_contract_def events_between_def demo_blocks_def)
  show "demo_contract = chain_run demo_oz demo_steps (chain_run demo_oz [] (fresh_contract (False, [])))"
    by (simp only: chain_run.simps)
  show "map snd (logs demo_contract) = events_between demo_blocks 0 (scan_target 0 3)"
    by (simp add: events_between_def scan_target_def max_blocks_per_scan_def demo_blocks_def numeral_3_eq_3)
  show "mirrors demo_scan_ops (demo_collateral_db (\<lambda>_. Done)) (collaterals (chain_run demo_oz [] (fresh_contract (False, []))))"
    using demo_collateral_db_mirrors by (simp add: fresh_contract_def)
qed (simp_all add: demo_collateral_db_def)

text \<open>C23: A round is not atomic within a block: when a statement for the second deposit of a block is lost, the first one
  stays counted while the block stays unscanned, and the next round counts the first deposit a second time.\<close>

theorem failed_round_counts_deposit_twice:
  assumes "scan_platform O'" and "db_outcome s = (\<lambda>i. if i = tick s + 4 then Lost else Done)" and "mirrors O' s f"
    and "collateral_scan_status s = Some (last_block, stamp)"
    and "row_of collateral_key (key_text O' (h, e)) (collateral_status s) = Some r"
    and "rpc_serves R blocks (last_block + 2)" and "\<forall>g. mset (order g) = mset g"
    and "blocks (last_block + 1) = [Deposit h e a v, Deposit h' e' a' v']" and "(h', e') \<noteq> (h, e)"
    and "f (h, e) + 2 * v < 2 ^ 256" and "f (h', e') + v' < 2 ^ 256"
  shows "fst (scan_handle_collateral_events O' R order s) = Inl DatabaseError \<and>
    mirrors O' (scan_round O' R order (scan_round O' R order s))
      (f((h, e) := f (h, e) + 2 * v, (h', e') := f (h', e') + v'))"
proof -
  have perm: "mset (order g) = mset g" for g using assms(7) by blast
  have fits: "f (h, e) + v < 2 ^ 256" using assms(10) by simp
  from scan_platform.round_stops_midway [OF assms(1-6) perm assms(8) fits]
  obtain t where t: "scan_handle_collateral_events O' R order s = (Inl DatabaseError, t)" "steady t"
    "mirrors O' t (f((h, e) := f (h, e) + v))" "collateral_scan_status t = Some (last_block, stamp)" by blast
  have block: "events_between blocks (last_block + 1) (scan_target last_block (last_block + 2)) =
      [Deposit h e a v, Deposit h' e' a' v']"
    using assms(8) by (simp add: events_between_def scan_target_def)
  have "log_valid (f((h, e) := f (h, e) + v)) [Deposit h e a v, Deposit h' e' a' v']"
    using assms(9-11) by auto
  from scan_platform.round_shows [OF assms(1) t(2-4) assms(6) _ perm, unfolded block, OF _ this]
  obtain u where "scan_handle_collateral_events O' R order t = (Inr (), u)"
    "mirrors O' u (fold replay_event [Deposit h e a v, Deposit h' e' a' v'] (f((h, e) := f (h, e) + v)))" by auto
  moreover have "fold replay_event [Deposit h e a v, Deposit h' e' a' v'] (f((h, e) := f (h, e) + v)) =
      f((h, e) := f (h, e) + 2 * v, (h', e') := f (h', e') + v')"
    by (simp only: fold.simps comp_apply id_apply replay_event.simps fun_upd_same fun_upd_upd
        fun_upd_other [OF assms(9)] mult_2 add.assoc)
  ultimately show ?thesis using t(1) by (simp add: scan_round_def)
qed

theorem failed_round_counts_deposit_twice_witness:
  "mirrors demo_scan_ops
     (scan_round demo_scan_ops (demo_rpc demo_two_deposits 2) id
       (scan_round demo_scan_ops (demo_rpc demo_two_deposits 2) id (demo_collateral_row_db (\<lambda>i. if i = 4 then Lost else Done))))
     ((\<lambda>_. 0)((3, 4) := 70, (5, 6) := 20))"
proof -
  have serves: "rpc_serves (demo_rpc demo_two_deposits 2) demo_two_deposits (0 + 2)"
    unfolding add_0 by (rule demo_rpc_serves)
  let ?f = "(\<lambda>_. 0)((3, 4) := 50) :: executor_key \<Rightarrow> nat"
  have "mirrors demo_scan_ops
     (scan_round demo_scan_ops (demo_rpc demo_two_deposits 2) id
       (scan_round demo_scan_ops (demo_rpc demo_two_deposits 2) id (demo_collateral_row_db (\<lambda>i. if i = 4 then Lost else Done))))
     (?f((3, 4) := ?f (3, 4) + 2 * 10, (5, 6) := ?f (5, 6) + 20))"
    by (rule conjunct2, rule failed_round_counts_deposit_twice
          [OF demo_scan.scan_platform_axioms _ demo_collateral_row_db_mirrors _ _ serves, where stamp = 0 and r = demo_row
            and a = 1 and a' = 2])
      (simp_all add: demo_collateral_row_db_def demo_collateral_db_def demo_row_def collateral_key_def key_text_def demo_two_deposits_def)
  then show ?thesis by simp
qed

end
