(* ===== verification/Spec2Isabelle.thy ===== *)
theory Spec2Isabelle
  imports Credit_Calls Rules Price_Oracle Event_Handlers Billing_Service Collateral_Scan
begin

section \<open>The Basilica payment path and its neighbours\<close>

text \<open>
  \<^bold>\<open>The program.\<close> Basilica rents GPU machines. Users pay in TAO: the payments service
  (\<open>crates/basilica-payments\<close>) gives every user a deposit account on the chain, watches the chain
  for transfers to these accounts, and hands the deposits to the billing service through an outbox.
  The billing service (\<open>crates/basilica-billing\<close>) keeps the credit accounts, holds credits for
  running rentals, prices usage with packages and rules, stores usage events in an append-only
  table, and charges a rental when it ends. The development follows that path from the transfer to
  the charge.

  \<^bold>\<open>Foundations.\<close>
  \<^item> \<open>Prelude\<close>: programs over a state with an error result, the environment (clock, random
    identifiers, the fate of every SQL statement: carried out, lost, or carried out with its answer
    lost), transactions, tables as lists of rows; the calculus of invariants (\<open>keeps\<close>, \<open>safe\<close>) and
    frames (\<open>frames\<close>) that the component proofs run on.
  \<^item> \<open>Decimal\<close>, \<open>Float64\<close>: the values of \<open>rust_decimal\<close> with its rounding as parameters under the
    laws of its documentation; IEEE doubles with rounding to nearest, ties to even, computed.
  \<^item> \<open>Billing_Platform\<close>: what billing calls and does not define (column types of PostgreSQL, text
    forms of identifiers and decimals). Each such interface is a record of functions with a locale
    that states its laws (\<open>rust_decimal\<close>, \<open>billing_platform\<close>, \<open>telemetry_platform\<close>,
    \<open>service_platform\<close>, \<open>rw_lock\<close> and others) and an interpretation by computable functions, so
    that no property holds vacuously.

  \<^bold>\<open>Billing.\<close>
  \<^item> \<open>Billing_Types\<close> (\<open>domain/types.rs\<close>, \<open>error.rs\<close>), \<open>Credit_Account\<close> and \<open>Credit_Manager\<close>
    (\<open>domain/credits.rs\<close>), \<open>Credit_Repository\<close> (\<open>storage/credits.rs\<close>): accounts and reservations
    and the SQL under them. \<open>Credit_Ledger\<close> has the abstract ledger, and the lemmas that every
    operation of the manager refines one of its steps while every statement is carried out;
    \<open>Credit_Calls\<close> has sequences of calls: well-formed tables under every failure pattern, reserved
    credits equal to the open holds without failures, expired holds given back, and what a failed
    charge leaves behind.
  \<^item> \<open>Rentals\<close> (\<open>domain/rentals.rs\<close>, \<open>storage/rentals.rs\<close>): the life cycle of a rental and its row.
  \<^item> \<open>Packages\<close> (\<open>domain/packages.rs\<close>, \<open>storage/packages.rs\<close>, \<open>storage/user_preferences.rs\<close>):
    prices, the package cache with its interleavings, the package of a user.
  \<^item> \<open>Rules\<close> (\<open>domain/rules_engine.rs\<close>, \<open>storage/rules.rs\<close>): conditions, actions, their JSON form.
  \<^item> \<open>Events\<close> (\<open>storage/events.rs\<close>, \<open>domain/events.rs\<close>), \<open>Telemetry\<close> (\<open>telemetry\<close>,
    \<open>storage/usage.rs\<close>), \<open>Event_Handlers\<close> (\<open>domain/billing_handlers.rs\<close>, \<open>domain/processor.rs\<close>): the
    event tables, the telemetry channel, and what processing a batch of events does.
  \<^item> \<open>Billing_Service\<close> (\<open>grpc/billing_service.rs\<close>): the eleven calls, composed from all of these.

  \<^bold>\<open>Payments.\<close>
  \<^item> \<open>Payments\<close>: tables and repositories (\<open>storage\<close>), the chain event handler
    (\<open>blockchain/monitor.rs\<close>), one pass of the outbox dispatcher (\<open>processor\<close>), amounts
    (\<open>domain/price.rs\<close>), the calls (\<open>grpc/payments_service.rs\<close>) and the treasury.
  \<^item> \<open>Price_Oracle\<close> (\<open>price_oracle/mod.rs\<close>): a step relation over tasks that meet at a lock.

  \<^bold>\<open>How to read a definition.\<close> A Rust method is one definition over the tables it reads and
  writes; \<open>?\<close> is \<open>andthen\<close>, an early return is the error branch with the state it leaves behind, an
  awaited statement is \<open>sql\<close> with an outcome the environment chooses. Log lines and metrics are left
  out. Error texts are kept where code reads them.

  \<^bold>\<open>Bounds.\<close> Loops over rows and messages are structural recursions, so no fuel is needed.
  Endless loops (the dispatcher, the event processor, the refresh of the oracle) are modelled
  by their round, and the properties speak of any number of rounds. Machine integers are words or
  carry their range where the code can leave it (\<open>as i32\<close>, \<open>u32\<close> counters, \<open>usize\<close> capacities).

  \<^bold>\<open>Not modelled.\<close> Configuration, secrets, metrics, connection pools and \<open>main\<close> functions are wiring.
  The read-only aggregate queries \<open>get_rental_statistics\<close>, \<open>get_usage_for_user\<close>,
  \<open>get_cost_for_period\<close> and \<open>get_transaction_history\<close> only report. The other crates (validator,
  miner, executor, API gateway, command line, SDKs, chain client, collateral contract) are separate
  processes that the payment path meets only through the calls modelled here.
\<close>

end
